(* ===== verification/Prelude.thy ===== *)
theory Prelude
  imports Main "HOL-Library.Word" "HOL-Library.Signed_Division"
begin

unbundle bit_operations_syntax

text \<open>
  The parts of the Go language and of its standard library that several components of
  Boulevard share: machine integers, bytes and strings, the functions of the packages
  \<open>strings\<close>, \<open>bytes\<close>, \<open>strconv\<close> and \<open>encoding/binary\<close> that the source calls,
  readers and writers with their errors, and the generic lemmas about them.

  A Go string is a sequence of bytes: it is a \<^typ>\<open>string\<close> here (a list of 8-bit
  characters). A byte slice is a list of \<^typ>\<open>8 word\<close>; \<open>bytes_of\<close> and \<open>string_of\<close>
  are the two conversions. A Go \<open>error\<close> return is the left side of a sum.
\<close>

named_theorems go_simps \<open>unfolding rules of the Go library functions\<close>
named_theorems codec_simps \<open>round trips of the encoders and decoders\<close>
named_theorems inv_intros \<open>preservation of component invariants\<close>

section \<open>Types\<close>

type_synonym byte = "8 word"
type_synonym bytes = "byte list"
type_synonym u16 = "16 word"
type_synonym u32 = "32 word"

section \<open>Go's 64-bit signed integers\<close>

text \<open>
  \<open>int64\<close> and \<open>int\<close> values are HOL integers; every arithmetic operation of the source is
  followed by \<open>wrap64\<close>, the reduction of the result to 64 bits in two's complement.
\<close>

definition wrap64 :: "int \<Rightarrow> int" where
  "wrap64 x = (x + 2 ^ 63) mod 2 ^ 64 - 2 ^ 63"

definition int64 :: "int \<Rightarrow> bool" where
  "int64 x \<longleftrightarrow> - (2 ^ 63) \<le> x \<and> x < 2 ^ 63"

lemma wrap64_id [simp]: "int64 x \<Longrightarrow> wrap64 x = x"
  by (simp add: wrap64_def int64_def)

lemma int64_wrap64 [simp, intro]: "int64 (wrap64 x)"
proof -
  have "0 \<le> (x + 2 ^ 63) mod 2 ^ 64" and "(x + 2 ^ 63) mod 2 ^ 64 < 2 ^ 64"
    by simp_all
  then show ?thesis unfolding wrap64_def int64_def by simp
qed

section \<open>Strings and byte slices\<close>

definition bytes_of :: "string \<Rightarrow> bytes" where
  "bytes_of s = map of_char s"

definition string_of :: "bytes \<Rightarrow> string" where
  "string_of bs = map (\<lambda>b. char_of (unat b)) bs"

lemma of_char_word_eq: "(of_char c :: byte) = word_of_nat (of_char c)"
  by (simp add: of_nat_of_char)

lemma string_of_bytes_of [simp]: "string_of (bytes_of s) = s"
proof -
  have "char_of (unat (of_char c :: byte)) = c" for c
  proof -
    have "of_char c < (256 :: nat)" by (metis of_char_mod_256 mod_less_divisor zero_less_numeral)
    then have "unat (of_char c :: byte) = (of_char c :: nat)"
      by (simp add: of_char_word_eq unat_of_nat)
    then show ?thesis by simp
  qed
  then show ?thesis by (simp add: string_of_def bytes_of_def comp_def map_idI)
qed

lemma bytes_of_string_of [simp]: "bytes_of (string_of bs) = bs"
proof -
  have "of_char (char_of (unat b)) = b" for b :: byte
  proof -
    have "unat b < 256" using unsigned_less [of b] by simp
    then show ?thesis by (simp add: of_char_word_eq of_char_of)
  qed
  then show ?thesis by (simp add: string_of_def bytes_of_def comp_def map_idI)
qed

lemma length_bytes_of [simp]: "length (bytes_of s) = length s"
  by (simp add: bytes_of_def)

lemma length_string_of [simp]: "length (string_of bs) = length bs"
  by (simp add: string_of_def)

lemma bytes_of_inject [simp]: "bytes_of s = bytes_of t \<longleftrightarrow> s = t"
  by (metis string_of_bytes_of)

lemma bytes_of_simps [simp]:
  "bytes_of [] = []" "bytes_of (s @ t) = bytes_of s @ bytes_of t"
  by (simp_all add: bytes_of_def)

lemma string_of_simps [simp]:
  "string_of [] = []" "string_of (s @ t) = string_of s @ string_of t"
  by (simp_all add: string_of_def)

text \<open>\<open>strings.IndexByte\<close> / \<open>bytes.IndexByte\<close>: the first index of a byte, \<open>None\<close> for -1.\<close>

fun IndexByte :: "'a list \<Rightarrow> 'a \<Rightarrow> nat option" where
  "IndexByte [] c = None"
| "IndexByte (x # xs) c = (if x = c then Some 0 else map_option Suc (IndexByte xs c))"

lemma IndexByte_None [simp]: "IndexByte xs c = None \<longleftrightarrow> c \<notin> set xs"
  by (induction xs) auto

lemma IndexByte_notin [simp]: "c \<notin> set xs \<Longrightarrow> IndexByte xs c = None"
  by simp

lemma IndexByte_SomeD:
  "IndexByte xs c = Some i \<Longrightarrow>
    i < length xs \<and> xs ! i = c \<and> c \<notin> set (take i xs) \<and> xs = take i xs @ c # drop (Suc i) xs"
proof (induction xs arbitrary: i)
  case Nil
  then show ?case by simp
next
  case (Cons x xs)
  then show ?case by (cases "x = c") auto
qed

lemma IndexByte_append [simp]: "c \<notin> set xs \<Longrightarrow> IndexByte (xs @ c # ys) c = Some (length xs)"
  by (induction xs) auto

lemma IndexByte_append_Some:
  "IndexByte xs c = Some i \<Longrightarrow> IndexByte (xs @ ys) c = Some i"
  by (induction xs arbitrary: i) (auto split: if_splits)

text \<open>\<open>strings.Cut\<close> around a one-byte separator: before, after, found.\<close>

definition Cut :: "'a list \<Rightarrow> 'a \<Rightarrow> 'a list \<times> 'a list \<times> bool" where
  "Cut s sep = (case IndexByte s sep of
     Some i \<Rightarrow> (take i s, drop (Suc i) s, True)
   | None \<Rightarrow> (s, [], False))"

lemma Cut_append [simp]: "c \<notin> set xs \<Longrightarrow> Cut (xs @ c # ys) c = (xs, ys, True)"
  by (simp add: Cut_def)

lemma Cut_notin [simp]: "c \<notin> set s \<Longrightarrow> Cut s c = (s, [], False)"
  by (simp add: Cut_def)

lemma Cut_TrueD: "Cut s c = (a, b, True) \<Longrightarrow> s = a @ c # b \<and> c \<notin> set a"
  by (auto simp: Cut_def split: option.splits dest: IndexByte_SomeD)

text \<open>\<open>strings.Split\<close> with a one-byte separator (the result is never empty), and \<open>strings.Join\<close>.\<close>

fun Split :: "'a list \<Rightarrow> 'a \<Rightarrow> 'a list list" where
  "Split [] sep = [[]]"
| "Split (x # xs) sep =
     (if x = sep then [] # Split xs sep
      else case Split xs sep of
             [] \<Rightarrow> [[x]]
           | p # ps \<Rightarrow> (x # p) # ps)"

fun Join :: "'a list list \<Rightarrow> 'a list \<Rightarrow> 'a list" where
  "Join [] sep = []"
| "Join [p] sep = p"
| "Join (p # q # ps) sep = p @ sep @ Join (q # ps) sep"

lemma Split_not_Nil [simp]: "Split xs sep \<noteq> []"
  by (cases xs) (auto split: list.splits)

lemma Join_Cons_ne: "ps \<noteq> [] \<Longrightarrow> Join (p # ps) sep = p @ sep @ Join ps sep"
  by (cases ps) auto

lemma Join_Cons_elem: "Join ((x # p) # ps) sep = x # Join (p # ps) sep"
  by (cases ps) auto

lemma Join_Split [simp]: "Join (Split xs sep) [sep] = xs"
proof (induction xs)
  case Nil
  then show ?case by simp
next
  case (Cons x xs)
  then show ?case
    by (auto simp: Join_Cons_ne Join_Cons_elem split: list.splits)
qed

lemma Split_notin: "sep \<notin> set p \<Longrightarrow> Split p sep = [p]"
  by (induction p) auto

lemma Split_append_sep:
  "sep \<notin> set p \<Longrightarrow> Split (p @ sep # s) sep = p # Split s sep"
  by (induction p) auto

lemma Split_Join:
  "ps \<noteq> [] \<Longrightarrow> \<forall>p \<in> set ps. sep \<notin> set p \<Longrightarrow> Split (Join ps [sep]) sep = ps"
proof (induction ps "[sep]" rule: Join.induct)
  case (3 p q ps)
  then show ?case by (simp add: Split_append_sep)
qed (auto simp: Split_notin)

lemma Split_parts: "p \<in> set (Split xs sep) \<Longrightarrow> sep \<notin> set p"
proof (induction xs arbitrary: p)
  case Nil
  then show ?case by simp
next
  case (Cons x xs)
  then show ?case
    by (cases "Split xs sep") (auto split: if_splits)
qed

lemma length_Split: "length (Split xs sep) = Suc (length (filter ((=) sep) xs))"
  by (induction xs) (auto split: list.splits)

text \<open>\<open>strings.TrimLeft\<close>, \<open>strings.TrimRight\<close> and \<open>strings.Trim\<close> with an ASCII cut set.\<close>

definition TrimLeft :: "'a list \<Rightarrow> 'a list \<Rightarrow> 'a list" where
  "TrimLeft s cutset = dropWhile (\<lambda>c. c \<in> set cutset) s"

definition TrimRight :: "'a list \<Rightarrow> 'a list \<Rightarrow> 'a list" where
  "TrimRight s cutset = rev (dropWhile (\<lambda>c. c \<in> set cutset) (rev s))"

definition Trim :: "'a list \<Rightarrow> 'a list \<Rightarrow> 'a list" where
  "Trim s cutset = TrimRight (TrimLeft s cutset) cutset"

text \<open>\<open>strings.HasPrefix\<close> and \<open>strings.TrimPrefix\<close>.\<close>

fun HasPrefix :: "'a list \<Rightarrow> 'a list \<Rightarrow> bool" where
  "HasPrefix s [] = True"
| "HasPrefix [] (p # ps) = False"
| "HasPrefix (x # xs) (p # ps) = (x = p \<and> HasPrefix xs ps)"

definition TrimPrefix :: "'a list \<Rightarrow> 'a list \<Rightarrow> 'a list" where
  "TrimPrefix s p = (if HasPrefix s p then drop (length p) s else s)"

lemma TrimRight_eq_Nil: "TrimRight s cs = [] \<longleftrightarrow> set s \<subseteq> set cs"
  by (auto simp: TrimRight_def)

lemma TrimRight_last: "TrimRight s cs \<noteq> [] \<Longrightarrow> last (TrimRight s cs) \<notin> set cs"
  unfolding TrimRight_def by (metis hd_dropWhile last_rev rev_is_Nil_conv)

lemma TrimRight_id: "s = [] \<or> last s \<notin> set cs \<Longrightarrow> TrimRight s cs = s"
  unfolding TrimRight_def
  by (cases s rule: rev_cases) auto

lemma TrimLeft_id: "s = [] \<or> hd s \<notin> set cs \<Longrightarrow> TrimLeft s cs = s"
  unfolding TrimLeft_def by (cases s) auto

lemma Trim_id: "s = [] \<or> hd s \<notin> set cs \<and> last s \<notin> set cs \<Longrightarrow> Trim s cs = s"
  unfolding Trim_def by (auto simp: TrimLeft_id TrimRight_id)

lemma set_TrimRight: "set (TrimRight s cs) \<subseteq> set s"
  unfolding TrimRight_def by (metis set_dropWhileD set_rev subsetI)

lemma set_TrimLeft: "set (TrimLeft s cs) \<subseteq> set s"
  unfolding TrimLeft_def by (metis set_dropWhileD subsetI)

lemma set_Trim: "set (Trim s cs) \<subseteq> set s"
  unfolding Trim_def by (rule subset_trans [OF set_TrimRight set_TrimLeft])

lemma TrimLeft_hd: "TrimLeft s cs \<noteq> [] \<Longrightarrow> hd (TrimLeft s cs) \<notin> set cs"
  unfolding TrimLeft_def by (metis hd_dropWhile)

lemma TrimRight_hd: "TrimRight s cs \<noteq> [] \<Longrightarrow> hd (TrimRight s cs) = hd s"
proof -
  assume ne: "TrimRight s cs \<noteq> []"
  have "s = TrimRight s cs @ rev (takeWhile (\<lambda>c. c \<in> set cs) (rev s))"
    unfolding TrimRight_def by (metis rev_append rev_rev_ident takeWhile_dropWhile_id)
  with ne show ?thesis by (metis hd_append2)
qed

lemma Trim_ends:
  "Trim s cs \<noteq> [] \<Longrightarrow> hd (Trim s cs) \<notin> set cs \<and> last (Trim s cs) \<notin> set cs"
  unfolding Trim_def
  by (metis TrimLeft_hd TrimRight_hd TrimRight_id TrimRight_last)

lemma Trim_idem [simp]: "Trim (Trim s cs) cs = Trim s cs"
  using Trim_ends [of s cs] by (intro Trim_id) auto

lemma HasPrefix_iff: "HasPrefix s p \<longleftrightarrow> (\<exists>t. s = p @ t)"
  by (induction s p rule: HasPrefix.induct) auto

lemma TrimPrefix_append [simp]: "TrimPrefix (p @ s) p = s"
  by (auto simp: TrimPrefix_def HasPrefix_iff)

text \<open>
  \<open>strings.ToLower\<close> and \<open>strings.ToUpper\<close>: byte by byte on an ASCII string, the library's
  fast path. On other strings they map Unicode code points; that mapping is the
  parameter \<open>uni\<close> of each definition that calls them.
\<close>

definition is_ascii :: "string \<Rightarrow> bool" where
  "is_ascii s \<longleftrightarrow> list_all (\<lambda>c. of_char c < (128 :: nat)) s"

definition lower_char :: "char \<Rightarrow> char" where
  "lower_char c = (let n = (of_char c :: nat) in
     if 65 \<le> n \<and> n \<le> 90 then char_of (n + 32) else c)"

definition upper_char :: "char \<Rightarrow> char" where
  "upper_char c = (let n = (of_char c :: nat) in
     if 97 \<le> n \<and> n \<le> 122 then char_of (n - 32) else c)"

definition ToLower :: "(string \<Rightarrow> string) \<Rightarrow> string \<Rightarrow> string" where
  "ToLower uni s = (if is_ascii s then map lower_char s else uni s)"

definition ToUpper :: "(string \<Rightarrow> string) \<Rightarrow> string \<Rightarrow> string" where
  "ToUpper uni s = (if is_ascii s then map upper_char s else uni s)"

text \<open>\<open>strconv.Itoa\<close> and \<open>strconv.FormatInt\<close> in base 10.\<close>

definition digit_char :: "nat \<Rightarrow> char" where
  "digit_char d = char_of (48 + d)"

fun dec_nat :: "nat \<Rightarrow> string" where
  "dec_nat n = (if n < 10 then [digit_char n] else dec_nat (n div 10) @ [digit_char (n mod 10)])"

declare dec_nat.simps [simp del]

definition Itoa :: "int \<Rightarrow> string" where
  "Itoa i = (if i < 0 then CHR ''-'' # dec_nat (nat (- i)) else dec_nat (nat i))"

text \<open>
  \<open>strconv.ParseInt\<close> in base 10 with 64 bits: an optional sign and one or more decimal
  digits; \<open>None\<close> stands for the syntax error and the range error, which no caller of the
  source tells apart.
\<close>

definition is_digit :: "char \<Rightarrow> bool" where
  "is_digit c \<longleftrightarrow> 48 \<le> (of_char c :: nat) \<and> (of_char c :: nat) \<le> 57"

fun digits_value :: "nat \<Rightarrow> string \<Rightarrow> nat" where
  "digits_value acc [] = acc"
| "digits_value acc (c # cs) = digits_value (10 * acc + (of_char c - 48)) cs"

definition ParseInt :: "string \<Rightarrow> int option" where
  "ParseInt s =
     (let (neg, ds) = (case s of
          [] \<Rightarrow> (False, [])
        | c # cs \<Rightarrow> if c = CHR ''-'' then (True, cs)
                   else if c = CHR ''+'' then (False, cs) else (False, s));
          v = (if neg then - int (digits_value 0 ds) else int (digits_value 0 ds))
      in if ds = [] \<or> \<not> list_all is_digit ds then None
         else if int64 v then Some v else None)"

lemma digits_value_append: "digits_value acc (xs @ ys) = digits_value (digits_value acc xs) ys"
  by (induction acc xs rule: digits_value.induct) auto

lemma digit_char_value: "d < 10 \<Longrightarrow> of_char (digit_char d) = 48 + d"
  by (simp add: digit_char_def of_char_of)

lemma dec_nat_digits: "list_all is_digit (dec_nat n) \<and> dec_nat n \<noteq> []"
proof (induction n rule: dec_nat.induct)
  case (1 n)
  show ?case
  proof (cases "n < 10")
    case True
    then show ?thesis by (simp add: dec_nat.simps [of n] is_digit_def digit_char_value)
  next
    case False
    then show ?thesis
      using "1.IH" by (simp add: dec_nat.simps [of n] is_digit_def digit_char_value)
  qed
qed

lemma digits_value_dec_nat: "digits_value 0 (dec_nat n) = n"
proof (induction n rule: dec_nat.induct)
  case (1 n)
  show ?case
  proof (cases "n < 10")
    case True
    then show ?thesis by (simp add: dec_nat.simps [of n] digit_char_value)
  next
    case False
    then show ?thesis
      using "1.IH" by (simp add: dec_nat.simps [of n] digit_char_value digits_value_append)
  qed
qed

lemma is_digit_not_sign: "is_digit c \<Longrightarrow> c \<noteq> CHR ''-'' \<and> c \<noteq> CHR ''+''"
  by (auto simp: is_digit_def)

lemma ParseInt_dec_nat: "int n < 2 ^ 63 \<Longrightarrow> ParseInt (dec_nat n) = Some (int n)"
proof -
  assume small: "int n < 2 ^ 63"
  obtain c cs where ds: "dec_nat n = c # cs"
    using dec_nat_digits [of n] by (cases "dec_nat n") auto
  have "is_digit c" using dec_nat_digits [of n] ds by simp
  then have "c \<noteq> CHR ''-''" and "c \<noteq> CHR ''+''" using is_digit_not_sign by blast+
  moreover have "digits_value 0 (c # cs) = n" using digits_value_dec_nat [of n] ds by simp
  moreover have "list_all is_digit (c # cs)" using dec_nat_digits [of n] ds by simp
  ultimately show ?thesis
    using small by (simp add: ParseInt_def ds int64_def del: digits_value.simps)
qed

lemma ParseInt_Itoa [codec_simps]: "int64 i \<Longrightarrow> ParseInt (Itoa i) = Some i"
proof (cases "i < 0")
  case False
  moreover assume "int64 i"
  ultimately show ?thesis using ParseInt_dec_nat [of "nat i"] by (simp add: Itoa_def int64_def)
next
  case True
  assume "int64 i"
  with True show ?thesis
    using dec_nat_digits [of "nat (- i)"] digits_value_dec_nat [of "nat (- i)"]
    by (auto simp: Itoa_def ParseInt_def)
qed

section \<open>Byte order\<close>

text \<open>\<open>binary.BigEndian\<close>: \<open>PutUint16\<close>, \<open>Uint16\<close>, \<open>PutUint32\<close>, \<open>Uint32\<close>.\<close>

definition PutUint16 :: "u16 \<Rightarrow> bytes" where
  "PutUint16 v = [ucast (drop_bit 8 v), ucast v]"

definition Uint16 :: "byte \<Rightarrow> byte \<Rightarrow> u16" where
  "Uint16 b0 b1 = ucast b1 OR push_bit 8 (ucast b0)"

definition PutUint32 :: "u32 \<Rightarrow> bytes" where
  "PutUint32 v = [ucast (drop_bit 24 v), ucast (drop_bit 16 v), ucast (drop_bit 8 v), ucast v]"

definition Uint32 :: "byte \<Rightarrow> byte \<Rightarrow> byte \<Rightarrow> byte \<Rightarrow> u32" where
  "Uint32 b0 b1 b2 b3 =
     ucast b3 OR push_bit 8 (ucast b2) OR push_bit 16 (ucast b1) OR push_bit 24 (ucast b0)"

lemma Uint16_PutUint16 [codec_simps]: "Uint16 (ucast (drop_bit 8 v)) (ucast v) = v"
  unfolding Uint16_def
  by (rule bit_word_eqI) (auto simp: bit_simps)

lemma Uint32_PutUint32 [codec_simps]:
  "Uint32 (ucast (drop_bit 24 v)) (ucast (drop_bit 16 v)) (ucast (drop_bit 8 v)) (ucast v) = v"
proof (rule bit_word_eqI)
  fix n
  assume "n < LENGTH(32)"
  then consider "n < 8" | "8 \<le> n" "n < 16" | "16 \<le> n" "n < 24" | "24 \<le> n" "n < 32"
    by force
  then show "bit (Uint32 (ucast (drop_bit 24 v)) (ucast (drop_bit 16 v)) (ucast (drop_bit 8 v)) (ucast v)) n
      = bit v n"
    by cases (auto simp: Uint32_def bit_simps)
qed

section \<open>Readers and writers\<close>

text \<open>
  The errors of \<open>io\<close> and of the network that the source tells apart: \<open>io.EOF\<close>,
  \<open>io.ErrUnexpectedEOF\<close>, \<open>net.ErrClosed\<close>, a system call error with its \<open>errno\<close>, and any
  other error.
\<close>

datatype errno = ECONNRESET | EPIPE | OtherErrno nat

datatype io_error = EOF | ErrUnexpectedEOF | ErrClosed | SyscallError errno | OtherIOError string

text \<open>
  A reader is the data it still delivers and the error its \<open>Read\<close> returns afterwards.
  \<open>ReadFull\<close> is \<open>io.ReadFull\<close>.
\<close>

record reader =
  rdata :: bytes
  rerr :: io_error

definition ReadFull :: "nat \<Rightarrow> reader \<Rightarrow> io_error + (bytes \<times> reader)" where
  "ReadFull n r =
     (if n \<le> length (rdata r) then Inr (take n (rdata r), r\<lparr>rdata := drop n (rdata r)\<rparr>)
      else if rdata r \<noteq> [] \<and> rerr r = EOF then Inl ErrUnexpectedEOF
      else Inl (rerr r))"

lemma ReadFull_append [simp]:
  "length xs = n \<Longrightarrow> ReadFull n \<lparr>rdata = xs @ ys, rerr = e\<rparr> = Inr (xs, \<lparr>rdata = ys, rerr = e\<rparr>)"
  by (simp add: ReadFull_def)

lemma ReadFull_InrD:
  "ReadFull n r = Inr (xs, r') \<Longrightarrow>
     length xs = n \<and> rdata r = xs @ rdata r' \<and> rerr r' = rerr r"
  by (auto simp: ReadFull_def split: if_splits)

text \<open>
  A connection to write to: the bytes the peer has taken, how many more it takes before a
  write fails (\<open>None\<close>: all), and the error of that write. A failing write may be partial.
\<close>

record writer =
  sent :: bytes
  room :: "nat option"
  werr :: io_error

definition Write_conn :: "writer \<Rightarrow> bytes \<Rightarrow> io_error option \<times> writer" where
  "Write_conn w data = (case room w of
     None \<Rightarrow> (None, w\<lparr>sent := sent w @ data\<rparr>)
   | Some n \<Rightarrow>
       if length data \<le> n then (None, w\<lparr>sent := sent w @ data, room := Some (n - length data)\<rparr>)
       else (Some (werr w), w\<lparr>sent := sent w @ take n data, room := Some 0\<rparr>))"

lemma Write_conn_ok:
  "Write_conn w data = (None, w') \<Longrightarrow> sent w' = sent w @ data \<and> werr w' = werr w"
  by (auto simp: Write_conn_def split: option.splits if_splits)

lemma Write_conn_unlimited [simp]:
  "room w = None \<Longrightarrow> Write_conn w data = (None, w\<lparr>sent := sent w @ data\<rparr>)"
  by (simp add: Write_conn_def)

end
