(* ===== verification/Http_Header.thy ===== *)
theory Http_Header
  imports Prelude
begin

text \<open>
  The header type of Go's package \<open>net/http\<close>: a map from canonical field names to lists of
  values, kept as an association list with distinct keys so that a loop over the map has
  an order (any order the list may have). Field names are made canonical on every access,
  as \<open>textproto.CanonicalMIMEHeaderKey\<close> does.
\<close>

section \<open>Canonical names\<close>

definition is_letter :: "char \<Rightarrow> bool" where
  "is_letter c \<longleftrightarrow> (let n = (of_char c :: nat) in (65 \<le> n \<and> n \<le> 90) \<or> (97 \<le> n \<and> n \<le> 122))"

definition valid_field_char :: "char \<Rightarrow> bool" where
  "valid_field_char c \<longleftrightarrow> is_letter c \<or> is_digit c \<or> c \<in> set ''!#$%&*+-.^_`|~'' \<or> c = CHR 0x27"

fun canonical_chars :: "bool \<Rightarrow> string \<Rightarrow> string" where
  "canonical_chars upper [] = []"
| "canonical_chars upper (c # cs) =
     (if upper then upper_char c else lower_char c) # canonical_chars (c = CHR ''-'') cs"

definition CanonicalKey :: "string \<Rightarrow> string" where
  "CanonicalKey s = (if list_all valid_field_char s then canonical_chars True s else s)"

section \<open>Headers\<close>

type_synonym http_header = "(string \<times> string list) list"

definition header_ok :: "http_header \<Rightarrow> bool" where
  "header_ok h \<longleftrightarrow> distinct (map fst h)"

definition Values :: "http_header \<Rightarrow> string \<Rightarrow> string list" where
  "Values h name = (case map_of h (CanonicalKey name) of None \<Rightarrow> [] | Some vs \<Rightarrow> vs)"

definition Get :: "http_header \<Rightarrow> string \<Rightarrow> string" where
  "Get h name = (case Values h name of [] \<Rightarrow> '''' | v # _ \<Rightarrow> v)"

fun put_key :: "string \<Rightarrow> string list \<Rightarrow> http_header \<Rightarrow> http_header" where
  "put_key k vs [] = [(k, vs)]"
| "put_key k vs ((k', vs') # h) = (if k' = k then (k, vs) # h else (k', vs') # put_key k vs h)"

definition SetField :: "http_header \<Rightarrow> string \<Rightarrow> string \<Rightarrow> http_header" where
  "SetField h name v = put_key (CanonicalKey name) [v] h"

definition AddField :: "http_header \<Rightarrow> string \<Rightarrow> string \<Rightarrow> http_header" where
  "AddField h name v = put_key (CanonicalKey name) (Values h name @ [v]) h"

definition DelField :: "http_header \<Rightarrow> string \<Rightarrow> http_header" where
  "DelField h name = filter (\<lambda>(k, vs). k \<noteq> CanonicalKey name) h"

section \<open>Lemmas\<close>

lemma map_of_put_key [simp]: "map_of (put_key k vs h) = (map_of h)(k \<mapsto> vs)"
  by (induction k vs h rule: put_key.induct) (auto simp: fun_eq_iff)

lemma set_keys_put_key [simp]: "fst ` set (put_key k vs h) = insert k (fst ` set h)"
  by (induction k vs h rule: put_key.induct) auto

lemma distinct_put_key: "distinct (map fst h) \<Longrightarrow> distinct (map fst (put_key k vs h))"
proof (induction k vs h rule: put_key.induct)
  case (2 k vs k' vs' h)
  then show ?case using set_keys_put_key [of k vs h] by auto
qed simp

lemma header_ok_ops [inv_intros]:
  "header_ok h \<Longrightarrow> header_ok (SetField h name v)"
  "header_ok h \<Longrightarrow> header_ok (AddField h name v)"
  "header_ok h \<Longrightarrow> header_ok (DelField h name)"
  by (auto simp: header_ok_def SetField_def AddField_def DelField_def distinct_put_key
      distinct_map_filter)

end
