(* ===== verification/Go_Net.thy ===== *)
theory Go_Net
  imports Prelude
begin

unbundle bit_operations_syntax

text \<open>
  The part of Go's package \<open>net\<close> that the source uses: IP addresses and networks, their
  text forms, and the \<open>host:port\<close> notation. An address is a slice of bytes, 4 or 16 of them
  when it is valid; a nil slice is the empty list.
\<close>

section \<open>Addresses\<close>

type_synonym IP = bytes
type_synonym IPMask = bytes

record IPNet =
  NetIP :: IP
  NetMask :: IPMask

definition v4InV6Prefix :: bytes where
  "v4InV6Prefix = [0, 0, 0, 0, 0, 0, 0, 0, 0, 0, 255, 255]"

text \<open>\<open>IP.To4\<close>; a nil result is \<open>None\<close>.\<close>

definition To4 :: "IP \<Rightarrow> IP option" where
  "To4 ip =
     (if length ip = 4 then Some ip
      else if length ip = 16 \<and> take 12 ip = v4InV6Prefix then Some (drop 12 ip)
      else None)"

text \<open>The loop of \<open>net.CIDRMask\<close>, over the bytes of the mask.\<close>

fun mask_bytes :: "nat \<Rightarrow> nat \<Rightarrow> IPMask" where
  "mask_bytes 0 n = []"
| "mask_bytes (Suc l) n =
     (if n \<ge> 8 then 255 # mask_bytes l (n - 8)
      else NOT (drop_bit n 255) # mask_bytes l 0)"

definition CIDRMask :: "int \<Rightarrow> int \<Rightarrow> IPMask" where
  "CIDRMask ones bits =
     (if bits \<noteq> 32 \<and> bits \<noteq> 128 then []
      else if ones < 0 \<or> ones > bits then []
      else mask_bytes (nat bits div 8) (nat ones))"

definition IP_Mask :: "IP \<Rightarrow> IPMask \<Rightarrow> IP" where
  "IP_Mask ip msk =
     (let msk = (if length msk = 16 \<and> length ip = 4 \<and> list_all (\<lambda>b. b = 255) (take 12 msk)
                  then drop 12 msk else msk);
          ip = (if length msk = 4 \<and> length ip = 16 \<and> take 12 ip = v4InV6Prefix
                then drop 12 ip else ip)
      in if length ip \<noteq> length msk then [] else map2 (AND) ip msk)"

definition networkNumberAndMask :: "IPNet \<Rightarrow> (IP \<times> IPMask) option" where
  "networkNumberAndMask n =
     (case (case To4 (NetIP n) of
              Some ip \<Rightarrow> Some ip
            | None \<Rightarrow> if length (NetIP n) = 16 then Some (NetIP n) else None) of
        None \<Rightarrow> None
      | Some ip \<Rightarrow>
          if length (NetMask n) = 4 then if length ip = 4 then Some (ip, NetMask n) else None
          else if length (NetMask n) = 16 then
            Some (ip, if length ip = 4 then drop 12 (NetMask n) else NetMask n)
          else None)"

definition Contains :: "IPNet \<Rightarrow> IP \<Rightarrow> bool" where
  "Contains n ip =
     (let (nn, m) = (case networkNumberAndMask n of Some p \<Rightarrow> p | None \<Rightarrow> ([], []));
          ip = (case To4 ip of Some x \<Rightarrow> x | None \<Rightarrow> ip)
      in length ip = length nn \<and> list_all (\<lambda>((a, b), k). a AND k = b AND k) (zip (zip nn ip) m))"

section \<open>Text form of addresses\<close>

definition dotted :: "bytes \<Rightarrow> string" where
  "dotted ip = Join (map (\<lambda>b. dec_nat (unat b)) ip) ''.''"

definition hex_digit :: "nat \<Rightarrow> char" where
  "hex_digit d = (if d < 10 then char_of (48 + d) else char_of (87 + d))"

fun hex_nat :: "nat \<Rightarrow> string" where
  "hex_nat n = (if n < 16 then [hex_digit n] else hex_nat (n div 16) @ [hex_digit (n mod 16)])"

declare hex_nat.simps [simp del]

fun groups :: "bytes \<Rightarrow> nat list" where
  "groups (a # b # bs) = (256 * unat a + unat b) # groups bs"
| "groups _ = []"

definition zero_run :: "nat list \<Rightarrow> nat \<Rightarrow> nat" where
  "zero_run gs i = length (takeWhile (\<lambda>g. g = 0) (drop i gs))"

text \<open>The longest run of at least two zero groups, the first one of several.\<close>

definition longest_zeros :: "nat list \<Rightarrow> (nat \<times> nat) option" where
  "longest_zeros gs = foldl (\<lambda>best i.
     let l = zero_run gs i in
     if l \<ge> 2 \<and> (case best of None \<Rightarrow> True | Some (a, b) \<Rightarrow> l > b - a) then Some (i, i + l) else best)
     None [0..<length gs]"

definition join_groups :: "nat list \<Rightarrow> string" where
  "join_groups gs = Join (map hex_nat gs) '':''"

definition v6_string :: "IP \<Rightarrow> string" where
  "v6_string ip = (let gs = groups ip in case longest_zeros gs of
     None \<Rightarrow> join_groups gs
   | Some (a, b) \<Rightarrow> join_groups (take a gs) @ ''::'' @ join_groups (drop b gs))"

definition hex_byte :: "byte \<Rightarrow> string" where
  "hex_byte b = [hex_digit (unat b div 16), hex_digit (unat b mod 16)]"

definition IP_String :: "IP \<Rightarrow> string" where
  "IP_String ip =
     (if ip = [] then ''<nil>''
      else case To4 ip of
             Some p4 \<Rightarrow> dotted p4
           | None \<Rightarrow> if length ip = 16 then v6_string ip else ''?'' @ concat (map hex_byte ip))"

text \<open>The length of a mask that is a run of ones followed by zeros.\<close>

definition byte_ones :: "byte \<Rightarrow> nat option" where
  "byte_ones b = (case filter (\<lambda>k. b = NOT (drop_bit k 255)) [0..<9] of
     [] \<Rightarrow> None
   | k # _ \<Rightarrow> Some k)"

fun simpleMaskLength :: "IPMask \<Rightarrow> nat option" where
  "simpleMaskLength [] = Some 0"
| "simpleMaskLength (b # bs) =
     (if b = 255 then map_option ((+) 8) (simpleMaskLength bs)
      else case byte_ones b of
             None \<Rightarrow> None
           | Some k \<Rightarrow> if list_all (\<lambda>x. x = 0) bs then Some k else None)"

definition IPNet_String :: "IPNet \<Rightarrow> string" where
  "IPNet_String n = (case networkNumberAndMask n of
     None \<Rightarrow> ''<nil>''
   | Some (nn, m) \<Rightarrow> (case simpleMaskLength m of
       None \<Rightarrow> IP_String nn @ ''/'' @ concat (map hex_byte m)
     | Some l \<Rightarrow> IP_String nn @ ''/'' @ dec_nat l))"

section \<open>Parsing addresses\<close>

text \<open>A field of a dotted address: digits, no leading zero, at most 255.\<close>

definition parse_octet :: "string \<Rightarrow> byte option" where
  "parse_octet s =
     (if s = [] \<or> \<not> list_all is_digit s \<or> (length s > 1 \<and> hd s = CHR ''0'') \<or> digits_value 0 s > 255
      then None else Some (word_of_nat (digits_value 0 s)))"

definition parseIPv4 :: "string \<Rightarrow> bytes option" where
  "parseIPv4 s = (case map parse_octet (Split s CHR ''.'') of
     [Some a, Some b, Some c, Some d] \<Rightarrow> Some [a, b, c, d]
   | _ \<Rightarrow> None)"

definition hex_value :: "char \<Rightarrow> nat option" where
  "hex_value c = (let n = of_char c :: nat in
     if 48 \<le> n \<and> n \<le> 57 then Some (n - 48)
     else if 97 \<le> n \<and> n \<le> 102 then Some (n - 87)
     else if 65 \<le> n \<and> n \<le> 70 then Some (n - 55)
     else None)"

definition is_hex :: "char \<Rightarrow> bool" where
  "is_hex c \<longleftrightarrow> hex_value c \<noteq> None"

definition hex_group :: "string \<Rightarrow> nat" where
  "hex_group ds = foldl (\<lambda>acc c. 16 * acc + (case hex_value c of Some v \<Rightarrow> v | None \<Rightarrow> 0)) 0 ds"

text \<open>
  The loop of the IPv6 parser: the bytes parsed so far, the position of the ellipsis and
  the text that is left. Its result has the bytes and the ellipsis.
\<close>

function v6_loop :: "bytes \<Rightarrow> nat option \<Rightarrow> string \<Rightarrow> (bytes \<times> nat option) option" where
  "v6_loop ip ell s =
     (if length ip \<ge> 16 then (if s = [] then Some (ip, ell) else None)
      else let ds = takeWhile is_hex s; rest = dropWhile is_hex s in
        if length ds > 4 \<or> ds = [] then None
        else if rest \<noteq> [] \<and> hd rest = CHR ''.'' then
          (if (ell = None \<and> length ip \<noteq> 12) \<or> length ip + 4 > 16 then None
           else map_option (\<lambda>v4. (ip @ v4, ell)) (parseIPv4 s))
        else let ip = ip @ [word_of_nat (hex_group ds div 256), word_of_nat (hex_group ds)] in
          case rest of
            [] \<Rightarrow> Some (ip, ell)
          | c # cs \<Rightarrow>
              if c \<noteq> CHR '':'' \<or> cs = [] then None
              else if hd cs = CHR '':'' then
                (if ell \<noteq> None then None
                 else if tl cs = [] then Some (ip, Some (length ip))
                 else v6_loop ip (Some (length ip)) (tl cs))
              else v6_loop ip ell cs)"
  by pat_completeness auto
termination
  by (relation "measure (\<lambda>(ip, ell, s). 16 - length ip)") auto

declare v6_loop.simps [simp del]

definition v6_expand :: "bytes \<times> nat option \<Rightarrow> IP option" where
  "v6_expand p = (case p of (ip, ell) \<Rightarrow>
     if length ip < 16 then
       (case ell of
          None \<Rightarrow> None
        | Some k \<Rightarrow> Some (take k ip @ replicate (16 - length ip) 0 @ drop k ip))
     else if ell \<noteq> None then None
     else Some ip)"

definition parseIPv6 :: "string \<Rightarrow> IP option" where
  "parseIPv6 s =
     (if s = ''::'' then Some (replicate 16 0)
      else if HasPrefix s ''::'' then Option.bind (v6_loop [] (Some 0) (drop 2 s)) v6_expand
      else Option.bind (v6_loop [] None s) v6_expand)"

text \<open>
  \<open>net.ParseIP\<close>: the first of the characters \<open>.\<close>, \<open>:\<close> and \<open>%\<close> tells the family. An address
  with a zone is refused. The result has 16 bytes in both families.
\<close>

definition ParseIP :: "string \<Rightarrow> IP option" where
  "ParseIP s = (case filter (\<lambda>c. c \<in> {CHR ''.'', CHR '':'', CHR ''%''}) s of
     [] \<Rightarrow> None
   | c # _ \<Rightarrow>
       if c = CHR ''.'' then map_option ((@) v4InV6Prefix) (parseIPv4 s)
       else if c = CHR '':'' then (if CHR ''%'' \<in> set s then None else parseIPv6 s)
       else None)"

section \<open>Host and port\<close>

datatype addr_error = MissingPort | TooManyColons | MissingBracket | UnexpectedOpen | UnexpectedClose

definition LastIndexByte :: "'a list \<Rightarrow> 'a \<Rightarrow> nat option" where
  "LastIndexByte s c = map_option (\<lambda>i. length s - 1 - i) (IndexByte (rev s) c)"

definition SplitHostPort :: "string \<Rightarrow> addr_error + (string \<times> string)" where
  "SplitHostPort s = (case LastIndexByte s CHR '':'' of
     None \<Rightarrow> Inl MissingPort
   | Some i \<Rightarrow>
       (case (if hd s = CHR ''['' then
                (case IndexByte s CHR '']'' of
                   None \<Rightarrow> Inl MissingBracket
                 | Some e \<Rightarrow>
                     if e + 1 = length s then Inl MissingPort
                     else if e + 1 = i then Inr (take (e - 1) (drop 1 s), 1, e + 1)
                     else if s ! (e + 1) = CHR '':'' then Inl TooManyColons
                     else Inl MissingPort)
              else if CHR '':'' \<in> set (take i s) then Inl TooManyColons
              else Inr (take i s, 0, 0)) of
          Inl e \<Rightarrow> Inl e
        | Inr (host, j, k) \<Rightarrow>
            if CHR ''['' \<in> set (drop j s) then Inl UnexpectedOpen
            else if CHR '']'' \<in> set (drop k s) then Inl UnexpectedClose
            else Inr (host, drop (i + 1) s)))"

definition JoinHostPort :: "string \<Rightarrow> string \<Rightarrow> string" where
  "JoinHostPort host port =
     (if CHR '':'' \<in> set host then ''['' @ host @ '']:'' @ port else host @ '':'' @ port)"

section \<open>Lemmas\<close>

lemma length_v4InV6Prefix [simp]: "length v4InV6Prefix = 12"
  by (simp add: v4InV6Prefix_def)

lemma parseIPv4_length: "parseIPv4 s = Some ip \<Longrightarrow> length ip = 4"
  by (auto simp: parseIPv4_def split: list.splits option.splits)

lemma v6_expand_length: "v6_expand (ip, ell) = Some a \<Longrightarrow> length ip \<le> 16 \<Longrightarrow> length a = 16"
  by (auto simp: v6_expand_def split: if_splits option.splits)

lemma v6_loop_length: "v6_loop ip ell s = Some (ip', ell') \<Longrightarrow> even (length ip) \<Longrightarrow> length ip \<le> 16 \<Longrightarrow> length ip' \<le> 16"
proof (induction ip ell s rule: v6_loop.induct)
  case (1 ip ell s)
  have "length ip < 16 \<Longrightarrow> length ip \<le> 14" using 1(4) by presburger
  then show ?case using 1 
    by (subst (asm) (3) v6_loop.simps)
      (auto simp: Let_def split: if_splits list.splits dest: parseIPv4_length)
qed

lemma ParseIP_length: "ParseIP s = Some ip \<Longrightarrow> length ip = 16"
proof -
  have "v6_loop [] ell t = Some (ip', ell') \<Longrightarrow> length ip' \<le> 16" for ell t ip' ell'
    by (rule v6_loop_length) auto
  then show "ParseIP s = Some ip \<Longrightarrow> length ip = 16"
    by (auto simp: ParseIP_def parseIPv6_def split: list.splits if_splits bind_splits
        dest!: parseIPv4_length v6_expand_length)
qed

lemma LastIndexByte_append:
  "c \<notin> set ys \<Longrightarrow> LastIndexByte (xs @ c # ys) c = Some (length xs)"
proof -
  assume "c \<notin> set ys"
  then have "IndexByte (rev ys @ c # rev xs) c = Some (length ys)"
    by (induction ys rule: rev_induct) auto
  then show ?thesis by (simp add: LastIndexByte_def)
qed

lemma length_mask_bytes [simp]: "length (mask_bytes l n) = l"
  by (induction l n rule: mask_bytes.induct) auto

end
