(* ===== verification/Addresses.thy ===== *)
theory Addresses
  imports Go_Net
begin

text \<open>
  Addresses in the configuration and on connections: \<open>src/pkg/netutils/addresses.go\<close>,
  \<open>host_address.go\<close> and \<open>ip_addresses.go\<close>. A BCL value is its content when it is a string
  and \<open>None\<close> otherwise, the only distinction the readers make. A Go panic (an index out of
  range) is the result \<open>None\<close> of an operation that can panic.
\<close>

datatype address_error =
    MissingRemoteAddress
  | InvalidRemoteAddress address_error
  | InvalidAddressFormat
  | InvalidIPAddress string
  | InvalidPortNumber string
  | EmptyPortNumber
  | InvalidAddress addr_error
  | ValueTypeError

section \<open>Numeric addresses\<close>

definition ParseNumericAddress :: "string \<Rightarrow> address_error + (IP \<times> int)" where
  "ParseNumericAddress s = (case SplitHostPort s of
     Inl _ \<Rightarrow> Inl InvalidAddressFormat
   | Inr (host, port) \<Rightarrow> (case ParseIP host of
       None \<Rightarrow> Inl (InvalidIPAddress host)
     | Some ipAddress \<Rightarrow> (case ParseInt port of
         None \<Rightarrow> Inl (InvalidPortNumber port)
       | Some portNumber \<Rightarrow>
           if portNumber < 1 \<or> portNumber > 65535 then Inl (InvalidPortNumber port)
           else Inr (ipAddress, portNumber))))"

definition FormatNumericAddress :: "IP \<Rightarrow> int \<Rightarrow> string" where
  "FormatNumericAddress addr portNumber =
     (if length addr = 16 then ''['' @ IP_String addr @ '']:'' @ Itoa portNumber
      else IP_String addr @ '':'' @ Itoa portNumber)"

text \<open>The remote address of a connection, \<open>None\<close> when \<open>RemoteAddr\<close> returns nil.\<close>

definition ConnectionRemoteAddress :: "string option \<Rightarrow> address_error + (IP \<times> int)" where
  "ConnectionRemoteAddress remoteAddr = (case remoteAddr of
     None \<Rightarrow> Inl MissingRemoteAddress
   | Some s \<Rightarrow> (case ParseNumericAddress s of
       Inl e \<Rightarrow> Inl (InvalidRemoteAddress e)
     | Inr p \<Rightarrow> Inr p))"

definition ValidateBCLAddress :: "string \<Rightarrow> address_error option" where
  "ValidateBCLAddress s = (case SplitHostPort s of
     Inl e \<Rightarrow> Some (InvalidAddress e)
   | Inr (_, portString) \<Rightarrow>
       if portString = [] then Some EmptyPortNumber
       else (case ParseInt portString of
         None \<Rightarrow> Some (InvalidPortNumber portString)
       | Some port \<Rightarrow>
           if port < 1 \<or> port \<ge> 65535 then Some (InvalidPortNumber portString) else None))"

section \<open>Host addresses\<close>

record HostAddress =
  Hostname :: string
  HostIP :: IP
  HostPort :: int

definition HostAddress_String :: "HostAddress \<Rightarrow> string" where
  "HostAddress_String ha =
     JoinHostPort (if Hostname ha = [] then IP_String (HostIP ha) else Hostname ha) (Itoa (HostPort ha))"

text \<open>\<open>HostAddress.ReadBCLValue\<close>: \<open>host[0]\<close> panics when the host is empty.\<close>

definition HostAddress_ReadBCLValue :: "string option \<Rightarrow> (address_error + HostAddress) option" where
  "HostAddress_ReadBCLValue v = (case v of
     None \<Rightarrow> Some (Inl ValueTypeError)
   | Some s \<Rightarrow> (case SplitHostPort s of
       Inl e \<Rightarrow> Some (Inl (InvalidAddress e))
     | Inr (host, port) \<Rightarrow>
         if host = [] then None
         else Some (case (if is_digit (hd host) \<or> hd host = CHR '':''
                          then (case ParseIP host of
                                  None \<Rightarrow> Inl (InvalidIPAddress host)
                                | Some addr \<Rightarrow> Inr ([], addr))
                          else Inr (host, [])) of
             Inl e \<Rightarrow> Inl e
           | Inr (name, addr) \<Rightarrow> (case ParseInt port of
               None \<Rightarrow> Inl (InvalidPortNumber port)
             | Some port64 \<Rightarrow>
                 if port64 < 1 \<or> port64 > 65535 then Inl (InvalidPortNumber port)
                 else Inr \<lparr>Hostname = name, HostIP = addr, HostPort = port64\<rparr>))))"

section \<open>IP addresses and networks\<close>

definition v4_text :: "string \<Rightarrow> bool" where
  "v4_text s \<longleftrightarrow> (case filter (\<lambda>c. c \<in> {CHR ''.'', CHR '':'', CHR ''%''}) s of
     [] \<Rightarrow> False | c # _ \<Rightarrow> c = CHR ''.'')"

text \<open>\<open>net.ParseCIDR\<close>, its second result.\<close>

definition ParseCIDR :: "string \<Rightarrow> IPNet option" where
  "ParseCIDR s = (case Cut s CHR ''/'' of (addr, len, found) \<Rightarrow>
     if \<not> found then None
     else case ParseIP addr of
            None \<Rightarrow> None
          | Some ip \<Rightarrow>
              let bits = (if v4_text addr then 32 else 128) in
              if len = [] \<or> \<not> list_all is_digit len \<or> digits_value 0 len > nat bits then None
              else let m = CIDRMask (int (digits_value 0 len)) bits
                   in Some \<lparr>NetIP = IP_Mask ip m, NetMask = m\<rparr>)"

definition IPNetAddr_Parse :: "string \<Rightarrow> address_error + IPNet" where
  "IPNetAddr_Parse s = (case ParseCIDR s of None \<Rightarrow> Inl InvalidAddressFormat | Some n \<Rightarrow> Inr n)"

definition IPNetAddr_ReadBCLValue :: "string option \<Rightarrow> address_error + IPNet" where
  "IPNetAddr_ReadBCLValue v = (case v of None \<Rightarrow> Inl ValueTypeError | Some s \<Rightarrow> IPNetAddr_Parse s)"

definition IPAddr_Parse :: "string \<Rightarrow> address_error + IPNet" where
  "IPAddr_Parse s = (case ParseIP s of
     None \<Rightarrow> Inl InvalidAddressFormat
   | Some ipAddr \<Rightarrow>
       let bitLen = int (length ipAddr) * 8
       in Inr \<lparr>NetIP = ipAddr, NetMask = CIDRMask bitLen bitLen\<rparr>)"

definition IPAddr_ReadBCLValue :: "string option \<Rightarrow> address_error + IPNet" where
  "IPAddr_ReadBCLValue v = (case v of None \<Rightarrow> Inl ValueTypeError | Some s \<Rightarrow> IPAddr_Parse s)"

section \<open>Host and port notation\<close>

lemma SplitHostPort_plain:
  assumes "set host \<inter> {CHR '':'', CHR ''['', CHR '']''} = {}" "set port \<inter> {CHR '':'', CHR ''['', CHR '']''} = {}"
  shows "SplitHostPort (host @ CHR '':'' # port) = Inr (host, port)"
proof -
  have "hd (host @ CHR '':'' # port) \<noteq> CHR ''[''" using assms(1) by (cases host) auto
  then show ?thesis using assms by (simp add: SplitHostPort_def LastIndexByte_append)
qed

lemma SplitHostPort_bracket:
  assumes "set host \<inter> {CHR ''['', CHR '']''} = {}" "set port \<inter> {CHR '':'', CHR ''['', CHR '']''} = {}"
  shows "SplitHostPort (CHR ''['' # host @ CHR '']'' # CHR '':'' # port) = Inr (host, port)"
proof -
  let ?s = "CHR ''['' # host @ CHR '']'' # CHR '':'' # port"
  have "LastIndexByte ?s CHR '':'' = Some (length host + 2)"
    using LastIndexByte_append [of "CHR '':''" port "CHR ''['' # host @ [CHR '']'']"] assms(2) by simp
  moreover have "IndexByte ?s CHR '']'' = Some (length host + 1)"
    using IndexByte_append [of "CHR '']''" "CHR ''['' # host" "CHR '':'' # port"] assms(1) by simp
  ultimately show ?thesis using assms by (simp add: SplitHostPort_def)
qed

lemma digits_no_syntax:
  assumes "list_all is_digit s"
  shows "set s \<inter> {CHR '':'', CHR ''['', CHR '']'', CHR ''.'', CHR ''%''} = {}"
  using assms by (auto simp: list_all_iff is_digit_def)

lemma Itoa_no_syntax: "0 \<le> n \<Longrightarrow> set (Itoa n) \<inter> {CHR '':'', CHR ''['', CHR '']''} = {}"
  using digits_no_syntax [of "Itoa n"] dec_nat_digits [of "nat n"] by (auto simp: Itoa_def)

section \<open>Dotted addresses\<close>

lemma dec_nat_hd: "0 < n \<Longrightarrow> hd (dec_nat n) \<noteq> CHR ''0''"
proof (induction n rule: dec_nat.induct)
  case (1 n)
  show ?case
  proof (cases "n < 10")
    case True
    have "of_char (digit_char n) \<noteq> (of_char CHR ''0'' :: nat)"
      using True 1(2) by (simp add: digit_char_value)
    then show ?thesis using True by (auto simp: dec_nat.simps [of n])
  next
    case False
    then show ?thesis using 1 dec_nat_digits [of "n div 10"] by (simp add: dec_nat.simps [of n])
  qed
qed

lemma parse_octet_dec: "parse_octet (dec_nat (unat b)) = Some b"
proof -
  have "unat b < 256" using unsigned_less [of b] by simp
  moreover have "length (dec_nat (unat b)) > 1 \<Longrightarrow> 0 < unat b"
    by (rule ccontr) (simp add: dec_nat.simps)
  ultimately show ?thesis
    using dec_nat_digits [of "unat b"] dec_nat_hd [of "unat b"]
    by (auto simp: parse_octet_def digits_value_dec_nat)
qed

lemma dotted_parts: "\<forall>p \<in> set (map (\<lambda>b. dec_nat (unat b)) ip). CHR ''.'' \<notin> set p"
  using digits_no_syntax dec_nat_digits by fastforce

lemma parseIPv4_dotted: "length ip = 4 \<Longrightarrow> parseIPv4 (dotted ip) = Some ip"
proof -
  assume "length ip = 4"
  then obtain a b c d where ip: "ip = [a, b, c, d]"
    by (auto simp: numeral_eq_Suc length_Suc_conv)
  then show ?thesis
    using Split_Join [of "map (\<lambda>b. dec_nat (unat b)) ip" "CHR ''.''"] dotted_parts [of ip]
    by (simp add: parseIPv4_def dotted_def parse_octet_dec)
qed

lemma set_Join: "set (Join ps sep) \<subseteq> (\<Union>p \<in> set ps. set p) \<union> set sep"
  by (induction ps sep rule: Join.induct) auto

lemma dotted_no_syntax: "set (dotted ip) \<inter> {CHR '':'', CHR ''['', CHR '']'', CHR ''%''} = {}"
proof -
  have "set (dec_nat n) \<inter> {CHR '':'', CHR ''['', CHR '']'', CHR ''%''} = {}" for n
    using digits_no_syntax [of "dec_nat n"] dec_nat_digits by blast
  then show ?thesis
    using set_Join [of "map (\<lambda>b. dec_nat (unat b)) ip" "''.''"] unfolding dotted_def by fastforce
qed

lemma filter_dotted:
  assumes "length ip = 4"
  shows "\<exists>rest. filter (\<lambda>c. c \<in> {CHR ''.'', CHR '':'', CHR ''%''}) (dotted ip) = CHR ''.'' # rest"
proof -
  obtain a b c d where "ip = [a, b, c, d]"
    using assms by (auto simp: numeral_eq_Suc length_Suc_conv)
  then have "dotted ip = dec_nat (unat a) @ CHR ''.'' # Join (map (\<lambda>b. dec_nat (unat b)) [b, c, d]) ''.''"
    by (simp add: dotted_def)
  moreover have "filter (\<lambda>c. c \<in> {CHR ''.'', CHR '':'', CHR ''%''}) (dec_nat (unat a)) = []"
    using digits_no_syntax [of "dec_nat (unat a)"] dec_nat_digits [of "unat a"] by (auto simp: filter_empty_conv)
  ultimately show ?thesis by simp
qed

lemma ParseIP_dotted: "length ip = 4 \<Longrightarrow> ParseIP (dotted ip) = Some (v4InV6Prefix @ ip)"
  using filter_dotted [of ip] parseIPv4_dotted [of ip] by (auto simp: ParseIP_def)

lemma To4_Some:
  "To4 addr = Some ip \<Longrightarrow> length ip = 4 \<and> IP_String addr = dotted ip"
  by (auto simp: To4_def IP_String_def split: if_splits)

section \<open>Properties\<close>

text \<open>Printing an IPv4 address and a port and parsing the text gives the address and the port
  back, for both representations of an IPv4 address; the parsed address is always in its
  16-byte representation.\<close>

theorem numeric_address_roundtrip:
  assumes "To4 addr = Some ip" "1 \<le> port" "port \<le> 65535"
  shows "ParseNumericAddress (FormatNumericAddress addr port) = Inr (v4InV6Prefix @ ip, port)"
proof -
  have "SplitHostPort (FormatNumericAddress addr port) = Inr (dotted ip, Itoa port)"
    using SplitHostPort_plain [of "dotted ip" "Itoa port"] SplitHostPort_bracket [of "dotted ip" "Itoa port"]
      dotted_no_syntax [of ip] Itoa_no_syntax [of port] To4_Some [OF assms(1)] assms(2)
    by (auto simp: FormatNumericAddress_def)
  then show ?thesis
    using ParseIP_dotted [of ip] To4_Some [OF assms(1)] ParseInt_Itoa [of port] assms
    by (simp add: ParseNumericAddress_def int64_def)
qed

theorem numeric_address_roundtrip_witness:
  "ParseNumericAddress (FormatNumericAddress [192, 0, 2, 1] 8080) =
     Inr ([0, 0, 0, 0, 0, 0, 0, 0, 0, 0, 255, 255, 192, 0, 2, 1], 8080)"
  using numeric_address_roundtrip [of "[192, 0, 2, 1]" "[192, 0, 2, 1]" 8080]
  by (simp add: To4_def v4InV6Prefix_def)

end
