(* ===== verification/Http_Syntax.thy ===== *)
theory Http_Syntax
  imports Addresses
begin

text \<open>
  Small pieces of HTTP syntax: token lists (\<open>src/pkg/httputils/syntax.go\<close>), the \<open>Host\<close> field
  (\<open>host.go\<close>), the validators of statuses and methods (\<open>bcl.go\<close>), HTTP versions
  (\<open>src/pkg/protocols/http/http_version.go\<close>) and TLS versions (\<open>src/pkg/netutils/tls.go\<close>).
\<close>

section \<open>Token lists\<close>

definition blanks :: string where
  "blanks = [CHR '' '', CHR 0x09]"

definition SplitTokenList :: "(string \<Rightarrow> string) \<Rightarrow> string \<Rightarrow> bool \<Rightarrow> string list" where
  "SplitTokenList uni s normalized =
     map (\<lambda>token. if normalized then ToLower uni token else token)
       (filter (\<lambda>token. token \<noteq> []) (map (\<lambda>part. Trim part blanks) (Split s CHR '','')))"

definition AppendToTokenList :: "string \<Rightarrow> string list \<Rightarrow> string" where
  "AppendToTokenList s tokens =
     (if tokens = [] then s
      else let tokenString = Join tokens '', '';
               s = TrimRight s (CHR '','' # blanks)
           in if s = [] then tokenString else s @ '', '' @ tokenString)"

section \<open>The Host field\<close>

datatype host_error =
    EmptyValue
  | TruncatedIPv6
  | EmptyHost
  | InvalidIPv6
  | InvalidAfterIPv6 char
  | TruncatedHostValue
  | InvalidIPv4
  | InvalidHostPort

text \<open>The host and the text of the port, empty when there is none.\<close>

definition host_and_port :: "string \<Rightarrow> host_error + (string \<times> string)" where
  "host_and_port s =
     (if hd s = CHR ''['' then
        (case Cut (tl s) CHR '']'' of (host, after, found) \<Rightarrow>
           if \<not> found then Inl TruncatedIPv6
           else if length host = 0 then Inl EmptyHost
           else if ParseIP host = None then Inl InvalidIPv6
           else if length after > 0 then
             if hd after \<noteq> CHR '':'' then Inl (InvalidAfterIPv6 (hd after))
             else if length after < 2 then Inl TruncatedHostValue
             else Inr (host, tl after)
           else Inr (host, []))
      else
        (case Cut s CHR '':'' of (host, after, found) \<Rightarrow>
           if found \<and> after = [] then Inl TruncatedHostValue
           else if length host = 0 then Inl EmptyHost
           else if 49 \<le> (of_char (hd host) :: nat) \<and> (of_char (hd host) :: nat) \<le> 57 \<and>
             (case ParseIP host of None \<Rightarrow> True | Some addr \<Rightarrow> To4 addr = None)
           then Inl InvalidIPv4
           else Inr (host, after)))"

definition ParseHostHeaderField :: "string \<Rightarrow> host_error + string" where
  "ParseHostHeaderField s =
     (if length s = 0 then Inl EmptyValue
      else case host_and_port s of
             Inl e \<Rightarrow> Inl e
           | Inr (host, portString) \<Rightarrow>
               if length portString > 0 then
                 (case ParseInt portString of
                    None \<Rightarrow> Inl InvalidHostPort
                  | Some port \<Rightarrow> if port < 1 \<or> port > 65535 then Inl InvalidHostPort else Inr host)
               else Inr host)"

section \<open>Statuses, methods and versions\<close>

definition methods :: "string list" where
  "methods = [''GET'', ''HEAD'', ''POST'', ''PUT'', ''DELETE'', ''CONNECT'', ''OPTIONS'', ''TRACE'', ''PATCH'']"

definition ValidateBCLStatus :: "int \<Rightarrow> bool" where
  "ValidateBCLStatus status \<longleftrightarrow> \<not> (status < 200 \<or> status > 599)"

definition ValidateBCLMethod :: "string \<Rightarrow> bool" where
  "ValidateBCLMethod m \<longleftrightarrow> m \<in> set methods"

datatype HTTPVersion = HTTPVersionHTTP10 | HTTPVersionHTTP11 | HTTPVersionHTTP2 | HTTPVersionHTTP3

fun HTTPVersion_Match :: "HTTPVersion \<Rightarrow> int \<Rightarrow> int \<Rightarrow> bool" where
  "HTTPVersion_Match HTTPVersionHTTP10 major minor = (major = 1 \<and> minor = 0)"
| "HTTPVersion_Match HTTPVersionHTTP11 major minor = (major = 1 \<and> minor = 1)"
| "HTTPVersion_Match HTTPVersionHTTP2 major minor = (major = 2)"
| "HTTPVersion_Match HTTPVersionHTTP3 major minor = (major = 3)"

definition HTTPVersion_Parse :: "string \<Rightarrow> HTTPVersion option" where
  "HTTPVersion_Parse s =
     (if s = ''HTTP/1.0'' then Some HTTPVersionHTTP10
      else if s = ''HTTP/1.1'' then Some HTTPVersionHTTP11
      else if s = ''HTTP/2'' then Some HTTPVersionHTTP2
      else if s = ''HTTP/3'' then Some HTTPVersionHTTP3
      else None)"

section \<open>TLS versions\<close>

abbreviation VersionTLS10 :: u16 where "VersionTLS10 \<equiv> 0x0301"
abbreviation VersionTLS11 :: u16 where "VersionTLS11 \<equiv> 0x0302"
abbreviation VersionTLS12 :: u16 where "VersionTLS12 \<equiv> 0x0303"
abbreviation VersionTLS13 :: u16 where "VersionTLS13 \<equiv> 0x0304"

record TLSCfg =
  TlsDomains :: "string list"
  MinVersion :: u16
  MaxVersion :: u16
  CipherSuites :: "u16 list"

definition tls_versions :: "u16 list" where
  "tls_versions = [VersionTLS10, VersionTLS11, VersionTLS12, VersionTLS13]"

definition SupportedTLSVersions :: "TLSCfg \<Rightarrow> u16 list" where
  "SupportedTLSVersions cfg =
     (let start = (if MinVersion cfg = VersionTLS11 then 1
                   else if MinVersion cfg = VersionTLS12 then 2
                   else if MinVersion cfg = VersionTLS13 then 3 else 0);
          stop = (if MaxVersion cfg = VersionTLS10 then 1
                  else if MaxVersion cfg = VersionTLS11 then 2
                  else if MaxVersion cfg = VersionTLS12 then 3 else (4 :: nat))
      in if stop < start then [] else drop start (take stop tls_versions))"

definition ParseTLSVersion :: "string \<Rightarrow> u16 option" where
  "ParseTLSVersion s =
     (if s = ''1.0'' then Some VersionTLS10
      else if s = ''1.1'' then Some VersionTLS11
      else if s = ''1.2'' then Some VersionTLS12
      else if s = ''1.3'' then Some VersionTLS13
      else None)"

definition ValidateBCLTLSVersion :: "string \<Rightarrow> bool" where
  "ValidateBCLTLSVersion s \<longleftrightarrow> ParseTLSVersion s \<noteq> None"

text \<open>The cipher suites of the TLS library are the argument \<open>suites\<close>, by name.\<close>

definition ValidateBCLTLSCipherSuite :: "(string \<times> u16) list \<Rightarrow> string \<Rightarrow> bool" where
  "ValidateBCLTLSCipherSuite suites name \<longleftrightarrow> map_of suites name \<noteq> None"

text \<open>\<open>HTTPTLSProtocolString\<close> panics on another version, the result \<open>None\<close>.\<close>

definition HTTPTLSProtocolString :: "u16 \<Rightarrow> string option" where
  "HTTPTLSProtocolString version =
     (if version = VersionTLS10 then Some ''TLS/1.0''
      else if version = VersionTLS11 then Some ''TLS/1.1''
      else if version = VersionTLS12 then Some ''TLS/1.2''
      else if version = VersionTLS13 then Some ''TLS/1.3''
      else None)"

section \<open>Splitting and appending\<close>

lemma Split_append: "Split (x @ sep # y) sep = Split x sep @ Split y sep"
  by (induction x) (auto split: list.splits)

lemma Split_snoc:
  "c \<noteq> sep \<Longrightarrow> Split (x @ [c]) sep = butlast (Split x sep) @ [last (Split x sep) @ [c]]"
  by (induction x) (auto split: list.splits)

lemma Trim_snoc: "c \<in> set cs \<Longrightarrow> Trim (p @ [c]) cs = Trim p cs"
proof (cases "\<forall>x \<in> set p. x \<in> set cs")
  case True
  moreover assume "c \<in> set cs"
  ultimately show ?thesis
    by (auto simp: Trim_def TrimLeft_def TrimRight_def dropWhile_append dest: set_dropWhileD)
qed (auto simp: Trim_def TrimLeft_def TrimRight_def dropWhile_append)

lemma Trim_Cons: "c \<in> set cs \<Longrightarrow> Trim (c # p) cs = Trim p cs"
  by (simp add: Trim_def TrimLeft_def)

definition tokens_of :: "string \<Rightarrow> string list" where
  "tokens_of s = filter (\<lambda>token. token \<noteq> []) (map (\<lambda>part. Trim part blanks) (Split s CHR '',''))"

lemma Trim_Nil [simp]: "Trim [] cs = []"
  by (simp add: Trim_def TrimLeft_def TrimRight_def)

lemma tokens_snoc: "c \<in> set (CHR '','' # blanks) \<Longrightarrow> tokens_of (x @ [c]) = tokens_of x"
proof (cases "c = CHR '',''")
  case True
  then show ?thesis by (simp add: tokens_of_def Split_append)
next
  case False
  moreover assume "c \<in> set (CHR '','' # blanks)"
  ultimately have c: "c \<in> set blanks" by simp
  obtain ps p where "Split x CHR '','' = ps @ [p]" by (cases "Split x CHR '',''" rule: rev_cases) auto
  then show ?thesis using Split_snoc [OF False, of x] Trim_snoc [OF c, of p]
    by (simp add: tokens_of_def)
qed

lemma tokens_trailing: "set r \<subseteq> set (CHR '','' # blanks) \<Longrightarrow> tokens_of (x @ r) = tokens_of x"
proof (induction r rule: rev_induct)
  case (snoc c r)
  then show ?case using tokens_snoc [of c "x @ r"] by simp
qed simp

lemma TrimRight_decomp: "\<exists>r. s = TrimRight s cs @ r \<and> set r \<subseteq> set cs"
proof -
  let ?r = "rev (takeWhile (\<lambda>c. c \<in> set cs) (rev s))"
  have "s = TrimRight s cs @ ?r"
    unfolding TrimRight_def by (metis rev_append rev_rev_ident takeWhile_dropWhile_id)
  moreover have "set ?r \<subseteq> set cs" by (auto dest: set_takeWhileD)
  ultimately show ?thesis by blast
qed

lemma tokens_TrimRight: "tokens_of (TrimRight s (CHR '','' # blanks)) = tokens_of s"
  using TrimRight_decomp [of s "CHR '','' # blanks"] tokens_trailing by metis

definition token_ok :: "string \<Rightarrow> bool" where
  "token_ok t \<longleftrightarrow> t \<noteq> [] \<and> CHR '','' \<notin> set t \<and> Trim t blanks = t"

lemma tokens_blank: "tokens_of (CHR '' '' # s) = tokens_of s"
proof -
  obtain p ps where "Split s CHR '','' = p # ps" by (cases "Split s CHR '',''") auto
  then show ?thesis by (simp add: tokens_of_def Trim_Cons blanks_def)
qed

lemma tokens_Join: "list_all token_ok ts \<Longrightarrow> ts \<noteq> [] \<Longrightarrow> tokens_of (Join ts '', '') = ts"
proof (induction ts "'', ''" rule: Join.induct)
  case (2 t)
  then show ?case by (simp add: tokens_of_def Split_notin token_ok_def)
next
  case (3 t u ts)
  then have "tokens_of (t @ CHR '','' # CHR '' '' # Join (u # ts) '', '') = t # tokens_of (CHR '' '' # Join (u # ts) '', '')"
    by (simp add: tokens_of_def Split_append_sep token_ok_def)
  then show ?case using 3 by (simp add: tokens_blank)
qed simp

lemma tokens_Append:
  assumes "list_all token_ok ts"
  shows "tokens_of (AppendToTokenList s ts) = tokens_of s @ ts"
proof (cases "ts = []")
  case False
  let ?s = "TrimRight s (CHR '','' # blanks)"
  have "tokens_of (?s @ CHR '','' # CHR '' '' # Join ts '', '') = tokens_of ?s @ tokens_of (CHR '' '' # Join ts '', '')"
    by (simp add: tokens_of_def Split_append)
  moreover have "tokens_of [] = []" by (simp add: tokens_of_def)
  ultimately show ?thesis
    using False assms tokens_Join [OF assms False] tokens_TrimRight [of s]
    by (auto simp: AppendToTokenList_def Let_def tokens_blank)
qed (simp add: AppendToTokenList_def)

section \<open>Properties\<close>

text \<open>Appending tokens to a header field value and splitting the result gives the tokens the
  value already had followed by the appended ones, however the value ends (with separators
  or blanks, or empty).\<close>

theorem append_split_tokens:
  assumes "list_all token_ok ts"
  shows "SplitTokenList uni (AppendToTokenList s ts) False = SplitTokenList uni s False @ ts"
  using tokens_Append [OF assms, of s] by (simp add: SplitTokenList_def tokens_of_def)

theorem append_split_tokens_witness:
  "SplitTokenList (\<lambda>s. s) (AppendToTokenList ''a, b, '' [''c'', ''d'']) False =
     SplitTokenList (\<lambda>s. s) ''a, b, '' False @ [''c'', ''d'']"
  by (rule append_split_tokens)
    (simp add: token_ok_def Trim_def TrimLeft_def TrimRight_def blanks_def)

text \<open>The TLS versions a configuration supports are exactly the known versions between the
  minimum and the maximum it sets (0 stands for a bound that is not set).\<close>

theorem supported_tls_versions:
  assumes "MinVersion cfg \<in> {0} \<union> set tls_versions" "MaxVersion cfg \<in> {0} \<union> set tls_versions"
  shows "SupportedTLSVersions cfg =
    filter (\<lambda>v. MinVersion cfg \<le> v \<and> (MaxVersion cfg = 0 \<or> v \<le> MaxVersion cfg)) tls_versions"
proof -
  have cases: "x = 0 \<or> x = VersionTLS10 \<or> x = VersionTLS11 \<or> x = VersionTLS12 \<or> x = VersionTLS13"
    if "x \<in> {0} \<union> set tls_versions" for x using that by (auto simp: tls_versions_def)
  show ?thesis
    using cases [OF assms(1)] cases [OF assms(2)]
    by (elim disjE) (simp_all add: SupportedTLSVersions_def tls_versions_def)
qed

theorem supported_tls_versions_witness:
  "SupportedTLSVersions \<lparr>TlsDomains = [], MinVersion = VersionTLS12, MaxVersion = 0, CipherSuites = []\<rparr> =
    [VersionTLS12, VersionTLS13]"
  using supported_tls_versions [of "\<lparr>TlsDomains = [], MinVersion = VersionTLS12, MaxVersion = 0, CipherSuites = []\<rparr>"]
  by (simp add: tls_versions_def)

end
