(* ===== verification/Media_Types.thy ===== *)
theory Media_Types
  imports Complex_Main Http_Syntax "HOL-Library.Multiset"
begin

text \<open>
  Media types, media ranges and their negotiation: \<open>src/pkg/protocols/http/media_types.go\<close>. A
  quality is a floating point number, here a rational number or one of the special values
  that \<open>strconv.ParseFloat\<close> can return; the function itself is the argument \<open>parse_float\<close>, and
  \<open>strconv.FormatFloat\<close> the argument \<open>format_float\<close>. \<open>sort.Slice\<close>, which does not say in which
  order it leaves equal ranges, is the argument \<open>sorter\<close>.
\<close>

section \<open>Parameters\<close>

datatype media_error =
    MissingSlash
  | EmptyType
  | EmptySubtype
  | MissingEqual
  | EmptyParameterName
  | EmptyParameterValue
  | WildcardType
  | InvalidQuality

record MediaTypeParameter =
  mp_Name :: string
  mp_Value :: string

definition MediaTypeParameter_String :: "MediaTypeParameter \<Rightarrow> string" where
  "MediaTypeParameter_String p = mp_Name p @ ''='' @ mp_Value p"

definition MediaTypeParameter_Parse :: "string \<Rightarrow> media_error + MediaTypeParameter" where
  "MediaTypeParameter_Parse s = (case IndexByte s CHR ''='' of
     None \<Rightarrow> Inl MissingEqual
   | Some i \<Rightarrow>
       let name = Trim (take i s) blanks; val = Trim (drop (i + 1) s) blanks in
       if name = [] then Inl EmptyParameterName
       else if val = [] then Inl EmptyParameterValue
       else Inr \<lparr>mp_Name = name, mp_Value = val\<rparr>)"

fun parse_parameters :: "string list \<Rightarrow> media_error + MediaTypeParameter list" where
  "parse_parameters [] = Inr []"
| "parse_parameters (s # ss) = (case MediaTypeParameter_Parse s of
     Inl e \<Rightarrow> Inl e
   | Inr p \<Rightarrow> (case parse_parameters ss of Inl e \<Rightarrow> Inl e | Inr ps \<Rightarrow> Inr (p # ps)))"

section \<open>Media types\<close>

record MediaType =
  mt_Type :: string
  mt_Subtype :: string
  mt_Parameters :: "MediaTypeParameter list"

definition MediaTypeText :: MediaType where
  "MediaTypeText = \<lparr>mt_Type = ''text'', mt_Subtype = ''plain'',
     mt_Parameters = [\<lparr>mp_Name = ''charset'', mp_Value = ''utf-8''\<rparr>]\<rparr>"

definition MediaTypeHTML :: MediaType where
  "MediaTypeHTML = \<lparr>mt_Type = ''text'', mt_Subtype = ''html'',
     mt_Parameters = [\<lparr>mp_Name = ''charset'', mp_Value = ''utf-8''\<rparr>]\<rparr>"

definition MediaTypeJSON :: MediaType where
  "MediaTypeJSON = \<lparr>mt_Type = ''application'', mt_Subtype = ''json'', mt_Parameters = []\<rparr>"

definition parameters_text :: "MediaTypeParameter list \<Rightarrow> string" where
  "parameters_text ps = concat (map (\<lambda>p. '';'' @ MediaTypeParameter_String p) ps)"

definition MediaType_String :: "MediaType \<Rightarrow> string" where
  "MediaType_String t = mt_Type t @ ''/'' @ mt_Subtype t @ parameters_text (mt_Parameters t)"

definition MediaType_Parse :: "string \<Rightarrow> media_error + MediaType" where
  "MediaType_Parse s = (case IndexByte s CHR ''/'' of
     None \<Rightarrow> Inl MissingSlash
   | Some slash \<Rightarrow>
       let mtype = Trim (take slash s) blanks in
       if mtype = [] then Inl EmptyType
       else
         let s = drop (slash + 1) s; semicolon = IndexByte s CHR '';'';
             stop = (case semicolon of None \<Rightarrow> length s | Some i \<Rightarrow> i);
             subtype = Trim (take stop s) blanks in
         if subtype = [] then Inl EmptySubtype
         else (case semicolon of
             None \<Rightarrow> Inr \<lparr>mt_Type = mtype, mt_Subtype = subtype, mt_Parameters = []\<rparr>
           | Some i \<Rightarrow> (case parse_parameters (Split (drop (i + 1) s) CHR '';'') of
               Inl e \<Rightarrow> Inl e
             | Inr ps \<Rightarrow> Inr \<lparr>mt_Type = mtype, mt_Subtype = subtype, mt_Parameters = ps\<rparr>)))"

section \<open>Media ranges\<close>

datatype quality = Finite rat | PosInf | NegInf | NaN

fun quality_less :: "quality \<Rightarrow> quality \<Rightarrow> bool" where
  "quality_less (Finite a) (Finite b) = (a < b)"
| "quality_less NaN q = False"
| "quality_less q NaN = False"
| "quality_less NegInf q = (q \<noteq> NegInf)"
| "quality_less q PosInf = (q \<noteq> PosInf)"
| "quality_less q r = False"

record MediaRange =
  mr_Type :: string
  mr_Subtype :: string
  mr_Quality :: quality
  mr_Parameters :: "MediaTypeParameter list"

definition MediaRange_String :: "(quality \<Rightarrow> string) \<Rightarrow> MediaRange \<Rightarrow> string" where
  "MediaRange_String format_float r =
     (if mr_Type r = [] then ''*'' else mr_Type r) @ ''/'' @
     (if mr_Subtype r = [] then ''*'' else mr_Subtype r) @ parameters_text (mr_Parameters r) @
     (if mr_Quality r \<noteq> Finite 1 then '';q='' @ format_float (mr_Quality r) else [])"

text \<open>The loop over the parameters: the last quality counts, the others are kept.\<close>

fun range_parameters ::
  "(string \<Rightarrow> quality option) \<Rightarrow> (string \<Rightarrow> string) \<Rightarrow> MediaTypeParameter list \<Rightarrow> MediaRange \<Rightarrow>
     media_error + MediaRange" where
  "range_parameters parse_float uni [] r = Inr r"
| "range_parameters parse_float uni (p # ps) r =
     (if ToLower uni (mp_Name p) = ''q'' then
        (case parse_float (mp_Value p) of
           None \<Rightarrow> Inl InvalidQuality
         | Some f \<Rightarrow> range_parameters parse_float uni ps (r\<lparr>mr_Quality := f\<rparr>))
      else range_parameters parse_float uni ps (r\<lparr>mr_Parameters := mr_Parameters r @ [p]\<rparr>))"

definition MediaRange_Parse ::
  "(string \<Rightarrow> quality option) \<Rightarrow> (string \<Rightarrow> string) \<Rightarrow> string \<Rightarrow> media_error + MediaRange" where
  "MediaRange_Parse parse_float uni s = (case MediaType_Parse s of
     Inl e \<Rightarrow> Inl e
   | Inr t \<Rightarrow>
       if mt_Type t = ''*'' \<and> mt_Subtype t \<noteq> ''*'' then Inl WildcardType
       else range_parameters parse_float uni (mt_Parameters t)
         \<lparr>mr_Type = (if mt_Type t \<noteq> ''*'' then mt_Type t else []),
          mr_Subtype = (if mt_Subtype t \<noteq> ''*'' then mt_Subtype t else []),
          mr_Quality = Finite 1, mr_Parameters = []\<rparr>)"

definition MediaRange_Matches :: "MediaRange \<Rightarrow> MediaType \<Rightarrow> bool" where
  "MediaRange_Matches r t =
     (if mr_Type r \<noteq> [] \<and> mr_Type r \<noteq> mt_Type t then False
      else if mr_Subtype r \<noteq> [] \<and> mr_Subtype r \<noteq> mt_Subtype t then False
      else True)"

definition specificityScore :: "MediaRange \<Rightarrow> int" where
  "specificityScore r = (if mr_Type r \<noteq> [] then 1 else 0) + (if mr_Subtype r \<noteq> [] then 1 else 0) +
     (if length (mr_Parameters r) > 0 then 1 else 0)"

definition PreferableTo :: "MediaRange \<Rightarrow> MediaRange \<Rightarrow> bool" where
  "PreferableTo r r2 =
     (if quality_less (mr_Quality r2) (mr_Quality r) then True
      else if quality_less (mr_Quality r) (mr_Quality r2) then False
      else specificityScore r > specificityScore r2)"

section \<open>Negotiation\<close>

fun first_match :: "MediaRange list \<Rightarrow> MediaType list \<Rightarrow> MediaType option" where
  "first_match [] ts = None"
| "first_match (r # rs) ts = (case find (MediaRange_Matches r) ts of
     Some t \<Rightarrow> Some t
   | None \<Rightarrow> first_match rs ts)"

text \<open>Without any supported type \<open>supportedTypes[0]\<close> panics, the result \<open>None\<close>.\<close>

definition NegotiateMediaType ::
  "(MediaRange list \<Rightarrow> MediaRange list) \<Rightarrow> MediaRange list \<Rightarrow> MediaType list \<Rightarrow> MediaType option" where
  "NegotiateMediaType sorter ranges supported = (case first_match (sorter ranges) supported of
     Some t \<Rightarrow> Some t
   | None \<Rightarrow> (case supported of [] \<Rightarrow> None | t # _ \<Rightarrow> Some t))"

text \<open>The ranges of an \<open>Accept\<close> field; a part that is not a range is skipped.\<close>

definition accepted_ranges ::
  "(string \<Rightarrow> quality option) \<Rightarrow> (string \<Rightarrow> string) \<Rightarrow> string \<Rightarrow> MediaRange list" where
  "accepted_ranges parse_float uni accept =
     concat (map (\<lambda>part. case MediaRange_Parse parse_float uni (Trim part blanks) of
         Inl _ \<Rightarrow> [] | Inr r \<Rightarrow> [r]) (Split accept CHR '',''))"

section \<open>Reading what is written\<close>

definition word_ok :: "string \<Rightarrow> bool" where
  "word_ok s \<longleftrightarrow> s \<noteq> [] \<and> hd s \<notin> set blanks \<and> last s \<notin> set blanks \<and> CHR '';'' \<notin> set s"

definition parameter_ok :: "MediaTypeParameter \<Rightarrow> bool" where
  "parameter_ok p \<longleftrightarrow> word_ok (mp_Name p) \<and> word_ok (mp_Value p) \<and> CHR ''='' \<notin> set (mp_Name p)"

definition media_type_ok :: "MediaType \<Rightarrow> bool" where
  "media_type_ok t \<longleftrightarrow> word_ok (mt_Type t) \<and> CHR ''/'' \<notin> set (mt_Type t) \<and> word_ok (mt_Subtype t) \<and>
     list_all parameter_ok (mt_Parameters t)"

lemma Trim_word [simp]: "word_ok s \<Longrightarrow> Trim s blanks = s"
  by (simp add: word_ok_def Trim_id)

lemma word_ne [dest]: "word_ok s \<Longrightarrow> s \<noteq> [] \<and> CHR '';'' \<notin> set s"
  by (simp add: word_ok_def)

lemma parameter_roundtrip:
  assumes "parameter_ok p"
  shows "MediaTypeParameter_Parse (MediaTypeParameter_String p) = Inr p"
  using assms
  by (auto simp: parameter_ok_def MediaTypeParameter_Parse_def MediaTypeParameter_String_def Let_def dest: word_ne)

lemma parameter_no_semicolon: "parameter_ok p \<Longrightarrow> CHR '';'' \<notin> set (MediaTypeParameter_String p)"
  by (auto simp: parameter_ok_def MediaTypeParameter_String_def)

lemma parameters_text_Join:
  "ps \<noteq> [] \<Longrightarrow> parameters_text ps = '';'' @ Join (map MediaTypeParameter_String ps) '';''"
proof (induction ps)
  case (Cons p ps)
  then show ?case by (cases ps) (simp_all add: parameters_text_def)
qed simp

lemma parse_parameters_text:
  "list_all parameter_ok ps \<Longrightarrow> parse_parameters (map MediaTypeParameter_String ps) = Inr ps"
  by (induction ps) (simp_all add: parameter_roundtrip)

lemma Split_parameters:
  assumes "list_all parameter_ok ps" "ps \<noteq> []"
  shows "Split (Join (map MediaTypeParameter_String ps) '';'') CHR '';'' = map MediaTypeParameter_String ps"
  using assms by (intro Split_Join) (auto simp: list_all_iff parameter_no_semicolon)

section \<open>Properties\<close>

text \<open>A media type is written and read back: for every type, subtype and parameters without blanks
  around them and without the separators, \<open>Parse\<close> of \<open>String\<close> is the media type itself.\<close>

theorem media_type_roundtrip:
  assumes "media_type_ok t"
  shows "MediaType_Parse (MediaType_String t) = Inr t"
proof -
  let ?ps = "mt_Parameters t" and ?rest = "mt_Subtype t @ parameters_text (mt_Parameters t)"
  have ok: "word_ok (mt_Type t)" "CHR ''/'' \<notin> set (mt_Type t)" "word_ok (mt_Subtype t)" "list_all parameter_ok ?ps"
    using assms by (simp_all add: media_type_ok_def)
  have slash: "IndexByte (MediaType_String t) CHR ''/'' = Some (length (mt_Type t))"
    using ok(2) by (simp add: MediaType_String_def)
  show ?thesis
  proof (cases "?ps = []")
    case True
    then have "IndexByte ?rest CHR '';'' = None" using ok(3) by (auto simp: parameters_text_def)
    then show ?thesis using slash ok True
      by (auto simp: MediaType_Parse_def MediaType_String_def Let_def parameters_text_def dest: word_ne)
  next
    case False
    note joined = parameters_text_Join [OF False]
    have "IndexByte ?rest CHR '';'' = Some (length (mt_Subtype t))" using ok(3) joined by (auto dest: word_ne)
    then show ?thesis
      using slash ok False Split_parameters [OF ok(4) False] parse_parameters_text [OF ok(4)] joined
      by (auto simp: MediaType_Parse_def MediaType_String_def Let_def dest: word_ne)
  qed
qed

lemma media_type_roundtrip_witness:
  "MediaType_Parse (MediaType_String MediaTypeHTML) = Inr MediaTypeHTML"
  by (rule media_type_roundtrip)
    (simp add: MediaTypeHTML_def media_type_ok_def word_ok_def parameter_ok_def blanks_def)

definition range_order :: "MediaRange list \<Rightarrow> MediaRange list \<Rightarrow> bool" where
  "range_order ranges rs \<longleftrightarrow> mset rs = mset ranges \<and> sorted_wrt (\<lambda>r r2. \<not> PreferableTo r2 r) rs"

lemma PreferableTo_irrefl [simp]: "\<not> PreferableTo r r"
  by (cases "mr_Quality r") (simp_all add: PreferableTo_def)

lemma find_SomeD: "find P xs = Some x \<Longrightarrow> x \<in> set xs \<and> P x"
  by (auto simp: find_Some_iff)

lemma first_match_None: "first_match rs ts = None \<longleftrightarrow> (\<forall>r \<in> set rs. \<forall>t \<in> set ts. \<not> MediaRange_Matches r t)"
  by (induction rs) (auto simp: find_None_iff dest: find_SomeD split: option.splits)

lemma first_match_Some:
  "\<lbrakk>first_match rs ts = Some t; sorted_wrt (\<lambda>r r2. \<not> PreferableTo r2 r) rs\<rbrakk> \<Longrightarrow>
    \<exists>r \<in> set rs. find (MediaRange_Matches r) ts = Some t \<and>
      (\<forall>r' \<in> set rs. (\<exists>t' \<in> set ts. MediaRange_Matches r' t') \<longrightarrow> \<not> PreferableTo r' r)"
proof (induction rs)
  case (Cons r rs)
  show ?case
  proof (cases "find (MediaRange_Matches r) ts")
    case None
    then obtain r1 where "r1 \<in> set rs" "find (MediaRange_Matches r1) ts = Some t"
        "\<forall>r' \<in> set rs. (\<exists>t' \<in> set ts. MediaRange_Matches r' t') \<longrightarrow> \<not> PreferableTo r' r1"
      using Cons by auto
    moreover have "\<not> (\<exists>t' \<in> set ts. MediaRange_Matches r t')" using None by (auto simp: find_None_iff)
    ultimately show ?thesis by auto
  next
    case (Some t')
    then show ?thesis using Cons.prems by auto
  qed
qed simp

text \<open>C35: Negotiation gives the client what it prefers: when some supported type is matched by a range
  the result is one of the supported types, the first one a range \<open>r\<close> matches, where no other
  range with a match is preferable to \<open>r\<close> (a higher quality, or the same quality and more
  specific); otherwise it is the first supported type. The quality only orders the ranges:
  a range with the quality 0, by which a client refuses a type, matches like the others.\<close>

theorem negotiate_best:
  assumes "range_order ranges (sorter ranges)" "supported \<noteq> []"
  shows "\<exists>t. NegotiateMediaType sorter ranges supported = Some t \<and> t \<in> set supported \<and>
    (if \<exists>r \<in> set ranges. \<exists>t' \<in> set supported. MediaRange_Matches r t' then
       \<exists>r \<in> set ranges. find (MediaRange_Matches r) supported = Some t \<and>
         \<not> (\<exists>r' \<in> set ranges. \<exists>t' \<in> set supported. MediaRange_Matches r' t' \<and> PreferableTo r' r)
     else t = hd supported)"
proof -
  have s: "set (sorter ranges) = set ranges" "sorted_wrt (\<lambda>r r2. \<not> PreferableTo r2 r) (sorter ranges)"
    using assms(1) by (auto simp: range_order_def dest: mset_eq_setD)
  show ?thesis
  proof (cases "first_match (sorter ranges) supported")
    case None
    then have "\<not> (\<exists>r \<in> set ranges. \<exists>t' \<in> set supported. MediaRange_Matches r t')"
      using s(1) by (auto simp: first_match_None)
    then show ?thesis using None assms(2) by (cases supported) (simp_all add: NegotiateMediaType_def)
  next
    case (Some t)
    then obtain r where r: "r \<in> set ranges" "find (MediaRange_Matches r) supported = Some t"
        "\<forall>r' \<in> set ranges. (\<exists>t' \<in> set supported. MediaRange_Matches r' t') \<longrightarrow> \<not> PreferableTo r' r"
      using first_match_Some [OF Some s(2)] s(1) by auto
    then have "t \<in> set supported" "MediaRange_Matches r t" by (auto dest: find_SomeD)
    then show ?thesis using r Some by (auto simp: NegotiateMediaType_def)
  qed
qed

lemma negotiate_best_witness:
  "NegotiateMediaType id [\<lparr>mr_Type = ''text'', mr_Subtype = ''plain'', mr_Quality = Finite 0, mr_Parameters = []\<rparr>]
    [MediaTypeHTML, MediaTypeText] = Some MediaTypeText"
  using negotiate_best [of "[\<lparr>mr_Type = ''text'', mr_Subtype = ''plain'', mr_Quality = Finite 0, mr_Parameters = []\<rparr>]"
      id "[MediaTypeHTML, MediaTypeText]"]
  by (simp add: range_order_def MediaRange_Matches_def MediaTypeHTML_def MediaTypeText_def)

end
