(* ===== verification/Segments.thy ===== *)
theory Segments
  imports Prelude
begin

text \<open>
  Patterns made of segments, each a literal value or a wildcard (an empty value): what
  domain name patterns and path patterns have in common. The interface \<open>segment_pattern\<close>
  says when a pattern matches a subject; its two implementations are in the theories of
  the two kinds of patterns.
\<close>

definition segment_ok :: "string \<Rightarrow> string \<Rightarrow> bool" where
  "segment_ok value seg \<longleftrightarrow> value = [] \<or> value = seg"

text \<open>A list of segments starts with segments that match the pattern, and has no others
  unless the pattern is a prefix.\<close>

definition segments_match :: "bool \<Rightarrow> string list \<Rightarrow> string list \<Rightarrow> bool" where
  "segments_match pre ps xs \<longleftrightarrow>
     (if pre then length ps \<le> length xs else length ps = length xs) \<and>
     list_all2 segment_ok ps (take (length ps) xs)"

lemma segments_match_simps [simp]:
  "segments_match pre [] xs \<longleftrightarrow> pre \<or> xs = []"
  "segments_match pre (p # ps) [] = False"
  "segments_match pre (p # ps) (x # xs) \<longleftrightarrow> segment_ok p x \<and> segments_match pre ps xs"
  by (auto simp: segments_match_def)

locale segment_pattern =
  fixes segs_of :: "string \<Rightarrow> string list"
    and pat_segs :: "'p \<Rightarrow> string list"
    and is_prefix :: "'p \<Rightarrow> bool"
    and valid :: "'p \<Rightarrow> bool"
    and matches :: "'p \<Rightarrow> string \<Rightarrow> bool"
  assumes matches_iff: "valid p \<Longrightarrow> matches p x \<longleftrightarrow> segments_match (is_prefix p) (pat_segs p) (segs_of x)"
begin

lemma literal_exact:
  assumes "valid p" "[] \<notin> set (pat_segs p)" "\<not> is_prefix p"
  shows "matches p x \<longleftrightarrow> segs_of x = pat_segs p"
proof -
  have "segments_match False ps xs \<longleftrightarrow> xs = ps" if "[] \<notin> set ps" for ps xs
    using that
  proof (induction ps arbitrary: xs)
    case (Cons q ps)
    then show ?case by (cases xs) (auto simp: segment_ok_def)
  qed simp
  then show ?thesis using assms by (simp add: matches_iff)
qed

lemma matches_length: "valid p \<Longrightarrow> matches p x \<Longrightarrow> length (pat_segs p) \<le> length (segs_of x)"
  by (auto simp: matches_iff segments_match_def split: if_splits)

lemma generalise:
  assumes "valid p" "valid q" "matches p x" "is_prefix p \<longrightarrow> is_prefix q"
    "length (pat_segs q) = length (pat_segs p)"
    "\<forall>i < length (pat_segs q). pat_segs q ! i = [] \<or> pat_segs q ! i = pat_segs p ! i"
  shows "matches q x"
proof -
  have "list_all2 segment_ok (pat_segs p) xs \<Longrightarrow> list_all2 segment_ok (pat_segs q) xs" for xs
    using assms(5,6) by (fastforce simp: list_all2_conv_all_nth segment_ok_def)
  then show ?thesis using assms(3-5)
    by (auto simp: matches_iff [OF assms(1)] matches_iff [OF assms(2)] segments_match_def split: if_splits)
qed

end

end
