(* ===== verification/Domain_Names.thy ===== *)
theory Domain_Names
  imports Segments
begin

text \<open>
  Domain names and domain name patterns: \<open>src/pkg/netutils/domain_names.go\<close> and
  \<open>domain_name_pattern.go\<close>. The name is validated as a sequence of runes in the source; a
  byte that is not ASCII decodes to a rune above \<open>0x7f\<close> (possibly the replacement
  character), so the label is refused, and a label that is not refused has one rune per byte.
\<close>

section \<open>Validation of domain names\<close>

datatype domain_error =
    EmptyLabel
  | InvalidCharacter string
  | LabelTooLong string
  | BadLabelStart string
  | BadLabelEnd string
  | BadLabelCharacter string
  | EmptyPattern
  | PatternTypeError

definition maxLabelLength :: nat where
  "maxLabelLength = 63"

definition is_alpha :: "char \<Rightarrow> bool" where
  "is_alpha c \<longleftrightarrow> (let n = of_char c :: nat in (65 \<le> n \<and> n \<le> 90) \<or> (97 \<le> n \<and> n \<le> 122))"

definition is_alnum :: "char \<Rightarrow> bool" where
  "is_alnum c \<longleftrightarrow> is_alpha c \<or> is_digit c"

definition label_error :: "string \<Rightarrow> domain_error option" where
  "label_error label =
     (if label = [] then Some EmptyLabel
      else if \<not> is_ascii label then Some (InvalidCharacter label)
      else if length label > maxLabelLength then Some (LabelTooLong label)
      else if \<not> is_alnum (hd label) then Some (BadLabelStart label)
      else if \<not> is_alnum (last label) then Some (BadLabelEnd label)
      else if list_ex (\<lambda>c. \<not> (is_alnum c \<or> c = CHR ''-'')) (butlast (tl label)) then Some (BadLabelCharacter label)
      else None)"

fun labels_error :: "string list \<Rightarrow> domain_error option" where
  "labels_error [] = None"
| "labels_error (l # ls) = (case label_error l of Some e \<Rightarrow> Some e | None \<Rightarrow> labels_error ls)"

definition drop_final_dot :: "string \<Rightarrow> string" where
  "drop_final_dot s = (if s \<noteq> [] \<and> last s = CHR ''.'' then butlast s else s)"

text \<open>\<open>ValidateBCLDomainName\<close>: on an empty name \<open>s[len(s)-1]\<close> panics, the result \<open>None\<close>.\<close>

definition ValidateBCLDomainName :: "string \<Rightarrow> domain_error option option" where
  "ValidateBCLDomainName s =
     (if s = [] then None else Some (labels_error (Split (drop_final_dot s) CHR ''.'')))"

section \<open>Patterns\<close>

text \<open>A label is its value, empty for the wildcard.\<close>

type_synonym DomainNamePattern = "string list"

fun DomainNamePattern_String :: "DomainNamePattern \<Rightarrow> string" where
  "DomainNamePattern_String [] = []"
| "DomainNamePattern_String (l # ls) =
     (if l = [] then ''*'' else l) @ ''.'' @ DomainNamePattern_String ls"

fun parse_labels :: "string list \<Rightarrow> domain_error + DomainNamePattern" where
  "parse_labels [] = Inr []"
| "parse_labels (l # ls) =
     (if l = [] then Inl EmptyLabel
      else case parse_labels ls of
             Inl e \<Rightarrow> Inl e
           | Inr p \<Rightarrow> Inr ((if l = ''*'' then [] else l) # p))"

definition DomainNamePattern_Parse :: "string \<Rightarrow> domain_error + DomainNamePattern" where
  "DomainNamePattern_Parse s =
     (let s = drop_final_dot s in
      if s = [] then Inl EmptyPattern else parse_labels (Split s CHR ''.''))"

definition DomainNamePattern_ReadBCLValue :: "string option \<Rightarrow> domain_error + DomainNamePattern" where
  "DomainNamePattern_ReadBCLValue v = (case v of
     None \<Rightarrow> Inl PatternTypeError | Some s \<Rightarrow> DomainNamePattern_Parse s)"

fun match_labels :: "DomainNamePattern \<Rightarrow> string list \<Rightarrow> bool" where
  "match_labels [] _ = True"
| "match_labels _ [] = True"
| "match_labels (p # ps) (label # ls) =
     (if p \<noteq> [] \<and> label \<noteq> p then False else match_labels ps ls)"

definition DomainNamePattern_Match :: "DomainNamePattern \<Rightarrow> string \<Rightarrow> bool" where
  "DomainNamePattern_Match p domainName =
     (let name = drop_final_dot domainName in
      if length name = 0 then False
      else let labels = Split name CHR ''.'' in
        if length labels \<noteq> length p then False else match_labels p labels)"

section \<open>Matching\<close>

text \<open>The labels of a name; the empty name has none.\<close>

definition name_labels :: "string \<Rightarrow> string list" where
  "name_labels s = (if drop_final_dot s = [] then [] else Split (drop_final_dot s) CHR ''.'')"

lemma match_labels_iff:
  "length ls = length p \<Longrightarrow> match_labels p ls \<longleftrightarrow> segments_match False p ls"
  by (induction p ls rule: match_labels.induct) (auto simp: segment_ok_def)

text \<open>A pattern that \<open>Parse\<close> returns has at least one label.\<close>

lemma Match_iff:
  "DomainNamePattern_Match p x \<longleftrightarrow> p \<noteq> [] \<and> segments_match False p (name_labels x)"
proof (cases "drop_final_dot x = []")
  case False
  then have "name_labels x \<noteq> []" by (simp add: name_labels_def)
  then show ?thesis using False match_labels_iff [of "name_labels x" p]
    by (auto simp: DomainNamePattern_Match_def Let_def name_labels_def segments_match_def)
qed (cases p; auto simp: DomainNamePattern_Match_def name_labels_def)

interpretation domain_pattern: segment_pattern name_labels "\<lambda>p. p" "\<lambda>p. False" "\<lambda>p. p \<noteq> []"
  DomainNamePattern_Match
  by unfold_locales (simp add: Match_iff)

section \<open>Text form\<close>

text \<open>A label that the parser can return: no dot in it, and not the wildcard's text.\<close>

definition pattern_ok :: "DomainNamePattern \<Rightarrow> bool" where
  "pattern_ok p \<longleftrightarrow> p \<noteq> [] \<and> list_all (\<lambda>l. CHR ''.'' \<notin> set l \<and> l \<noteq> ''*'') p"

definition label_text :: "string \<Rightarrow> string" where
  "label_text l = (if l = [] then ''*'' else l)"

lemma String_Join: "p \<noteq> [] \<Longrightarrow> DomainNamePattern_String p = Join (map label_text p) ''.'' @ ''.''"
proof (induction p)
  case (Cons l p)
  then show ?case by (cases p) (auto simp: label_text_def)
qed simp

lemma parse_labels_text: "list_all (\<lambda>l. l \<noteq> ''*'') p \<Longrightarrow> parse_labels (map label_text p) = Inr p"
  by (induction p) (auto simp: label_text_def)

lemma parse_labels_ok:
  "parse_labels ls = Inr p \<Longrightarrow> list_all (\<lambda>l. CHR ''.'' \<notin> set l) ls \<Longrightarrow>
    length p = length ls \<and> list_all (\<lambda>l. CHR ''.'' \<notin> set l \<and> l \<noteq> ''*'') p"
  by (induction ls arbitrary: p) (auto split: if_splits sum.splits)

lemma Join_text_ne: "p \<noteq> [] \<Longrightarrow> Join (map label_text p) sep \<noteq> []"
  by (cases p; cases "tl p") (auto simp: label_text_def)

lemma Parse_ok: "DomainNamePattern_Parse s = Inr p \<Longrightarrow> pattern_ok p"
proof -
  assume "DomainNamePattern_Parse s = Inr p"
  then have "parse_labels (Split (drop_final_dot s) CHR ''.'') = Inr p"
    by (auto simp: DomainNamePattern_Parse_def Let_def split: if_splits)
  then show ?thesis
    using parse_labels_ok [of "Split (drop_final_dot s) CHR ''.''" p] Split_parts
    by (fastforce simp: pattern_ok_def list_all_iff)
qed

lemma Parse_String: "pattern_ok p \<Longrightarrow> DomainNamePattern_Parse (DomainNamePattern_String p) = Inr p"
proof -
  assume ok: "pattern_ok p"
  then have p: "p \<noteq> []" "list_all (\<lambda>l. l \<noteq> ''*'') p" "\<forall>l \<in> set (map label_text p). CHR ''.'' \<notin> set l"
    by (auto simp: pattern_ok_def list_all_iff label_text_def)
  have "drop_final_dot (DomainNamePattern_String p) = Join (map label_text p) ''.''"
    using String_Join [OF p(1)] by (simp add: drop_final_dot_def)
  then show ?thesis
    using Split_Join [of "map label_text p" "CHR ''.''"] p parse_labels_text [OF p(2)] Join_text_ne [OF p(1)]
    by (simp add: DomainNamePattern_Parse_def)
qed

section \<open>Properties\<close>

text \<open>The text of every pattern the parser returns parses to the same pattern, and a pattern
  without wildcards matches exactly one name, with or without a final dot.\<close>

theorem domain_pattern_roundtrip:
  assumes "DomainNamePattern_Parse s = Inr p"
  shows "DomainNamePattern_Parse (DomainNamePattern_String p) = Inr p \<and>
    ([] \<notin> set p \<longrightarrow> (\<forall>x. DomainNamePattern_Match p x \<longleftrightarrow>
       drop_final_dot x = drop_final_dot (DomainNamePattern_String p)))"
proof -
  have ok: "pattern_ok p" using Parse_ok [OF assms] .
  then have p: "p \<noteq> []" by (simp add: pattern_ok_def)
  have "DomainNamePattern_Match p x \<longleftrightarrow> drop_final_dot x = drop_final_dot (DomainNamePattern_String p)"
    if lit: "[] \<notin> set p" for x
  proof -
    have "map label_text p = p" using lit by (intro map_idI) (auto simp: label_text_def)
    then have str: "drop_final_dot (DomainNamePattern_String p) = Join p ''.''"
      using String_Join [OF p] by (simp add: drop_final_dot_def)
    have "name_labels x = p \<longleftrightarrow> drop_final_dot x = Join p ''.''"
      using Split_Join [of p "CHR ''.''"] Join_Split [of "drop_final_dot x" "CHR ''.''"] ok p
        Join_text_ne [OF p] \<open>map label_text p = p\<close>
      unfolding name_labels_def pattern_ok_def list_all_iff by (metis Join.simps(1))
    then show ?thesis using domain_pattern.literal_exact [OF p lit] str by simp
  qed
  then show ?thesis using Parse_String [OF ok] by blast
qed

theorem domain_pattern_roundtrip_witness:
  "DomainNamePattern_Parse (DomainNamePattern_String [''example'', ''com'']) = Inr [''example'', ''com''] \<and>
   DomainNamePattern_Match [''example'', ''com''] ''example.com.''"
  using domain_pattern_roundtrip [of "''example.com''" "[''example'', ''com'']"]
  by (simp add: DomainNamePattern_Parse_def drop_final_dot_def)

end
