(* ===== verification/Http_Context.thy ===== *)
theory Http_Context
  imports Http_Header Media_Types Domain_Names
begin

text \<open>
  A request and the context that follows it through the server: \<open>src/pkg/httputils/
  response_writer.go\<close> and \<open>src/pkg/protocols/http/request_context.go\<close>. A panic is an outcome
  of its own, with the state in which it happens, because \<open>Recover\<close> looks at it. The text of
  a URL and the elapsed time are given with the request; Unicode case mapping is the
  argument \<open>uni\<close>. Reason phrases (\<open>nethttp.StatusText\<close>) are the argument \<open>reason\<close>.
\<close>

section \<open>Panics\<close>

datatype 'a outcome = Done 'a | Panicked 'a

fun and_then :: "'a outcome \<Rightarrow> ('a \<Rightarrow> 'a outcome) \<Rightarrow> 'a outcome" where
  "and_then (Done x) f = f x"
| "and_then (Panicked x) f = Panicked x"

section \<open>The response writer\<close>

text \<open>
  \<open>rw_sent\<close> is the status and the header sent to the client, \<open>rw_out\<close> the connection the
  body goes to. \<open>net/http\<close> sends the header once; it refuses (panics on) a status that does
  not have three digits, and an informational status does not end the header. A write
  before any status sends the status 200.
\<close>

record ResponseWriter =
  rw_Status :: int
  rw_BodySize :: int
  rw_header :: http_header
  rw_sent :: "(int \<times> http_header) option"
  rw_out :: writer

definition NewResponseWriter :: "writer \<Rightarrow> ResponseWriter" where
  "NewResponseWriter w = \<lparr>rw_Status = 0, rw_BodySize = 0, rw_header = [], rw_sent = None, rw_out = w\<rparr>"

definition net_WriteHeader :: "int \<Rightarrow> ResponseWriter \<Rightarrow> ResponseWriter outcome" where
  "net_WriteHeader status w =
     (if rw_sent w \<noteq> None then Done w
      else if status < 100 \<or> status > 999 then Panicked w
      else if 100 \<le> status \<and> status \<le> 199 \<and> status \<noteq> 101 then Done w
      else Done (w\<lparr>rw_sent := Some (status, rw_header w)\<rparr>))"

definition ResponseWriter_WriteHeader :: "int \<Rightarrow> ResponseWriter \<Rightarrow> ResponseWriter outcome" where
  "ResponseWriter_WriteHeader status w = net_WriteHeader status (w\<lparr>rw_Status := status\<rparr>)"

definition ResponseWriter_Write :: "bytes \<Rightarrow> ResponseWriter \<Rightarrow> io_error option \<times> ResponseWriter" where
  "ResponseWriter_Write data w =
     (let w = (if rw_sent w = None then w\<lparr>rw_sent := Some (200, rw_header w)\<rparr> else w);
          (err, out) = Write_conn (rw_out w) data;
          n = int (length (sent out)) - int (length (sent (rw_out w)))
      in (err, w\<lparr>rw_out := out, rw_BodySize := wrap64 (rw_BodySize w + n)\<rparr>))"

section \<open>Requests\<close>

record Request =
  ReqMethod :: string
  UrlPath :: string
  UrlRawQuery :: string
  UrlHost :: string
  UrlText :: string
  ReqProto :: string
  ProtoMajor :: int
  ProtoMinor :: int
  ReqHeader :: http_header
  ReqHost :: string
  RemoteAddr :: string
  ReqTLS :: bool

text \<open>
  The context. \<open>'a\<close> is the type of authenticators; access loggers and rate limiters are
  shared with other requests, so the context holds references to them.
\<close>

record 'a RequestContext =
  ctx_Request :: Request
  ctx_Writer :: ResponseWriter
  ctx_AccessLogger :: "nat option"
  ctx_Auth :: "'a option"
  ctx_RateLimiter :: "nat option"
  ctx_ClientAddress :: IP
  ctx_Host :: string
  ctx_Subpath :: string
  ctx_ConnectionOptions :: "string list"
  ctx_UpgradeProtocols :: "string list"
  ctx_Username :: string
  ctx_Vars :: "string \<rightharpoonup> string"

definition set_var :: "string \<Rightarrow> string \<Rightarrow> 'a RequestContext \<Rightarrow> 'a RequestContext" where
  "set_var k v ctx = ctx\<lparr>ctx_Vars := (ctx_Vars ctx)(k \<mapsto> v)\<rparr>"

definition IsHTTP1x :: "Request \<Rightarrow> bool" where
  "IsHTTP1x req \<longleftrightarrow> ProtoMajor req = 1"

definition IsHTTP10 :: "Request \<Rightarrow> bool" where
  "IsHTTP10 req \<longleftrightarrow> ProtoMajor req = 1 \<and> ProtoMinor req = 0"

definition initSubpath :: "Request \<Rightarrow> string" where
  "initSubpath req =
     (let subpath = UrlPath req in
      if length subpath > 0 \<and> hd subpath = CHR ''/'' then tl subpath else subpath)"

definition initConnectionOptions :: "(string \<Rightarrow> string) \<Rightarrow> Request \<Rightarrow> string list" where
  "initConnectionOptions uni req = SplitTokenList uni (Get (ReqHeader req) ''Connection'') True"

definition initUpgradeProtocols :: "(string \<Rightarrow> string) \<Rightarrow> Request \<Rightarrow> string list" where
  "initUpgradeProtocols uni req =
     (if IsHTTP10 req then []
      else if \<not> IsHTTP1x req then []
      else if ''upgrade'' \<notin> set (initConnectionOptions uni req) then []
      else SplitTokenList uni (Get (ReqHeader req) ''Upgrade'') False)"

definition initVars :: "(string \<Rightarrow> string) \<Rightarrow> Request \<Rightarrow> (string \<rightharpoonup> string)" where
  "initVars uni req = [
     ''http.request.method'' \<mapsto> ToUpper uni (ReqMethod req),
     ''http.request.uri'' \<mapsto> UrlText req,
     ''http.request.path'' \<mapsto> UrlPath req,
     ''http.request.query'' \<mapsto> UrlRawQuery req]"

definition NewRequestContext :: "(string \<Rightarrow> string) \<Rightarrow> Request \<Rightarrow> writer \<Rightarrow> 'a RequestContext" where
  "NewRequestContext uni req w = \<lparr>
     ctx_Request = req, ctx_Writer = NewResponseWriter w,
     ctx_AccessLogger = None, ctx_Auth = None, ctx_RateLimiter = None,
     ctx_ClientAddress = [], ctx_Host = [],
     ctx_Subpath = initSubpath req,
     ctx_ConnectionOptions = initConnectionOptions uni req,
     ctx_UpgradeProtocols = initUpgradeProtocols uni req,
     ctx_Username = [], ctx_Vars = initVars uni req\<rparr>"

section \<open>Identification\<close>

definition IdentifyClient :: "'a RequestContext \<Rightarrow> address_error option \<times> 'a RequestContext" where
  "IdentifyClient ctx = (case ParseNumericAddress (RemoteAddr (ctx_Request ctx)) of
     Inl e \<Rightarrow> (Some e, ctx)
   | Inr (addr, _) \<Rightarrow>
       (None, set_var ''http.client_address'' (IP_String addr) (ctx\<lparr>ctx_ClientAddress := addr\<rparr>)))"

definition IdentifyRequestHost :: "'a RequestContext \<Rightarrow> host_error option \<times> 'a RequestContext" where
  "IdentifyRequestHost ctx =
     (let req = ctx_Request ctx;
          hostAddr = (if ReqHost req = [] then UrlHost req else ReqHost req)
      in case ParseHostHeaderField hostAddr of
           Inl e \<Rightarrow> (Some e, ctx)
         | Inr host \<Rightarrow> (None, set_var ''http.request.host'' host (ctx\<lparr>ctx_Host := host\<rparr>)))"

section \<open>Replies\<close>

text \<open>\<open>Reply\<close> with a body, which is empty or absent for \<open>None\<close>. A failing write is only logged.\<close>

definition set_header :: "string \<Rightarrow> string \<Rightarrow> 'a RequestContext \<Rightarrow> 'a RequestContext" where
  "set_header name value ctx =
     ctx\<lparr>ctx_Writer := (ctx_Writer ctx)\<lparr>rw_header := SetField (rw_header (ctx_Writer ctx)) name value\<rparr>\<rparr>"

definition add_header :: "string \<Rightarrow> string \<Rightarrow> 'a RequestContext \<Rightarrow> 'a RequestContext" where
  "add_header name value ctx =
     ctx\<lparr>ctx_Writer := (ctx_Writer ctx)\<lparr>rw_header := AddField (rw_header (ctx_Writer ctx)) name value\<rparr>\<rparr>"

definition Reply :: "int \<Rightarrow> string option \<Rightarrow> 'a RequestContext \<Rightarrow> 'a RequestContext outcome" where
  "Reply status data ctx =
     (let ctx = set_var ''http.response.status'' (Itoa status) ctx in
      case ResponseWriter_WriteHeader status (ctx_Writer ctx) of
        Panicked w \<Rightarrow> Panicked (ctx\<lparr>ctx_Writer := w\<rparr>)
      | Done w \<Rightarrow>
          Done (ctx\<lparr>ctx_Writer := (case data of
            None \<Rightarrow> w
          | Some body \<Rightarrow> if body = [] then w else snd (ResponseWriter_Write (bytes_of body) w))\<rparr>))"

definition ReplyError2 :: "int \<Rightarrow> string \<Rightarrow> 'a RequestContext \<Rightarrow> 'a RequestContext outcome" where
  "ReplyError2 status msg ctx =
     Reply status (Some (msg @ [CHR 0x0A])) (set_header ''Content-Type'' (MediaType_String MediaTypeText) ctx)"

definition ReplyError :: "(int \<Rightarrow> string) \<Rightarrow> int \<Rightarrow> 'a RequestContext \<Rightarrow> 'a RequestContext outcome" where
  "ReplyError reason status ctx = ReplyError2 status (Itoa status @ '' '' @ reason status) ctx"

text \<open>A client that sends no range accepts everything; this default range has the quality 0.\<close>

definition AcceptedMediaRanges ::
  "(string \<Rightarrow> quality option) \<Rightarrow> (string \<Rightarrow> string) \<Rightarrow> 'a RequestContext \<Rightarrow> MediaRange list" where
  "AcceptedMediaRanges parse_float uni ctx =
     accepted_ranges parse_float uni (Get (ReqHeader (ctx_Request ctx)) ''Accept'')"

definition ctx_NegotiateMediaType ::
  "(string \<Rightarrow> quality option) \<Rightarrow> (string \<Rightarrow> string) \<Rightarrow> (MediaRange list \<Rightarrow> MediaRange list) \<Rightarrow>
     MediaType list \<Rightarrow> 'a RequestContext \<Rightarrow> MediaType option" where
  "ctx_NegotiateMediaType parse_float uni sorter supported ctx =
     (let ranges = AcceptedMediaRanges parse_float uni ctx in
      NegotiateMediaType sorter
        (if length ranges = 0 then [\<lparr>mr_Type = [], mr_Subtype = [], mr_Quality = Finite 0, mr_Parameters = []\<rparr>]
         else ranges) supported)"

text \<open>\<open>Recover\<close> at the end of the request: a panic before any status is an internal error.\<close>

definition Recover :: "(int \<Rightarrow> string) \<Rightarrow> 'a RequestContext outcome \<Rightarrow> 'a RequestContext" where
  "Recover reason r = (case r of
     Done ctx \<Rightarrow> ctx
   | Panicked ctx \<Rightarrow>
       if rw_Status (ctx_Writer ctx) = 0 then
         (case ReplyError reason 500 ctx of Done ctx' \<Rightarrow> ctx' | Panicked ctx' \<Rightarrow> ctx')
       else ctx)"

section \<open>Lemmas\<close>

lemma set_var_simps [simp]:
  "ctx_Request (set_var k v ctx) = ctx_Request ctx" "ctx_Writer (set_var k v ctx) = ctx_Writer ctx"
  "ctx_Auth (set_var k v ctx) = ctx_Auth ctx" "ctx_RateLimiter (set_var k v ctx) = ctx_RateLimiter ctx"
  "ctx_ClientAddress (set_var k v ctx) = ctx_ClientAddress ctx" "ctx_Host (set_var k v ctx) = ctx_Host ctx"
  "ctx_Subpath (set_var k v ctx) = ctx_Subpath ctx" "ctx_AccessLogger (set_var k v ctx) = ctx_AccessLogger ctx"
  "ctx_Username (set_var k v ctx) = ctx_Username ctx"
  by (simp_all add: set_var_def)

lemma set_header_simps [simp]:
  "ctx_Request (set_header k v ctx) = ctx_Request ctx" "ctx_Auth (set_header k v ctx) = ctx_Auth ctx"
  "ctx_Vars (set_header k v ctx) = ctx_Vars ctx" "ctx_Host (set_header k v ctx) = ctx_Host ctx"
  "ctx_RateLimiter (set_header k v ctx) = ctx_RateLimiter ctx"
  "ctx_ClientAddress (set_header k v ctx) = ctx_ClientAddress ctx"
  "rw_sent (ctx_Writer (set_header k v ctx)) = rw_sent (ctx_Writer ctx)"
  "rw_Status (ctx_Writer (set_header k v ctx)) = rw_Status (ctx_Writer ctx)"
  by (simp_all add: set_header_def)

text \<open>What the client has received of the response so far.\<close>

definition client_status :: "'a RequestContext \<Rightarrow> int option" where
  "client_status ctx = map_option fst (rw_sent (ctx_Writer ctx))"

lemma Reply_sent:
  assumes "client_status ctx = None" "200 \<le> status" "status \<le> 999"
  shows "\<exists>ctx'. Reply status data ctx = Done ctx' \<and> client_status ctx' = Some status \<and>
    rw_Status (ctx_Writer ctx') = status \<and>
    map_option snd (rw_sent (ctx_Writer ctx')) = Some (rw_header (ctx_Writer ctx)) \<and> ctx_Auth ctx' = ctx_Auth ctx \<and>
    ctx_Request ctx' = ctx_Request ctx"
  using assms
  by (auto simp: Reply_def client_status_def ResponseWriter_WriteHeader_def net_WriteHeader_def
      ResponseWriter_Write_def Let_def set_var_def split: option.split prod.split)

lemma ReplyError2_sent:
  assumes "client_status ctx = None" "200 \<le> status" "status \<le> 999"
  shows "\<exists>ctx'. ReplyError2 status msg ctx = Done ctx' \<and> client_status ctx' = Some status \<and>
    rw_Status (ctx_Writer ctx') = status \<and> ctx_Auth ctx' = ctx_Auth ctx \<and> ctx_Request ctx' = ctx_Request ctx"
  using Reply_sent [of "set_header ''Content-Type'' (MediaType_String MediaTypeText) ctx" status "Some (msg @ [CHR 0x0A])"] assms
  unfolding ReplyError2_def client_status_def by auto

end
