(* ===== verification/Format_String.thy ===== *)
theory Format_String
  imports Prelude
begin

text \<open>
  Format strings, \<open>src/pkg/boulevard/format_string.go\<close>: text with \<open>{variable}\<close> and
  \<open>{variable:default}\<close> blocks, expanded for each request, and \<open>${VARIABLE}\<close> blocks, replaced
  when the configuration is read. The environment is the argument \<open>env\<close>. A name is validated
  rune by rune in the source; every byte that is not ASCII belongs to a rune that is refused.
\<close>

section \<open>The model\<close>

datatype FormatStringPart = Constant string | Variable string string

record FormatString =
  fs_Value :: string
  fs_parts :: "FormatStringPart list"
  fs_lenHint :: nat

datatype format_error =
    TruncatedEscape
  | InvalidEscape
  | TruncatedEnvBlock
  | InvalidAfterDollar char
  | InvalidEnvName string
  | UnknownEnvVariable string
  | TruncatedVariableBlock
  | InvalidVariableName string
  | FormatTypeError

definition validateFormatStringVariableName :: "string \<Rightarrow> bool" where
  "validateFormatStringVariableName name \<longleftrightarrow> list_all (\<lambda>c. let n = of_char c :: nat in
     (97 \<le> n \<and> n \<le> 122) \<or> (48 \<le> n \<and> n \<le> 57) \<or> c = CHR ''_'' \<or> c = CHR ''.'') name"

definition validateEnvironmentVariableName :: "string \<Rightarrow> bool" where
  "validateEnvironmentVariableName name \<longleftrightarrow> list_all (\<lambda>c. let n = of_char c :: nat in
     (65 \<le> n \<and> n \<le> 90) \<or> (48 \<le> n \<and> n \<le> 57) \<or> c = CHR ''_'') name"

abbreviation backslash :: char where
  "backslash \<equiv> CHR 0x5C"

definition special :: "char \<Rightarrow> bool" where
  "special c \<longleftrightarrow> c = backslash \<or> c = CHR ''$'' \<or> c = CHR ''{''"

text \<open>The parts and the length hint of the rest, after one more part.\<close>

definition add_part ::
  "FormatStringPart \<Rightarrow> nat \<Rightarrow> format_error + (FormatStringPart list \<times> nat) \<Rightarrow>
     format_error + (FormatStringPart list \<times> nat)" where
  "add_part part hint r = (case r of Inl e \<Rightarrow> Inl e | Inr (ps, n) \<Rightarrow> Inr (part # ps, hint + n))"

lemma add_part_simps [simp]:
  "add_part p n (Inl e) = Inl e" "add_part p n (Inr (ps, k)) = Inr (p # ps, n + k)"
  by (simp_all add: add_part_def)

text \<open>The block between braces: the name and the default value after the first colon.\<close>

definition variable_block :: "string \<Rightarrow> string \<times> string" where
  "variable_block body = (case IndexByte body CHR '':'' of
     Some colon \<Rightarrow> (take colon body, drop (colon + 1) body)
   | None \<Rightarrow> (body, []))"

function format_loop :: "(string \<rightharpoonup> string) \<Rightarrow> string \<Rightarrow> format_error + (FormatStringPart list \<times> nat)" where
  "format_loop env [] = Inr ([], 0)"
| "format_loop env (c # cs) =
     (if c = backslash then
        (if cs = [] then Inl TruncatedEscape
         else if hd cs \<noteq> CHR ''$'' \<and> hd cs \<noteq> CHR ''{'' then Inl InvalidEscape
         else add_part (Constant [c, hd cs]) 2 (format_loop env (tl cs)))
      else if c = CHR ''$'' then
        (if cs = [] then Inl TruncatedEnvBlock
         else if hd cs \<noteq> CHR ''{'' then Inl (InvalidAfterDollar (hd cs))
         else case IndexByte (tl cs) CHR ''}'' of
                None \<Rightarrow> Inl TruncatedEnvBlock
              | Some i \<Rightarrow>
                  let name = take i (tl cs) in
                  if \<not> validateEnvironmentVariableName name then Inl (InvalidEnvName name)
                  else case env name of
                         None \<Rightarrow> Inl (UnknownEnvVariable name)
                       | Some v \<Rightarrow> add_part (Constant v) (length v) (format_loop env (drop (i + 1) (tl cs))))
      else if c = CHR ''{'' then
        (case IndexByte cs CHR ''}'' of
           None \<Rightarrow> Inl TruncatedVariableBlock
         | Some i \<Rightarrow>
             let (name, def) = variable_block (take i cs) in
             if \<not> validateFormatStringVariableName name then Inl (InvalidVariableName name)
             else add_part (Variable name def) 16 (format_loop env (drop (i + 1) cs)))
      else let chunk = takeWhile (\<lambda>x. \<not> special x) (c # cs) in
        add_part (Constant chunk) (length chunk) (format_loop env (dropWhile (\<lambda>x. \<not> special x) cs)))"
  by pat_completeness auto
termination
  by (relation "measure (\<lambda>(env, s). length s)") (auto simp: length_dropWhile_le le_imp_less_Suc)

definition FormatString_Parse :: "(string \<rightharpoonup> string) \<Rightarrow> string \<Rightarrow> format_error + FormatString" where
  "FormatString_Parse env value = (case format_loop env value of
     Inl e \<Rightarrow> Inl e
   | Inr (ps, n) \<Rightarrow> Inr \<lparr>fs_Value = value, fs_parts = ps, fs_lenHint = n\<rparr>)"

text \<open>The content of a BCL string or symbol; \<open>None\<close> is any other value.\<close>

definition FormatString_ReadBCLValue ::
  "(string \<rightharpoonup> string) \<Rightarrow> string option \<Rightarrow> format_error + FormatString" where
  "FormatString_ReadBCLValue env v = (case v of
     None \<Rightarrow> Inl FormatTypeError | Some s \<Rightarrow> FormatString_Parse env s)"

text \<open>A missing variable and an empty one both take the default value (\<open>cmp.Or\<close>).\<close>

fun expand_part :: "(string \<rightharpoonup> string) \<Rightarrow> FormatStringPart \<Rightarrow> string" where
  "expand_part vars (Constant v) = v"
| "expand_part vars (Variable name def) = (case vars name of
     Some v \<Rightarrow> if v = [] then def else v
   | None \<Rightarrow> def)"

definition FormatString_Expand :: "FormatString \<Rightarrow> (string \<rightharpoonup> string) \<Rightarrow> string" where
  "FormatString_Expand s vars = concat (map (expand_part vars) (fs_parts s))"

section \<open>Writing format strings\<close>

text \<open>The text of a sequence of parts, and when the parser can give the sequence back:
  constants are not empty, have no special character and do not follow one another.\<close>

fun render_part :: "FormatStringPart \<Rightarrow> string" where
  "render_part (Constant v) = v"
| "render_part (Variable name def) = ''{'' @ name @ (if def = [] then [] else '':'' @ def) @ ''}''"

definition render :: "FormatStringPart list \<Rightarrow> string" where
  "render ps = concat (map render_part ps)"

fun part_ok :: "FormatStringPart \<Rightarrow> bool" where
  "part_ok (Constant v) \<longleftrightarrow> v \<noteq> [] \<and> list_all (\<lambda>c. \<not> special c) v"
| "part_ok (Variable name def) \<longleftrightarrow> validateFormatStringVariableName name \<and> CHR ''}'' \<notin> set def"

fun parts_ok :: "FormatStringPart list \<Rightarrow> bool" where
  "parts_ok [] = True"
| "parts_ok [p] = part_ok p"
| "parts_ok (Constant v # Constant w # ps) = False"
| "parts_ok (p # q # ps) \<longleftrightarrow> part_ok p \<and> parts_ok (q # ps)"

lemma variable_name_chars:
  "validateFormatStringVariableName name \<Longrightarrow> CHR ''}'' \<notin> set name \<and> CHR '':'' \<notin> set name"
  by (auto simp: validateFormatStringVariableName_def list_all_iff Let_def)

lemma format_loop_variable:
  assumes "part_ok (Variable name def)"
  shows "format_loop env (render_part (Variable name def) @ s) = add_part (Variable name def) 16 (format_loop env s)"
proof -
  let ?body = "name @ (if def = [] then [] else '':'' @ def)"
  have n: "CHR ''}'' \<notin> set name" "CHR '':'' \<notin> set name" "CHR ''}'' \<notin> set def"
    "validateFormatStringVariableName name"
    using assms variable_name_chars [of name] by auto
  have "IndexByte (?body @ CHR ''}'' # s) CHR ''}'' = Some (length ?body)"
    using n by (intro IndexByte_append) auto
  moreover have "variable_block ?body = (name, def)"
    using n(2) by (simp add: variable_block_def)
  ultimately show ?thesis using n(4) by simp
qed

lemma format_loop_constant:
  assumes "part_ok (Constant v)" "s = [] \<or> special (hd s)"
  shows "format_loop env (v @ s) = add_part (Constant v) (length v) (format_loop env s)"
proof -
  obtain c cs where v: "v = c # cs" "\<not> special c" "\<forall>x \<in> set cs. \<not> special x"
    using assms(1) by (cases v) (auto simp: list_all_iff)
  have "takeWhile (\<lambda>x. \<not> special x) (cs @ s) = cs" "dropWhile (\<lambda>x. \<not> special x) (cs @ s) = s"
    using v(3) assms(2) by (cases s; auto)+
  then show ?thesis using v by (simp add: special_def)
qed

text \<open>The parser gives back the parts, and its length hint counts 16 for a variable.\<close>

fun part_hint :: "FormatStringPart \<Rightarrow> nat" where
  "part_hint (Constant v) = length v"
| "part_hint (Variable _ _) = 16"

lemma render_hd_variable: "special (hd (render (Variable n d # ps)))"
  by (simp add: render_def special_def)

lemma format_loop_render: "parts_ok ps \<Longrightarrow> format_loop env (render ps) = Inr (ps, sum_list (map part_hint ps))"
proof (induction ps rule: parts_ok.induct, goal_cases)
  case 1
  then show ?case by (simp add: render_def)
next
  case (2 p)
  then show ?case
    using format_loop_constant [of _ "[]" env] format_loop_variable [of _ _ env "[]"]
    by (cases p) (auto simp: render_def)
next
  case (3 v w ps)
  then show ?case by simp
next
  case (4 name def q ps)
  then show ?case
    using format_loop_variable [of name "def" env "render (q # ps)"] by (simp add: render_def)
next
  case (5 p n d ps)
  then have IH: "format_loop env (render (Variable n d # ps)) =
      Inr (Variable n d # ps, 16 + sum_list (map part_hint ps))" and p: "part_ok p" by auto
  have r: "render (p # Variable n d # ps) = render_part p @ render (Variable n d # ps)"
    by (simp add: render_def)
  show ?case
  proof (cases p)
    case (Constant v)
    then show ?thesis
      unfolding r using format_loop_constant [of v "render (Variable n d # ps)" env] p IH render_hd_variable by simp
  next
    case (Variable a b)
    then show ?thesis
      unfolding r using format_loop_variable [of a b env "render (Variable n d # ps)"] p IH
      by (simp del: render_part.simps)
  qed
qed

section \<open>Properties\<close>

text \<open>A format string written from a sequence of constants and variables, with or without
  default values, parses in any environment to this sequence, and expands to the constants
  and the values of the variables in order: a value is copied as it is, and a variable that
  is missing or empty takes its default value.\<close>

theorem format_string_roundtrip:
  assumes "parts_ok ps"
  shows "\<exists>fs. FormatString_Parse env (render ps) = Inr fs \<and> fs_parts fs = ps \<and>
    (\<forall>vars. FormatString_Expand fs vars = concat (map (expand_part vars) ps))"
  using format_loop_render [OF assms, of env] by (simp add: FormatString_Parse_def FormatString_Expand_def)

theorem format_string_roundtrip_witness:
  "\<exists>fs. FormatString_Parse Map.empty ''id {a:x}!'' = Inr fs \<and>
    FormatString_Expand fs [''a'' \<mapsto> ''{b}''] = ''id {b}!''"
  using format_string_roundtrip [of "[Constant ''id '', Variable ''a'' ''x'', Constant ''!'']" Map.empty]
  by (auto simp: render_def special_def validateFormatStringVariableName_def)

end
