(* ===== verification/Access_Logger.thy ===== *)
theory Access_Logger
  imports Http_Context Format_String
begin

text \<open>
  The access logs, \<open>src/pkg/protocols/http/access_logger.go\<close>. Opening a file is the argument
  \<open>open_file\<close>, the text of the current time the argument \<open>time\<close> and the verb \<open>%q\<close> of \<open>fmt\<close> the
  argument \<open>quote\<close>. \<open>al_closed\<close> are the files the logger has closed.
\<close>

section \<open>The logger\<close>

record AccessLoggerCfg =
  AlPath :: FormatString
  AlFormat :: FormatString

record AccessLogger =
  al_Cfg :: AccessLoggerCfg
  al_filePath :: string
  al_file :: "writer option"
  al_closed :: "writer list"

definition AccessLogger_Reopen ::
  "(string \<Rightarrow> io_error + writer) \<Rightarrow> AccessLogger \<Rightarrow> io_error option \<times> AccessLogger" where
  "AccessLogger_Reopen open_file l = (case open_file (al_filePath l) of
     Inl e \<Rightarrow> (Some e, l)
   | Inr f \<Rightarrow> (None, l\<lparr>al_file := Some f,
       al_closed := (case al_file l of None \<Rightarrow> al_closed l | Some old \<Rightarrow> al_closed l @ [old])\<rparr>))"

definition NewAccessLogger ::
  "(string \<Rightarrow> io_error + writer) \<Rightarrow> AccessLoggerCfg \<Rightarrow> (string \<rightharpoonup> string) \<Rightarrow> io_error + AccessLogger" where
  "NewAccessLogger open_file cfg vars =
     (case AccessLogger_Reopen open_file \<lparr>al_Cfg = cfg, al_filePath = FormatString_Expand (AlPath cfg) vars,
         al_file = None, al_closed = []\<rparr> of
        (Some e, _) \<Rightarrow> Inl e
      | (None, l) \<Rightarrow> Inr l)"

definition AccessLogger_Close :: "AccessLogger \<Rightarrow> AccessLogger" where
  "AccessLogger_Close l = (case al_file l of
     None \<Rightarrow> l | Some f \<Rightarrow> l\<lparr>al_closed := al_closed l @ [f]\<rparr>)"

section \<open>Messages\<close>

definition formatMsgCommon :: "string \<Rightarrow> 'a RequestContext \<Rightarrow> string" where
  "formatMsgCommon time ctx =
     (let req = ctx_Request ctx; w = ctx_Writer ctx in
      (if ctx_ClientAddress ctx = [] then ''-'' else IP_String (ctx_ClientAddress ctx)) @
      '' '' @ ''-'' @
      '' '' @ (if ctx_Username ctx \<noteq> [] then ctx_Username ctx else ''-'') @
      '' '' @ ''['' @ time @ '']'' @
      '' '' @ [CHR 0x22] @ ReqMethod req @ '' '' @ UrlPath req @ '' '' @ ReqProto req @ [CHR 0x22] @
      '' '' @ (if rw_Status w = 0 then ''-'' else Itoa (rw_Status w)) @
      '' '' @ Itoa (rw_BodySize w))"

definition quoted_field :: "(string \<Rightarrow> string) \<Rightarrow> http_header \<Rightarrow> string \<Rightarrow> string" where
  "quoted_field quote h name = (if Get h name = [] then ''-'' else quote (Get h name))"

definition formatMsgCombined :: "(string \<Rightarrow> string) \<Rightarrow> string \<Rightarrow> 'a RequestContext \<Rightarrow> string" where
  "formatMsgCombined quote time ctx =
     formatMsgCommon time ctx @
     '' '' @ quoted_field quote (ReqHeader (ctx_Request ctx)) ''Referer'' @
     '' '' @ quoted_field quote (ReqHeader (ctx_Request ctx)) ''User-Agent''"

definition log_message :: "(string \<Rightarrow> string) \<Rightarrow> string \<Rightarrow> AccessLoggerCfg \<Rightarrow> 'a RequestContext \<Rightarrow> string" where
  "log_message quote time cfg ctx =
     (if fs_Value (AlFormat cfg) = ''common'' then formatMsgCommon time ctx
      else if fs_Value (AlFormat cfg) = ''combined'' then formatMsgCombined quote time ctx
      else FormatString_Expand (AlFormat cfg) (ctx_Vars ctx)) @ [CHR 0x0A]"

text \<open>A logger has no file only inside \<open>NewAccessLogger\<close>, before its first \<open>Reopen\<close>.\<close>

definition AccessLogger_Log ::
  "(string \<Rightarrow> string) \<Rightarrow> string \<Rightarrow> 'a RequestContext \<Rightarrow> AccessLogger \<Rightarrow> io_error option \<times> AccessLogger" where
  "AccessLogger_Log quote time ctx l = (case al_file l of
     None \<Rightarrow> (Some ErrClosed, l)
   | Some f \<Rightarrow> (case Write_conn f (bytes_of (log_message quote time (al_Cfg l) ctx)) of
       (err, f) \<Rightarrow> (err, l\<lparr>al_file := Some f\<rparr>)))"

section \<open>Lines\<close>

definition newlines :: "string \<Rightarrow> nat" where
  "newlines s = length (filter ((=) CHR 0x0A) s)"

lemma newlines_simps [simp]:
  "newlines [] = 0" "newlines (c # s) = (if c = CHR 0x0A then Suc (newlines s) else newlines s)"
  "newlines (s @ t) = newlines s + newlines t"
  by (simp_all add: newlines_def)

lemma newlines_0: "newlines s = 0 \<longleftrightarrow> CHR 0x0A \<notin> set s"
  by (auto simp: newlines_def filter_empty_conv)

lemma dec_nat_newline [simp]: "newlines (dec_nat n) = 0"
  using dec_nat_digits [of n] by (auto simp: newlines_0 list_all_iff is_digit_def)

lemma Itoa_newline [simp]: "newlines (Itoa i) = 0"
  by (simp add: Itoa_def)

lemma newline_char_of: "n < 256 \<Longrightarrow> CHR 0x0A = char_of n \<longleftrightarrow> n = (10 :: nat)"
proof -
  assume n: "n < 256"
  have "CHR 0x0A = char_of n \<longleftrightarrow> of_char CHR 0x0A = (of_char (char_of n) :: nat)"
    by (simp only: of_char_eq_iff)
  then show ?thesis using n by (auto simp: of_char_of)
qed

lemma hex_digit_newline [simp]: "d < 16 \<Longrightarrow> CHR 0x0A \<noteq> hex_digit d"
  by (auto simp: hex_digit_def newline_char_of)

lemma hex_nat_newline [simp]: "newlines (hex_nat n) = 0"
proof (induction n rule: less_induct)
  case (less n)
  then show ?case
    using hex_digit_newline [of n] hex_digit_newline [of "n mod 16"] hex_nat.simps [of n]
    by (auto simp del: hex_digit_newline split: if_splits)
qed

lemma hex_byte_newline [simp]: "newlines (hex_byte b) = 0"
proof -
  have "unat b div 16 < 16" "unat b mod 16 < 16" using unsigned_less [of b, where 'a = nat] by simp_all
  then show ?thesis using hex_digit_newline [of "unat b div 16"] hex_digit_newline [of "unat b mod 16"]
    by (auto simp: hex_byte_def simp del: hex_digit_newline)
qed

lemma newlines_Join: "\<lbrakk>\<forall>p \<in> set ps. newlines p = 0; newlines sep = 0\<rbrakk> \<Longrightarrow> newlines (Join ps sep) = 0"
  by (induction ps sep rule: Join.induct) simp_all

lemma IP_String_newline [simp]: "newlines (IP_String ip) = 0"
proof -
  have "newlines (dotted p) = 0" for p by (auto simp: dotted_def intro!: newlines_Join)
  moreover have "newlines (join_groups gs) = 0" for gs by (auto simp: join_groups_def intro!: newlines_Join)
  moreover have "newlines (concat (map hex_byte ip)) = 0" by (induction ip) simp_all
  ultimately show ?thesis by (auto simp: IP_String_def v6_string_def Let_def split: option.split)
qed

section \<open>Properties\<close>

text \<open>In the common and the combined format a request writes one line, and one more for every
  line end in its method, its decoded path, its protocol and the user name: these are written
  as they are, so a client can add lines of its own to the log with a path such as
  \<open>/%0A\<close>, while the quoted header fields cannot.\<close>

theorem access_log_lines:
  assumes "fs_Value (AlFormat (al_Cfg l)) \<in> {''common'', ''combined''}"
    and "newlines time = 0" "\<And>s. newlines (quote s) = 0"
    and "al_file l = Some f" "room f = None"
  shows "\<exists>text f'. AccessLogger_Log quote time ctx l = (None, l\<lparr>al_file := Some f'\<rparr>) \<and>
    sent f' = sent f @ bytes_of text \<and> last text = CHR 0x0A \<and>
    newlines text = Suc (newlines (ReqMethod (ctx_Request ctx)) + newlines (UrlPath (ctx_Request ctx)) +
      newlines (ReqProto (ctx_Request ctx)) + newlines (ctx_Username ctx))"
proof -
  have common: "newlines (formatMsgCommon time ctx) = newlines (ReqMethod (ctx_Request ctx)) +
      newlines (UrlPath (ctx_Request ctx)) + newlines (ReqProto (ctx_Request ctx)) + newlines (ctx_Username ctx)"
    using assms(2) by (auto simp: formatMsgCommon_def Let_def)
  moreover have "newlines (quoted_field quote h name) = 0" for h name
    using assms(3) by (simp add: quoted_field_def)
  ultimately have "newlines (log_message quote time (al_Cfg l) ctx) =
      Suc (newlines (ReqMethod (ctx_Request ctx)) + newlines (UrlPath (ctx_Request ctx)) +
      newlines (ReqProto (ctx_Request ctx)) + newlines (ctx_Username ctx))"
    using assms(1) by (auto simp: log_message_def formatMsgCombined_def)
  moreover have "last (log_message quote time (al_Cfg l) ctx) = CHR 0x0A" by (simp add: log_message_def)
  ultimately show ?thesis using assms(4,5)
    by (intro exI [of _ "log_message quote time (al_Cfg l) ctx"]
        exI [of _ "f\<lparr>sent := sent f @ bytes_of (log_message quote time (al_Cfg l) ctx)\<rparr>"])
      (simp add: AccessLogger_Log_def)
qed

definition demo_logger :: AccessLogger where
  "demo_logger = \<lparr>al_Cfg = \<lparr>AlPath = \<lparr>fs_Value = ''log'', fs_parts = [Constant ''log''], fs_lenHint = 3\<rparr>,
     AlFormat = \<lparr>fs_Value = ''common'', fs_parts = [Constant ''common''], fs_lenHint = 6\<rparr>\<rparr>,
     al_filePath = ''log'', al_file = Some \<lparr>sent = [], room = None, werr = EOF\<rparr>, al_closed = []\<rparr>"

lemma access_log_lines_witness:
  "\<exists>text f'. AccessLogger_Log (\<lambda>_. [CHR 0x22, CHR 0x22]) ''now''
      (NewRequestContext id \<lparr>ReqMethod = ''GET'', UrlPath = ''/a'' @ [CHR 0x0A] @ ''b'', UrlRawQuery = [],
        UrlHost = [], UrlText = ''/a%0Ab'', ReqProto = ''HTTP/1.1'', ProtoMajor = 1, ProtoMinor = 1, ReqHeader = [],
        ReqHost = ''localhost'', RemoteAddr = ''10.0.0.1:4000'', ReqTLS = False\<rparr>
        \<lparr>sent = [], room = None, werr = EOF\<rparr> :: nat RequestContext) demo_logger =
      (None, demo_logger\<lparr>al_file := Some f'\<rparr>) \<and>
    sent f' = bytes_of text \<and> newlines text = 2"
  using access_log_lines [of demo_logger "''now''" "\<lambda>_. [CHR 0x22, CHR 0x22]"
      "\<lparr>sent = [], room = None, werr = EOF\<rparr>"
      "NewRequestContext id \<lparr>ReqMethod = ''GET'', UrlPath = ''/a'' @ [CHR 0x0A] @ ''b'', UrlRawQuery = [],
        UrlHost = [], UrlText = ''/a%0Ab'', ReqProto = ''HTTP/1.1'', ProtoMajor = 1, ProtoMinor = 1, ReqHeader = [],
        ReqHost = ''localhost'', RemoteAddr = ''10.0.0.1:4000'', ReqTLS = False\<rparr>
        \<lparr>sent = [], room = None, werr = EOF\<rparr> :: nat RequestContext"]
  by (auto simp: demo_logger_def NewRequestContext_def)

end
