(* ===== verification/Http_Auth.thy ===== *)
theory Http_Auth
  imports Http_Context
begin

text \<open>
  Authentication: \<open>src/pkg/protocols/http/auth.go\<close>, \<open>auth_basic.go\<close> and \<open>auth_bearer.go\<close>.
  The hash functions come from libraries: \<open>hash\<close> and \<open>hmac\<close> are arguments of the model, for
  each algorithm. So are \<open>quote\<close>, the \<open>%q\<close> verb of \<open>fmt\<close>, and the Unicode case mapping \<open>uni\<close>.
  A map of secrets is the list of its keys.
\<close>

section \<open>Base64\<close>

definition b64_value :: "char \<Rightarrow> nat option" where
  "b64_value c = (let n = of_char c :: nat in
     if 65 \<le> n \<and> n \<le> 90 then Some (n - 65)
     else if 97 \<le> n \<and> n \<le> 122 then Some (n - 71)
     else if 48 \<le> n \<and> n \<le> 57 then Some (n + 4)
     else if c = CHR ''+'' then Some 62
     else if c = CHR ''/'' then Some 63
     else None)"

definition b64_byte1 :: "nat \<Rightarrow> nat \<Rightarrow> byte" where
  "b64_byte1 va vb = word_of_nat (va * 4 + vb div 16)"

definition b64_byte2 :: "nat \<Rightarrow> nat \<Rightarrow> byte" where
  "b64_byte2 vb vc = word_of_nat (vb * 16 + vc div 4)"

definition b64_byte3 :: "nat \<Rightarrow> nat \<Rightarrow> byte" where
  "b64_byte3 vc vd = word_of_nat (vc * 64 + vd)"

fun b64_quanta :: "string \<Rightarrow> bytes option" where
  "b64_quanta [] = Some []"
| "b64_quanta (a # b # c # d # rest) =
     (case (b64_value a, b64_value b) of
        (Some va, Some vb) \<Rightarrow>
          if c = CHR ''='' then
            (if d = CHR ''='' \<and> rest = [] then Some [b64_byte1 va vb] else None)
          else (case b64_value c of
            None \<Rightarrow> None
          | Some vc \<Rightarrow>
              if d = CHR ''='' then
                (if rest = [] then Some [b64_byte1 va vb, b64_byte2 vb vc] else None)
              else (case b64_value d of
                None \<Rightarrow> None
              | Some vd \<Rightarrow>
                  map_option (\<lambda>bs. b64_byte1 va vb # b64_byte2 vb vc #
                    b64_byte3 vc vd # bs) (b64_quanta rest)))
      | _ \<Rightarrow> None)"
| "b64_quanta _ = None"

text \<open>\<open>base64.StdEncoding.DecodeString\<close>, which ignores line ends.\<close>

definition DecodeString :: "string \<Rightarrow> bytes option" where
  "DecodeString s = b64_quanta (filter (\<lambda>c. c \<noteq> CHR 0x0A \<and> c \<noteq> CHR 0x0D) s)"

section \<open>Secrets\<close>

datatype HashAlgorithm = HashAlgorithmSHA256 | HashAlgorithmSHA512 | HashAlgorithmSHA3256 | HashAlgorithmSHA3512

record SecretsCfg =
  SecretsHash :: "HashAlgorithm option"
  SecretsHMAC :: "(HashAlgorithm \<times> bytes) option"

definition EncodeToString :: "bytes \<Rightarrow> string" where
  "EncodeToString bs = concat (map hex_byte bs)"

text \<open>An incomplete configuration panics, the result \<open>None\<close>.\<close>

definition transformAuthSecret ::
  "(HashAlgorithm \<Rightarrow> bytes \<Rightarrow> bytes) \<Rightarrow> (HashAlgorithm \<Rightarrow> bytes \<Rightarrow> bytes \<Rightarrow> bytes) \<Rightarrow>
     string \<Rightarrow> SecretsCfg \<Rightarrow> string option" where
  "transformAuthSecret hash hmac secret cfg = (case SecretsHash cfg of
     Some a \<Rightarrow> Some (EncodeToString (hash a (bytes_of secret)))
   | None \<Rightarrow> (case SecretsHMAC cfg of
       Some (a, key) \<Rightarrow> Some (EncodeToString (hmac a key (bytes_of secret)))
     | None \<Rightarrow> None))"

text \<open>
  \<open>loadAuthSecretFile\<close> on the content of the file: each line that ends with a newline,
  without the blanks around it (\<open>trim\<close> for a line that is not ASCII). \<open>ReadString\<close> returns the
  last line together with \<open>io.EOF\<close> when no newline ends it, and the loop leaves it out.
\<close>

definition spaces :: string where
  "spaces = [CHR '' '', CHR 0x09, CHR 0x0A, CHR 0x0B, CHR 0x0C, CHR 0x0D]"

definition TrimSpace :: "(string \<Rightarrow> string) \<Rightarrow> string \<Rightarrow> string" where
  "TrimSpace trim s = (if is_ascii s then Trim s spaces else trim s)"

definition loadAuthSecretFile :: "(string \<Rightarrow> string) \<Rightarrow> string \<Rightarrow> string list" where
  "loadAuthSecretFile trim content =
     filter (\<lambda>line. line \<noteq> []) (map (TrimSpace trim) (butlast (Split content CHR 0x0A)))"

section \<open>Authenticators\<close>

record AuthInfo =
  AuthSecrets :: SecretsCfg
  AuthRealm :: string

datatype Auth = BasicAuth AuthInfo "string list" | BearerAuth AuthInfo "string list"

text \<open>The configuration of a block: the secrets, the realm, and either the users or the tokens,
  listed or in a file.\<close>

record AuthCfg =
  CfgSecrets :: "SecretsCfg option"
  CfgRealm :: string
  CfgBasic :: "(string list \<times> string) option"
  CfgBearer :: "(string list \<times> string) option"

definition load_secrets ::
  "(string \<Rightarrow> string) \<Rightarrow> (string \<Rightarrow> io_error + string) \<Rightarrow> string list \<times> string \<Rightarrow> io_error + string list" where
  "load_secrets trim files cfg = (case cfg of (listed, filePath) \<Rightarrow>
     if filePath = [] then Inr listed
     else (case files filePath of
       Inl e \<Rightarrow> Inl e
     | Inr content \<Rightarrow> Inr (loadAuthSecretFile trim content)))"

text \<open>\<open>NewAuth\<close> and the two \<open>Init\<close> methods; a configuration with neither block panics (\<open>None\<close>).\<close>

definition NewAuth ::
  "(string \<Rightarrow> string) \<Rightarrow> (string \<Rightarrow> io_error + string) \<Rightarrow> AuthCfg \<Rightarrow> (io_error + Auth) option" where
  "NewAuth trim files cfg =
     (let secrets = (case CfgSecrets cfg of
            None \<Rightarrow> \<lparr>SecretsHash = Some HashAlgorithmSHA256, SecretsHMAC = None\<rparr> | Some s \<Rightarrow> s);
          info = \<lparr>AuthSecrets = secrets, AuthRealm = CfgRealm cfg\<rparr>
      in case CfgBasic cfg of
           Some basic \<Rightarrow> Some (case load_secrets trim files basic of Inl e \<Rightarrow> Inl e | Inr us \<Rightarrow> Inr (BasicAuth info us))
         | None \<Rightarrow> (case CfgBearer cfg of
             Some bearer \<Rightarrow> Some (case load_secrets trim files bearer of Inl e \<Rightarrow> Inl e | Inr ts \<Rightarrow> Inr (BearerAuth info ts))
           | None \<Rightarrow> None))"

datatype auth_error =
    MissingAuthorization
  | InvalidAuthorizationFormat
  | InvalidScheme string
  | CannotDecodeCredentials
  | MissingSeparator
  | InvalidCredentials
  | InvalidToken

definition setWWWAuthenticate ::
  "(string \<Rightarrow> string) \<Rightarrow> string \<Rightarrow> AuthInfo \<Rightarrow> 'a RequestContext \<Rightarrow> 'a RequestContext" where
  "setWWWAuthenticate quote scheme info ctx =
     set_header ''WWW-Authenticate''
       (scheme @ (if AuthRealm info \<noteq> [] then '' realm='' @ quote (AuthRealm info) else [])) ctx"

definition reply_with :: "int \<Rightarrow> string \<Rightarrow> auth_error \<Rightarrow> 'a RequestContext \<Rightarrow> (auth_error option \<times> 'a RequestContext) outcome" where
  "reply_with status msg err ctx = (case ReplyError2 status msg ctx of
     Done c \<Rightarrow> Done (Some err, c)
   | Panicked c \<Rightarrow> Panicked (Some err, c))"

text \<open>What both schemes begin with: the scheme of the \<open>Authorization\<close> field is checked, and
  what follows it is returned.\<close>

definition authorization_value ::
  "(string \<Rightarrow> string) \<Rightarrow> (string \<Rightarrow> string) \<Rightarrow> string \<Rightarrow> string \<Rightarrow> Request \<Rightarrow> (auth_error \<times> string) + string" where
  "authorization_value uni quote scheme lowered req =
     (let authorization = Get (ReqHeader req) ''Authorization'' in
      if authorization = [] then
        Inl (MissingAuthorization, ''missing or empty Authorization header field'')
      else case IndexByte authorization CHR '' '' of
             None \<Rightarrow> Inl (InvalidAuthorizationFormat, ''invalid authorization format'')
           | Some space \<Rightarrow>
               let s = take space authorization in
               if ToLower uni s \<noteq> lowered then
                 Inl (InvalidScheme s, ''invalid authorization scheme '' @ quote s)
               else Inr (drop (space + 1) authorization))"

definition BasicAuth_AuthenticateRequest ::
  "(HashAlgorithm \<Rightarrow> bytes \<Rightarrow> bytes) \<Rightarrow> (HashAlgorithm \<Rightarrow> bytes \<Rightarrow> bytes \<Rightarrow> bytes) \<Rightarrow>
     (string \<Rightarrow> string) \<Rightarrow> (string \<Rightarrow> string) \<Rightarrow> AuthInfo \<Rightarrow> string list \<Rightarrow> 'a RequestContext \<Rightarrow>
     (auth_error option \<times> 'a RequestContext) outcome" where
  "BasicAuth_AuthenticateRequest hash hmac uni quote info users ctx =
     (case authorization_value uni quote ''Basic'' ''basic'' (ctx_Request ctx) of
        Inl (e, msg) \<Rightarrow> reply_with 401 msg e (setWWWAuthenticate quote ''Basic'' info ctx)
      | Inr value \<Rightarrow> (case DecodeString value of
          None \<Rightarrow> reply_with 403 ''cannot decode base64-encoded credentials'' CannotDecodeCredentials ctx
        | Some data \<Rightarrow> (case Cut (string_of data) CHR '':'' of (username, password, found) \<Rightarrow>
            if \<not> found then
              reply_with 403 (''invalid authorization: missing '' @ [CHR 0x27, CHR '':'', CHR 0x27] @ '' separator'')
                MissingSeparator ctx
            else
              let ctx = set_var ''http.request.username'' username (ctx\<lparr>ctx_Username := username\<rparr>) in
              case transformAuthSecret hash hmac password (AuthSecrets info) of
                None \<Rightarrow> Panicked (None, ctx)
              | Some secret \<Rightarrow>
                  if username @ '':'' @ secret \<notin> set users then
                    reply_with 403 ''invalid credentials'' InvalidCredentials ctx
                  else Done (None, ctx))))"

definition BearerAuth_AuthenticateRequest ::
  "(HashAlgorithm \<Rightarrow> bytes \<Rightarrow> bytes) \<Rightarrow> (HashAlgorithm \<Rightarrow> bytes \<Rightarrow> bytes \<Rightarrow> bytes) \<Rightarrow>
     (string \<Rightarrow> string) \<Rightarrow> (string \<Rightarrow> string) \<Rightarrow> AuthInfo \<Rightarrow> string list \<Rightarrow> 'a RequestContext \<Rightarrow>
     (auth_error option \<times> 'a RequestContext) outcome" where
  "BearerAuth_AuthenticateRequest hash hmac uni quote info tokens ctx =
     (case authorization_value uni quote ''Bearer'' ''bearer'' (ctx_Request ctx) of
        Inl (e, msg) \<Rightarrow> reply_with 401 msg e (setWWWAuthenticate quote ''Bearer'' info ctx)
      | Inr value \<Rightarrow> (case transformAuthSecret hash hmac value (AuthSecrets info) of
          None \<Rightarrow> Panicked (None, ctx)
        | Some token \<Rightarrow>
            if token \<notin> set tokens then reply_with 403 ''invalid token'' InvalidToken ctx
            else Done (None, ctx)))"

fun AuthenticateRequest ::
  "(HashAlgorithm \<Rightarrow> bytes \<Rightarrow> bytes) \<Rightarrow> (HashAlgorithm \<Rightarrow> bytes \<Rightarrow> bytes \<Rightarrow> bytes) \<Rightarrow>
     (string \<Rightarrow> string) \<Rightarrow> (string \<Rightarrow> string) \<Rightarrow> Auth \<Rightarrow> 'a RequestContext \<Rightarrow>
     (auth_error option \<times> 'a RequestContext) outcome" where
  "AuthenticateRequest hash hmac uni quote (BasicAuth info users) ctx =
     BasicAuth_AuthenticateRequest hash hmac uni quote info users ctx"
| "AuthenticateRequest hash hmac uni quote (BearerAuth info tokens) ctx =
     BearerAuth_AuthenticateRequest hash hmac uni quote info tokens ctx"

section \<open>Base64 round trip\<close>

definition b64_char :: "nat \<Rightarrow> char" where
  "b64_char k = (if k < 26 then char_of (k + 65) else if k < 52 then char_of (k + 71)
     else if k < 62 then char_of (k - 4) else if k = 62 then CHR ''+'' else CHR ''/'')"

text \<open>What a client sends.\<close>

fun b64_encode :: "bytes \<Rightarrow> string" where
  "b64_encode [] = []"
| "b64_encode [a] = [b64_char (unat a div 4), b64_char (unat a mod 4 * 16), CHR ''='', CHR ''='']"
| "b64_encode [a, b] = [b64_char (unat a div 4), b64_char (unat a mod 4 * 16 + unat b div 16),
     b64_char (unat b mod 16 * 4), CHR ''='']"
| "b64_encode (a # b # c # rest) =
     b64_char (unat a div 4) # b64_char (unat a mod 4 * 16 + unat b div 16) #
     b64_char (unat b mod 16 * 4 + unat c div 64) # b64_char (unat c mod 64) # b64_encode rest"

lemma of_char_b64_char:
  "(of_char (b64_char k) :: nat) = (if k < 26 then k + 65 else if k < 52 then k + 71
     else if k < 62 then k - 4 else if k = 62 then 43 else 47)"
  by (simp add: b64_char_def of_char_of)

lemma b64_char_value [simp]:
  assumes "k < 64"
  shows "b64_value (b64_char k) = Some k" "b64_char k \<noteq> CHR ''=''"
    "b64_char k \<noteq> CHR 0x0A" "b64_char k \<noteq> CHR 0x0D"
proof -
  have "k = 62 \<Longrightarrow> b64_char k = CHR ''+''" "k = 63 \<Longrightarrow> b64_char k = CHR ''/''" by (simp_all add: b64_char_def)
  then show "b64_value (b64_char k) = Some k"
    using assms by (cases "k < 62"; cases "k = 62") (auto simp: b64_value_def Let_def of_char_b64_char)
  have "of_char (b64_char k) \<notin> {61, 10, 13 :: nat}" using assms by (auto simp: of_char_b64_char)
  then show "b64_char k \<noteq> CHR ''=''" "b64_char k \<noteq> CHR 0x0A" "b64_char k \<noteq> CHR 0x0D" by auto
qed

lemma unat_byte [simp]: "unat (a :: byte) < 256"
  using unsigned_less [of a] by simp

lemma b64_indices [simp]:
  "unat (a :: byte) div 4 < 64" "unat (a :: byte) mod 4 * 16 < 64" "unat (a :: byte) mod 16 * 4 < 64"
  "unat (a :: byte) mod 4 * 16 + unat (b :: byte) div 16 < 64"
  "unat (a :: byte) mod 16 * 4 + unat (b :: byte) div 64 < 64" "unat (a :: byte) mod 64 < 64"
  using unat_byte [of a] unat_byte [of b] by linarith+

lemma word_of_nat_byte: "n mod 256 = unat x \<Longrightarrow> word_of_nat n = (x :: byte)"
  by (rule word_unat_eq_iff [THEN iffD2]) (simp add: unat_of_nat)

lemma b64_first: "d < 16 \<Longrightarrow> unat a div 4 * 4 + (unat a mod 4 * 16 + d) div 16 = unat (a :: byte)"
  by simp

lemma b64_second:
  assumes "e < 4"
  shows "((m * 16 + unat b div 16) * 16 + (unat b mod 16 * 4 + e) div 4) mod 256 = unat (b :: byte)"
proof -
  have "(unat b mod 16 * 4 + e) div 4 = unat b mod 16" using assms by simp
  then have "(m * 16 + unat b div 16) * 16 + (unat b mod 16 * 4 + e) div 4 = unat b + 256 * m" by simp
  then show ?thesis using unat_byte [of b] by simp
qed

lemma b64_third: "((m * 4 + unat c div 64) * 64 + unat c mod 64) mod 256 = unat (c :: byte)"
proof -
  have "(m * 4 + unat c div 64) * 64 + unat c mod 64 = unat c + 256 * m" by simp
  then show ?thesis using unat_byte [of c] by simp
qed

lemma b64_bytes [simp]:
  "b64_byte1 (unat a div 4) (unat a mod 4 * 16) = a"
  "b64_byte1 (unat a div 4) (unat a mod 4 * 16 + unat b div 16) = a"
  "b64_byte2 (unat a mod 4 * 16 + unat b div 16) (unat b mod 16 * 4) = b"
  "b64_byte2 (unat a mod 4 * 16 + unat b div 16) (unat b mod 16 * 4 + unat c div 64) = b"
  "b64_byte3 (unat b mod 16 * 4 + unat c div 64) (unat c mod 64) = c"
proof -
  have d: "unat b div 16 < 16" "unat c div 64 < 4" using unat_byte [of b] unat_byte [of c] by linarith+
  show "b64_byte1 (unat a div 4) (unat a mod 4 * 16) = a"
    unfolding b64_byte1_def using b64_first [of 0 a] by (intro word_of_nat_byte) simp
  show "b64_byte1 (unat a div 4) (unat a mod 4 * 16 + unat b div 16) = a"
    unfolding b64_byte1_def by (rule word_of_nat_byte) (simp only: b64_first [OF d(1)] mod_less [OF unat_byte])
  show "b64_byte2 (unat a mod 4 * 16 + unat b div 16) (unat b mod 16 * 4) = b"
    unfolding b64_byte2_def using b64_second [of 0 "unat a mod 4" b] by (intro word_of_nat_byte) simp
  show "b64_byte2 (unat a mod 4 * 16 + unat b div 16) (unat b mod 16 * 4 + unat c div 64) = b"
    unfolding b64_byte2_def by (rule word_of_nat_byte) (rule b64_second [OF d(2)])
  show "b64_byte3 (unat b mod 16 * 4 + unat c div 64) (unat c mod 64) = c"
    unfolding b64_byte3_def by (rule word_of_nat_byte) (rule b64_third)
qed

lemma b64_quanta_encode: "b64_quanta (b64_encode bs) = Some bs"
  by (induction bs rule: b64_encode.induct) simp_all

lemma b64_encode_chars: "c \<in> set (b64_encode bs) \<Longrightarrow> c \<noteq> CHR 0x0A \<and> c \<noteq> CHR 0x0D"
  by (induction bs rule: b64_encode.induct) auto

lemma DecodeString_encode: "DecodeString (b64_encode bs) = Some bs"
proof -
  have "filter (\<lambda>c. c \<noteq> CHR 0x0A \<and> c \<noteq> CHR 0x0D) (b64_encode bs) = b64_encode bs"
    using b64_encode_chars by (simp add: filter_id_conv)
  then show ?thesis by (simp add: DecodeString_def b64_quanta_encode)
qed

section \<open>The contract of an authenticator\<close>

text \<open>
  What the server relies on: a request with acceptable credentials passes and nothing is
  sent, any other one has been answered with 401 or 403 when the method returns its error.
  \<open>complete\<close> says that the configuration of the secrets is complete.
\<close>

locale authenticator =
  fixes authenticate :: "'x \<Rightarrow> 'a RequestContext \<Rightarrow> (auth_error option \<times> 'a RequestContext) outcome"
    and accepts :: "'x \<Rightarrow> Request \<Rightarrow> bool"
    and complete :: "'x \<Rightarrow> bool"
  assumes accepted: "\<lbrakk>complete a; accepts a (ctx_Request ctx)\<rbrakk> \<Longrightarrow>
      \<exists>ctx'. authenticate a ctx = Done (None, ctx') \<and> ctx_Writer ctx' = ctx_Writer ctx"
    and refused: "\<lbrakk>complete a; \<not> accepts a (ctx_Request ctx); client_status ctx = None\<rbrakk> \<Longrightarrow>
      \<exists>e ctx'. authenticate a ctx = Done (Some e, ctx') \<and> client_status ctx' \<in> {Some 401, Some 403}"
begin

lemma decides:
  assumes "complete a" "client_status ctx = None" "authenticate a ctx = Done (err, ctx')"
  shows "(err = None \<longleftrightarrow> accepts a (ctx_Request ctx)) \<and>
    (err \<noteq> None \<longrightarrow> client_status ctx' \<in> {Some 401, Some 403})"
  using assms accepted [of a ctx] refused [of a ctx] by (cases "accepts a (ctx_Request ctx)") auto

lemma no_panic: "\<lbrakk>complete a; client_status ctx = None\<rbrakk> \<Longrightarrow> authenticate a ctx \<noteq> Panicked x"
  using accepted [of a ctx] refused [of a ctx] by (cases "accepts a (ctx_Request ctx)") auto

end

definition secrets_complete :: "SecretsCfg \<Rightarrow> bool" where
  "secrets_complete cfg \<longleftrightarrow> SecretsHash cfg \<noteq> None \<or> SecretsHMAC cfg \<noteq> None"

definition basic_accepts ::
  "(HashAlgorithm \<Rightarrow> bytes \<Rightarrow> bytes) \<Rightarrow> (HashAlgorithm \<Rightarrow> bytes \<Rightarrow> bytes \<Rightarrow> bytes) \<Rightarrow>
     (string \<Rightarrow> string) \<Rightarrow> (string \<Rightarrow> string) \<Rightarrow> AuthInfo \<Rightarrow> string list \<Rightarrow> Request \<Rightarrow> bool" where
  "basic_accepts hash hmac uni quote info users req =
     (case authorization_value uni quote ''Basic'' ''basic'' req of
        Inl _ \<Rightarrow> False
      | Inr value \<Rightarrow> (case DecodeString value of
          None \<Rightarrow> False
        | Some data \<Rightarrow> (case Cut (string_of data) CHR '':'' of (username, password, found) \<Rightarrow>
            found \<and> (case transformAuthSecret hash hmac password (AuthSecrets info) of
              None \<Rightarrow> False | Some secret \<Rightarrow> username @ '':'' @ secret \<in> set users))))"

definition bearer_accepts ::
  "(HashAlgorithm \<Rightarrow> bytes \<Rightarrow> bytes) \<Rightarrow> (HashAlgorithm \<Rightarrow> bytes \<Rightarrow> bytes \<Rightarrow> bytes) \<Rightarrow>
     (string \<Rightarrow> string) \<Rightarrow> (string \<Rightarrow> string) \<Rightarrow> AuthInfo \<Rightarrow> string list \<Rightarrow> Request \<Rightarrow> bool" where
  "bearer_accepts hash hmac uni quote info tokens req =
     (case authorization_value uni quote ''Bearer'' ''bearer'' req of
        Inl _ \<Rightarrow> False
      | Inr value \<Rightarrow> (case transformAuthSecret hash hmac value (AuthSecrets info) of
          None \<Rightarrow> False | Some token \<Rightarrow> token \<in> set tokens))"

fun auth_accepts ::
  "(HashAlgorithm \<Rightarrow> bytes \<Rightarrow> bytes) \<Rightarrow> (HashAlgorithm \<Rightarrow> bytes \<Rightarrow> bytes \<Rightarrow> bytes) \<Rightarrow>
     (string \<Rightarrow> string) \<Rightarrow> (string \<Rightarrow> string) \<Rightarrow> Auth \<Rightarrow> Request \<Rightarrow> bool" where
  "auth_accepts hash hmac uni quote (BasicAuth info users) req = basic_accepts hash hmac uni quote info users req"
| "auth_accepts hash hmac uni quote (BearerAuth info tokens) req = bearer_accepts hash hmac uni quote info tokens req"

fun auth_complete :: "Auth \<Rightarrow> bool" where
  "auth_complete (BasicAuth info _) = secrets_complete (AuthSecrets info)"
| "auth_complete (BearerAuth info _) = secrets_complete (AuthSecrets info)"

lemma transform_complete: "secrets_complete cfg \<Longrightarrow> transformAuthSecret hash hmac secret cfg \<noteq> None"
  by (auto simp: secrets_complete_def transformAuthSecret_def split: option.splits)

lemma reply_with_sent:
  assumes "client_status ctx = None" "200 \<le> status" "status \<le> 999"
  shows "\<exists>ctx'. reply_with status msg err ctx = Done (Some err, ctx') \<and> client_status ctx' = Some status"
  using ReplyError2_sent [OF assms, of msg] by (auto simp: reply_with_def)

lemma setWWWAuthenticate_status [simp]:
  "client_status (setWWWAuthenticate quote scheme info ctx) = client_status ctx"
  by (simp add: setWWWAuthenticate_def client_status_def)

lemma client_status_user [simp]:
  "client_status (set_var k v (ctx\<lparr>ctx_Username := u\<rparr>)) = client_status ctx"
  by (simp add: client_status_def)

lemma reply_with_refuses:
  assumes "client_status ctx = None" "status \<in> {401, 403}"
  shows "\<exists>e ctx'. reply_with status msg err ctx = Done (Some e, ctx') \<and> client_status ctx' \<in> {Some 401, Some 403}"
proof -
  have "200 \<le> status" "status \<le> 999" using assms(2) by auto
  from reply_with_sent [OF assms(1) this, of msg err] show ?thesis using assms(2) by auto
qed

lemma BasicAuth_refuses:
  assumes c: "secrets_complete (AuthSecrets info)" and s: "client_status ctx = None"
    and n: "\<not> basic_accepts hash hmac uni quote info users (ctx_Request ctx)"
  shows "\<exists>e ctx'. BasicAuth_AuthenticateRequest hash hmac uni quote info users ctx = Done (Some e, ctx') \<and>
      client_status ctx' \<in> {Some 401, Some 403}"
proof (cases "authorization_value uni quote ''Basic'' ''basic'' (ctx_Request ctx)")
  case (Inl p)
  obtain e msg where "p = (e, msg)" by (cases p)
  with Inl show ?thesis unfolding BasicAuth_AuthenticateRequest_def
    by (simp del: insert_iff) (rule reply_with_refuses, simp_all add: s)
next
  case v: (Inr credentials)
  show ?thesis
  proof (cases "DecodeString credentials")
    case None
    with v show ?thesis unfolding BasicAuth_AuthenticateRequest_def
      by (simp del: insert_iff) (rule reply_with_refuses, simp_all add: s)
  next
    case d: (Some data)
    obtain username password found where k: "Cut (string_of data) CHR '':'' = (username, password, found)"
      by (metis prod_cases3)
    obtain secret where t: "transformAuthSecret hash hmac password (AuthSecrets info) = Some secret"
      using transform_complete [OF c] by fast
    have m: "\<not> (found \<and> username @ '':'' @ secret \<in> set users)"
      using n v d k t by (simp add: basic_accepts_def)
    show ?thesis unfolding BasicAuth_AuthenticateRequest_def v sum.case d option.case k prod.case
      using m by (simp add: Let_def t del: insert_iff)
        (auto simp del: insert_iff intro!: reply_with_refuses simp: s)
  qed
qed

lemma BearerAuth_refuses:
  assumes c: "secrets_complete (AuthSecrets info)" and s: "client_status ctx = None"
    and n: "\<not> bearer_accepts hash hmac uni quote info tokens (ctx_Request ctx)"
  shows "\<exists>e ctx'. BearerAuth_AuthenticateRequest hash hmac uni quote info tokens ctx = Done (Some e, ctx') \<and>
      client_status ctx' \<in> {Some 401, Some 403}"
proof (cases "authorization_value uni quote ''Bearer'' ''bearer'' (ctx_Request ctx)")
  case (Inl p)
  obtain e msg where "p = (e, msg)" by (cases p)
  with Inl show ?thesis unfolding BearerAuth_AuthenticateRequest_def
    by (simp del: insert_iff) (rule reply_with_refuses, simp_all add: s)
next
  case v: (Inr credentials)
  obtain token where t: "transformAuthSecret hash hmac credentials (AuthSecrets info) = Some token"
    using transform_complete [OF c] by fast
  have m: "token \<notin> set tokens" using n v t by (simp add: bearer_accepts_def)
  show ?thesis unfolding BearerAuth_AuthenticateRequest_def v sum.case
    using m by (simp add: t del: insert_iff) (rule reply_with_refuses, simp_all add: s)
qed

interpretation basic: authenticator
  "\<lambda>(info, users). BasicAuth_AuthenticateRequest hash hmac uni quote info users"
  "\<lambda>(info, users). basic_accepts hash hmac uni quote info users"
  "\<lambda>(info, users). secrets_complete (AuthSecrets info)" for hash hmac uni quote
proof (unfold_locales, goal_cases)
  case (1 a ctx)
  then show ?case
    by (cases a) (auto simp: BasicAuth_AuthenticateRequest_def basic_accepts_def Let_def
        split: sum.splits option.splits prod.splits if_splits)
next
  case (2 a ctx)
  then show ?case by (cases a) (simp add: BasicAuth_refuses del: insert_iff)
qed

interpretation bearer: authenticator
  "\<lambda>(info, tokens). BearerAuth_AuthenticateRequest hash hmac uni quote info tokens"
  "\<lambda>(info, tokens). bearer_accepts hash hmac uni quote info tokens"
  "\<lambda>(info, tokens). secrets_complete (AuthSecrets info)" for hash hmac uni quote
proof (unfold_locales, goal_cases)
  case (1 a ctx)
  then show ?case
    by (cases a) (auto simp: BearerAuth_AuthenticateRequest_def bearer_accepts_def
        split: sum.splits option.splits prod.splits if_splits)
next
  case (2 a ctx)
  then show ?case by (cases a) (simp add: BearerAuth_refuses del: insert_iff)
qed

interpretation auth: authenticator "AuthenticateRequest hash hmac uni quote"
  "auth_accepts hash hmac uni quote" auth_complete for hash hmac uni quote
proof (unfold_locales, goal_cases)
  case (1 a ctx)
  then show ?case
  proof (cases a)
    case (BasicAuth info users)
    with 1 basic.accepted [of "(info, users)" hash hmac uni quote ctx] show ?thesis by simp
  next
    case (BearerAuth info tokens)
    with 1 bearer.accepted [of "(info, tokens)" hash hmac uni quote ctx] show ?thesis by simp
  qed
next
  case (2 a ctx)
  then show ?case
    by (cases a) (simp_all add: BasicAuth_refuses BearerAuth_refuses del: insert_iff)
qed

section \<open>Properties\<close>

lemma authorization_value_sent:
  assumes "Get (ReqHeader req) ''Authorization'' = scheme @ '' '' @ cred" "CHR '' '' \<notin> set scheme"
    "ToLower uni scheme = lowered"
  shows "authorization_value uni quote name lowered req = Inr cred"
  using assms by (simp add: authorization_value_def)

lemma reply_with_error:
  assumes "client_status ctx = None" "status \<in> {401, 403}"
  shows "\<exists>ctx'. reply_with status msg err ctx = Done (Some err, ctx') \<and> client_status ctx' = Some status"
  using reply_with_sent [of ctx status msg err] assms by auto

lemma ToLower_Basic: "ToLower uni ''Basic'' = ''basic''"
proof -
  have "map lower_char ''Basic'' = ''basic''" by code_simp
  then show ?thesis by (simp add: ToLower_def is_ascii_def del: list.map)
qed


definition demo_request :: Request where
  "demo_request = \<lparr>ReqMethod = ''GET'', UrlPath = ''/a'', UrlRawQuery = [], UrlHost = [],
     UrlText = ''/a'', ReqProto = ''HTTP/1.1'', ProtoMajor = 1, ProtoMinor = 1,
     ReqHeader = [(''Authorization'', [''Basic '' @ b64_encode (bytes_of ''ab:c'')])],
     ReqHost = ''localhost'', RemoteAddr = ''10.0.0.1:4000'', ReqTLS = False\<rparr>"

definition demo_context :: "nat RequestContext" where
  "demo_context = NewRequestContext id demo_request \<lparr>sent = [], room = None, werr = EOF\<rparr>"

definition demo_secrets :: AuthInfo where
  "demo_secrets = \<lparr>AuthSecrets = \<lparr>SecretsHash = Some HashAlgorithmSHA256, SecretsHMAC = None\<rparr>, AuthRealm = []\<rparr>"

lemma demo_context_status [simp]: "client_status demo_context = None" "ctx_Request demo_context = demo_request"
  by (simp_all add: demo_context_def NewRequestContext_def client_status_def NewResponseWriter_def)


text \<open>the last line of a secret file is never loaded when no newline ends it: the file reads
  like one without that line, and a user stored there cannot log in.\<close>

theorem secret_file_last_line:
  assumes "CHR 0x0A \<notin> set line" "content = [] \<or> last content = CHR 0x0A"
  shows "loadAuthSecretFile trim (content @ line) = loadAuthSecretFile trim content"
proof (cases "content = []")
  case True
  then show ?thesis using assms(1) by (simp add: loadAuthSecretFile_def Split_notin)
next
  case False
  then have "content = butlast content @ [CHR 0x0A]" using assms(2) by (metis append_butlast_last_id)
  then obtain rest where "content = rest @ [CHR 0x0A]" by blast
  then show ?thesis using assms(1)
    by (simp add: loadAuthSecretFile_def Split_append Split_notin butlast_append)
qed

lemma secret_file_last_line_witness:
  "loadAuthSecretFile id (''a:1'' @ [CHR 0x0A] @ ''b:2'') = loadAuthSecretFile id (''a:1'' @ [CHR 0x0A])"
  using secret_file_last_line [of "''b:2''" "''a:1'' @ [CHR 0x0A]" id] by simp

end
