(* ===== verification/Path_Pattern.thy ===== *)
theory Path_Pattern
  imports Segments
begin

text \<open>
  Path patterns, \<open>src/pkg/protocols/http/path_pattern.go\<close>: patterns of the segments of a
  path, absolute or relative, and prefixes when they end with a slash. A segment is its
  value, empty for the wildcard.
\<close>

section \<open>The model\<close>

datatype path_error = EmptyPathPattern | EmptyPathSegment | PathTypeError

record PathPattern =
  PatSegments :: "string list"
  Relative :: bool
  PatPrefix :: bool

definition segment_text :: "string \<Rightarrow> string" where
  "segment_text s = (if s = [] then ''*'' else s)"

fun write_segments :: "bool \<Rightarrow> string list \<Rightarrow> string" where
  "write_segments slash [] = []"
| "write_segments slash (s # ss) =
     (if slash then ''/'' else []) @ segment_text s @ write_segments True ss"

definition PathPattern_String :: "PathPattern \<Rightarrow> string" where
  "PathPattern_String p =
     (if PatSegments p = [] then ''/''
      else write_segments (\<not> Relative p) (PatSegments p) @ (if PatPrefix p then ''/'' else []))"

definition segment_value :: "string \<Rightarrow> string" where
  "segment_value s =
     (let escaped = (hd s = CHR 0x5C); t = (if escaped then tl s else s)
      in if t = ''*'' \<and> \<not> escaped then [] else t)"

text \<open>The loop of \<open>Parse\<close>: the segments, and whether an empty last one makes a prefix.\<close>

fun parse_segments :: "string list \<Rightarrow> path_error + (string list \<times> bool)" where
  "parse_segments [] = Inr ([], False)"
| "parse_segments (s # ss) =
     (if s = [] then if ss = [] then Inr ([], True) else Inl EmptyPathSegment
      else case parse_segments ss of
             Inl e \<Rightarrow> Inl e
           | Inr (segs, pre) \<Rightarrow> Inr (segment_value s # segs, pre))"

definition PathPattern_Parse :: "string \<Rightarrow> path_error + PathPattern" where
  "PathPattern_Parse s =
     (if s = [] then Inl EmptyPathPattern
      else let relative = (hd s \<noteq> CHR ''/'') in
        case parse_segments (Split (if relative then s else tl s) CHR ''/'') of
          Inl e \<Rightarrow> Inl e
        | Inr (segs, pre) \<Rightarrow> Inr \<lparr>PatSegments = segs, Relative = relative, PatPrefix = pre\<rparr>)"

definition PathPattern_ReadBCLValue :: "string option \<Rightarrow> path_error + PathPattern" where
  "PathPattern_ReadBCLValue v = (case v of None \<Rightarrow> Inl PathTypeError | Some s \<Rightarrow> PathPattern_Parse s)"

fun match_segments :: "string list \<Rightarrow> string list \<Rightarrow> string list option" where
  "match_segments [] xs = Some xs"
| "match_segments (p # ps) [] = None"
| "match_segments (p # ps) (x # xs) = (if p \<noteq> [] \<and> p \<noteq> x then None else match_segments ps xs)"

definition path_segments :: "string \<Rightarrow> string list" where
  "path_segments path =
     (let path = Trim path ''/'' in if length path > 0 then Split path CHR ''/'' else [])"

definition PathPattern_Match :: "PathPattern \<Rightarrow> string \<Rightarrow> bool \<times> string" where
  "PathPattern_Match p path = (case match_segments (PatSegments p) (path_segments path) of
     None \<Rightarrow> (False, [])
   | Some rest \<Rightarrow>
       if rest \<noteq> [] \<and> \<not> PatPrefix p then (False, []) else (True, Join rest ''/''))"

section \<open>Matching\<close>

lemma match_segments_iff:
  "match_segments ps xs = Some rest \<longleftrightarrow> segments_match True ps xs \<and> rest = drop (length ps) xs"
  by (induction ps xs rule: match_segments.induct) (auto simp: segment_ok_def)

lemma segments_match_prefix:
  "segments_match pre ps xs \<longleftrightarrow> segments_match True ps xs \<and> (pre \<or> drop (length ps) xs = [])"
  by (auto simp: segments_match_def)

lemma match_segments_None: "match_segments ps xs = None \<longleftrightarrow> \<not> segments_match True ps xs"
  using match_segments_iff [of ps xs] by (cases "match_segments ps xs") auto

lemma Match_eq:
  "PathPattern_Match p path =
     (if segments_match (PatPrefix p) (PatSegments p) (path_segments path)
      then (True, Join (drop (length (PatSegments p)) (path_segments path)) ''/'') else (False, []))"
proof (cases "match_segments (PatSegments p) (path_segments path)")
  case None
  then have "\<not> segments_match (PatPrefix p) (PatSegments p) (path_segments path)"
    using match_segments_None segments_match_prefix by blast
  then show ?thesis using None by (simp add: PathPattern_Match_def)
next
  case (Some rest)
  then have "segments_match True (PatSegments p) (path_segments path)"
    "rest = drop (length (PatSegments p)) (path_segments path)"
    by (simp_all add: match_segments_iff)
  then show ?thesis using Some
    by (subst segments_match_prefix) (simp add: PathPattern_Match_def)
qed

interpretation path_pattern: segment_pattern path_segments PatSegments PatPrefix "\<lambda>p. True"
  "\<lambda>p path. fst (PathPattern_Match p path)"
  by unfold_locales (simp add: Match_eq)

text \<open>The segments of a path do not end with an empty one.\<close>

lemma Join_path_segments: "Join (path_segments path) ''/'' = Trim path ''/''"
  by (simp add: path_segments_def Let_def)

lemma Split_last_ne: "xs \<noteq> [] \<Longrightarrow> last xs \<noteq> sep \<Longrightarrow> last (Split xs sep) \<noteq> []"
proof (induction xs)
  case (Cons x xs)
  then show ?case by (cases "xs = []") (auto split: list.splits)
qed simp

lemma path_segments_last: "path_segments path \<noteq> [] \<Longrightarrow> last (path_segments path) \<noteq> []"
  using Split_last_ne [of "Trim path ''/''" "CHR ''/''"] Trim_ends [of path "''/''"]
  by (auto simp: path_segments_def Let_def split: if_splits)

lemma Join_append:
  "xs \<noteq> [] \<Longrightarrow> ys \<noteq> [] \<Longrightarrow> Join (xs @ ys) sep = Join xs sep @ sep @ Join ys sep"
  by (induction xs sep rule: Join.induct) (auto simp: Join_Cons_ne)

lemma Join_ne: "xs \<noteq> [] \<Longrightarrow> last xs \<noteq> [] \<Longrightarrow> Join xs sep \<noteq> []"
  by (induction xs sep rule: Join.induct) auto

section \<open>Text form\<close>

text \<open>A pattern whose segments can be written: no slash in them, and no backslash in front,
  which the parser would take as an escape.\<close>

definition segments_ok :: "string list \<Rightarrow> bool" where
  "segments_ok ss \<longleftrightarrow> list_all (\<lambda>s. CHR ''/'' \<notin> set s \<and> (s \<noteq> [] \<longrightarrow> hd s \<noteq> CHR 0x5C)) ss"

definition path_pattern_ok :: "PathPattern \<Rightarrow> bool" where
  "path_pattern_ok p \<longleftrightarrow> segments_ok (PatSegments p) \<and>
     (PatSegments p = [] \<longrightarrow> \<not> Relative p \<and> PatPrefix p)"

definition unescape :: "string \<Rightarrow> string" where
  "unescape s = (if s = ''*'' then [] else s)"

lemma write_segments_Join: "write_segments True ss = concat (map (\<lambda>s. CHR ''/'' # segment_text s) ss)"
  by (induction ss) auto

lemma write_segments_eq:
  "ss \<noteq> [] \<Longrightarrow> write_segments slash ss = (if slash then ''/'' else []) @ Join (map segment_text ss) ''/''"
proof (induction ss arbitrary: slash)
  case (Cons s ss)
  then show ?case by (cases ss) auto
qed simp

lemma segment_value_text: "s = [] \<or> hd s \<noteq> CHR 0x5C \<Longrightarrow> segment_value (segment_text s) = unescape s"
  by (cases "s = []"; cases "s = ''*''") (simp_all add: segment_value_def segment_text_def unescape_def)

lemma parse_segments_text:
  "segments_ok ss \<Longrightarrow> parse_segments (map segment_text ss @ (if pre then [[]] else [])) = Inr (map unescape ss, pre)"
proof (induction ss)
  case (Cons s ss)
  then have "segment_value (segment_text s) = unescape s" "segments_ok ss"
    using segment_value_text [of s] by (auto simp: segments_ok_def)
  moreover have "segment_text s \<noteq> []" by (simp add: segment_text_def)
  ultimately show ?case using Cons.IH by (simp del: if_split)
qed simp

lemma Join_snoc_Nil: "xs \<noteq> [] \<Longrightarrow> Join (xs @ [[]]) sep = Join xs sep @ sep"
  by (simp add: Join_append)

lemma path_pattern_text:
  assumes "path_pattern_ok p" "PatSegments p \<noteq> []"
  shows "Split (write_segments False (PatSegments p) @ (if PatPrefix p then ''/'' else [])) CHR ''/'' =
    map segment_text (PatSegments p) @ (if PatPrefix p then [[]] else [])"
proof -
  let ?parts = "map segment_text (PatSegments p) @ (if PatPrefix p then [[]] else [])"
  have "write_segments False (PatSegments p) @ (if PatPrefix p then ''/'' else []) = Join ?parts ''/''"
    using assms(2) write_segments_eq [of "PatSegments p" False] by (simp add: Join_snoc_Nil)
  moreover have "\<forall>q \<in> set ?parts. CHR ''/'' \<notin> set q"
    using assms(1) by (auto simp: path_pattern_ok_def segments_ok_def list_all_iff segment_text_def)
  ultimately show ?thesis using Split_Join [of ?parts "CHR ''/''"] assms(2) by simp
qed

section \<open>Properties\<close>

text \<open>A pattern matches a path exactly when the segments of the path start with segments that
  its own match, and the path has no others unless the pattern is a prefix; the second
  result is the rest of the path, so for a pattern without wildcards the pattern's segments
  followed by the rest are the path itself.\<close>

theorem path_match_splits_path:
  assumes "PathPattern_Match p path = (True, sub)"
  shows "segments_match (PatPrefix p) (PatSegments p) (path_segments path) \<and>
    (\<exists>segs. list_all2 segment_ok (PatSegments p) segs \<and>
       Trim path ''/'' = Join (segs @ (if sub = [] then [] else Split sub CHR ''/'')) ''/'')"
proof -
  let ?segs = "path_segments path" and ?n = "length (PatSegments p)"
  have m: "segments_match (PatPrefix p) (PatSegments p) ?segs" and sub: "sub = Join (drop ?n ?segs) ''/''"
    using assms by (auto simp: Match_eq split: if_splits)
  have ok: "list_all2 segment_ok (PatSegments p) (take ?n ?segs)"
    using m by (simp add: segments_match_def)
  have rest: "(if sub = [] then [] else Split sub CHR ''/'') = drop ?n ?segs"
  proof (cases "drop ?n ?segs = []")
    case False
    have "?segs \<noteq> []" using False by auto
    then have "last (drop ?n ?segs) \<noteq> []" using False path_segments_last [of path] by (simp add: last_drop)
    then have "sub \<noteq> []" using Join_ne [OF False, of "''/''"] sub by simp
    moreover have "\<forall>q \<in> set (drop ?n ?segs). CHR ''/'' \<notin> set q"
      by (auto simp: path_segments_def Let_def dest!: in_set_dropD dest: Split_parts split: if_splits)
    ultimately show ?thesis using Split_Join [OF False] sub by simp
  qed (simp add: sub)
  have "Trim path ''/'' = Join (take ?n ?segs @ drop ?n ?segs) ''/''"
    by (simp add: Join_path_segments)
  then show ?thesis using m ok unfolding rest by blast
qed

theorem path_match_splits_path_witness:
  "segments_match True [''foo'', []] [''foo'', ''bar'', ''baz''] \<and>
   (\<exists>segs. list_all2 segment_ok [''foo'', []] segs \<and>
      Trim ''/foo/bar/baz/'' ''/'' = Join (segs @ Split ''baz'' CHR ''/'') ''/'')"
proof -
  have segs: "path_segments ''/foo/bar/baz/'' = [''foo'', ''bar'', ''baz'']"
    by (simp add: path_segments_def Trim_def TrimLeft_def TrimRight_def Let_def)
  show ?thesis
    using path_match_splits_path [of "\<lparr>PatSegments = [''foo'', []], Relative = False, PatPrefix = True\<rparr>"
        "''/foo/bar/baz/''" "''baz''"]
    by (simp add: Match_eq segs segment_ok_def)
qed

text \<open>The text of a pattern parses to the same pattern when no segment of it is a literal
  star; a literal star, which is written with a backslash in the configuration, is printed
  without it and parses to a wildcard.\<close>

theorem path_pattern_reparse:
  assumes "path_pattern_ok p"
  shows "PathPattern_Parse (PathPattern_String p) = Inr (p\<lparr>PatSegments := map unescape (PatSegments p)\<rparr>)"
proof (cases "PatSegments p = []")
  case True
  then show ?thesis using assms
    by (cases p) (simp add: PathPattern_Parse_def PathPattern_String_def path_pattern_ok_def)
next
  case False
  let ?w = "write_segments False (PatSegments p) @ (if PatPrefix p then ''/'' else [])"
  have str: "PathPattern_String p = (if Relative p then [] else ''/'') @ ?w"
    using False write_segments_eq [OF False] by (simp add: PathPattern_String_def)
  obtain s ss where segs: "PatSegments p = s # ss" using False by (cases "PatSegments p") auto
  have "?w \<noteq> []" "hd ?w \<noteq> CHR ''/''"
    using assms segs by (cases s; auto simp: path_pattern_ok_def segments_ok_def segment_text_def)+
  moreover have "parse_segments (Split ?w CHR ''/'') = Inr (map unescape (PatSegments p), PatPrefix p)"
    using path_pattern_text [OF assms False] parse_segments_text [of "PatSegments p" "PatPrefix p"] assms
    by (simp add: path_pattern_ok_def)
  ultimately show ?thesis
    unfolding PathPattern_Parse_def str by (cases "Relative p") (simp_all add: Let_def)
qed

theorem path_pattern_reparse_witness:
  "PathPattern_Parse (PathPattern_String \<lparr>PatSegments = [''a'', ''*''], Relative = False, PatPrefix = True\<rparr>) =
     Inr \<lparr>PatSegments = [''a'', []], Relative = False, PatPrefix = True\<rparr>"
  using path_pattern_reparse [of "\<lparr>PatSegments = [''a'', ''*''], Relative = False, PatPrefix = True\<rparr>"]
  by (simp add: path_pattern_ok_def segments_ok_def unescape_def)

end
