(* ===== verification/Http_Handler.thy ===== *)
theory Http_Handler
  imports Http_Context Path_Pattern
begin

text \<open>
  Matching requests with handlers: \<open>MatchCfg\<close> and \<open>matchRequest\<close> of
  \<open>src/pkg/protocols/http/handler.go\<close> and \<open>findHandler\<close> of \<open>protocol.go\<close>. A regular
  expression is its match predicate. The maps of a match specification are lists in the
  order in which Go iterates over them, which it leaves open. A handler refers to its
  access logger, its rate limiter and its action by number.
\<close>

section \<open>Match specifications\<close>

record MatchCfg =
  MatchTLS :: "bool option"
  HTTPVersions :: "HTTPVersion list"
  Methods :: "string list"
  Hosts :: "DomainNamePattern list"
  HostRegexps :: "(string \<Rightarrow> bool) list"
  HeaderValues :: "(string \<times> string list) list"
  HeaderRegexps :: "(string \<times> (string \<Rightarrow> bool) list) list"
  Paths :: "PathPattern list"
  PathRegexps :: "(string \<Rightarrow> bool) list"

definition empty_MatchCfg :: MatchCfg where
  "empty_MatchCfg = \<lparr>MatchTLS = None, HTTPVersions = [], Methods = [], Hosts = [], HostRegexps = [],
     HeaderValues = [], HeaderRegexps = [], Paths = [], PathRegexps = []\<rparr>"

definition HasPaths :: "MatchCfg \<Rightarrow> bool" where
  "HasPaths cfg \<longleftrightarrow> length (Paths cfg) > 0 \<or> length (PathRegexps cfg) > 0"

definition tls_matches :: "MatchCfg \<Rightarrow> Request \<Rightarrow> bool" where
  "tls_matches spec req = (case MatchTLS spec of
     None \<Rightarrow> True
   | Some t \<Rightarrow> \<not> (t \<and> \<not> ReqTLS req) \<and> \<not> (\<not> t \<and> ReqTLS req))"

definition version_matches :: "MatchCfg \<Rightarrow> Request \<Rightarrow> bool" where
  "version_matches spec req \<longleftrightarrow> HTTPVersions spec = [] \<or>
     list_ex (\<lambda>v. HTTPVersion_Match v (ProtoMajor req) (ProtoMinor req)) (HTTPVersions spec)"

definition method_matches :: "MatchCfg \<Rightarrow> Request \<Rightarrow> bool" where
  "method_matches spec req \<longleftrightarrow> Methods spec = [] \<or> ReqMethod req \<in> set (Methods spec)"

definition host_matches :: "MatchCfg \<Rightarrow> string \<Rightarrow> bool" where
  "host_matches spec host \<longleftrightarrow> (Hosts spec = [] \<and> HostRegexps spec = []) \<or>
     list_ex (\<lambda>p. DomainNamePattern_Match p host) (Hosts spec) \<or>
     list_ex (\<lambda>re. re host) (HostRegexps spec)"

text \<open>The loop over the expected values: an entry without values sets the variable
  \<open>headerMatch\<close> without leaving the loop.\<close>

fun match_values :: "http_header \<Rightarrow> (string \<times> string list) list \<Rightarrow> bool \<Rightarrow> bool" where
  "match_values h [] m = m"
| "match_values h ((name, expected) # rest) m =
     (if expected = [] then match_values h rest (Values h name \<noteq> [])
      else if list_ex (\<lambda>v. v \<in> set expected) (Values h name) then True
      else match_values h rest m)"

definition match_regexps :: "http_header \<Rightarrow> (string \<times> (string \<Rightarrow> bool) list) list \<Rightarrow> bool" where
  "match_regexps h entries =
     list_ex (\<lambda>(name, res). list_ex (\<lambda>v. list_ex (\<lambda>re. re v) res) (Values h name)) entries"

definition header_matches :: "MatchCfg \<Rightarrow> http_header \<Rightarrow> bool" where
  "header_matches spec h \<longleftrightarrow> (HeaderValues spec = [] \<and> HeaderRegexps spec = []) \<or>
     match_values h (HeaderValues spec) False \<or> match_regexps h (HeaderRegexps spec)"

text \<open>The loop over the path patterns gives back the last subpath it has seen; a relative
  pattern is matched with the subpath of the parent handler.\<close>

fun match_patterns :: "string \<Rightarrow> string \<Rightarrow> PathPattern list \<Rightarrow> string \<Rightarrow> bool \<times> string" where
  "match_patterns path subpath [] s = (False, s)"
| "match_patterns path subpath (p # ps) s =
     (case PathPattern_Match p (if Relative p then subpath else path) of
        (True, s') \<Rightarrow> (True, s')
      | (False, s') \<Rightarrow> match_patterns path subpath ps s')"

definition path_matches :: "MatchCfg \<Rightarrow> string \<Rightarrow> string \<Rightarrow> bool \<times> string" where
  "path_matches spec path subpath =
     (if HasPaths spec then
        (case match_patterns path subpath (Paths spec) [] of
           (True, s) \<Rightarrow> (True, s)
         | (False, s) \<Rightarrow> (list_ex (\<lambda>re. re path) (PathRegexps spec), s))
      else (True, []))"

section \<open>Handlers\<close>

record 'a HandlerCfg =
  h_Match :: MatchCfg
  h_AccessLogger :: "nat option"
  h_Auth :: "'a option"
  h_RateLimiter :: "(nat \<times> bool) option"
  h_NextHandler :: bool
  h_Action :: "nat option"

datatype 'a Handler = Handler "'a HandlerCfg" "'a Handler list"

text \<open>Updating the settings a matching handler passes on. \<open>h_RateLimiter\<close> is the reference of
  the limiter and whether its configuration is empty.\<close>

definition inherit_settings :: "'a HandlerCfg \<Rightarrow> 'a RequestContext \<Rightarrow> 'a RequestContext" where
  "inherit_settings h ctx =
     (let ctx = (case h_AccessLogger h of None \<Rightarrow> ctx | Some l \<Rightarrow> ctx\<lparr>ctx_AccessLogger := Some l\<rparr>);
          ctx = (case h_Auth h of None \<Rightarrow> ctx | Some a \<Rightarrow> ctx\<lparr>ctx_Auth := Some a\<rparr>)
      in case h_RateLimiter h of
           None \<Rightarrow> ctx
         | Some (rl, isEmpty) \<Rightarrow> ctx\<lparr>ctx_RateLimiter := (if isEmpty then None else Some rl)\<rparr>)"

definition matchRequest :: "'a HandlerCfg \<Rightarrow> 'a RequestContext \<Rightarrow> bool \<times> 'a RequestContext" where
  "matchRequest h ctx =
     (let spec = h_Match h; req = ctx_Request ctx in
      if \<not> tls_matches spec req then (False, ctx)
      else if \<not> version_matches spec req then (False, ctx)
      else if \<not> method_matches spec req then (False, ctx)
      else if \<not> host_matches spec (ctx_Host ctx) then (False, ctx)
      else if \<not> header_matches spec (ReqHeader req) then (False, ctx)
      else (case path_matches spec (UrlPath req) (ctx_Subpath ctx) of
          (False, _) \<Rightarrow> (False, ctx)
        | (True, subpath) \<Rightarrow>
            let ctx = inherit_settings h ctx in
            if h_NextHandler h then (False, ctx)
            else (True, set_var ''http.match.subpath'' subpath (ctx\<lparr>ctx_Subpath := subpath\<rparr>))))"

text \<open>\<open>findHandler\<close>: the first handler that matches, and in it the first nested one that does;
  a handler whose nested handlers do not match is the last match itself.\<close>

fun find_handler ::
  "'a Handler list \<Rightarrow> 'a HandlerCfg option \<Rightarrow> 'a RequestContext \<Rightarrow> 'a HandlerCfg option \<times> 'a RequestContext" where
  "find_handler [] lastMatch ctx = (lastMatch, ctx)"
| "find_handler (Handler h hs # rest) lastMatch ctx =
     (case matchRequest h ctx of
        (True, ctx) \<Rightarrow> (case find_handler hs (Some h) ctx of
            (Some h2, ctx) \<Rightarrow> (Some h2, ctx)
          | (None, ctx) \<Rightarrow> (Some h, ctx))
      | (False, ctx) \<Rightarrow> find_handler rest lastMatch ctx)"

definition findHandler ::
  "'a Handler list \<Rightarrow> 'a RequestContext \<Rightarrow> 'a HandlerCfg option \<times> 'a RequestContext" where
  "findHandler handlers ctx = find_handler handlers None ctx"

section \<open>What a match means\<close>

text \<open>The conjunction of the constraints of a specification on a request, in a context.\<close>

definition satisfies :: "MatchCfg \<Rightarrow> 'a RequestContext \<Rightarrow> bool" where
  "satisfies spec ctx \<longleftrightarrow> (let req = ctx_Request ctx in
     tls_matches spec req \<and> version_matches spec req \<and> method_matches spec req \<and>
     host_matches spec (ctx_Host ctx) \<and> header_matches spec (ReqHeader req) \<and>
     fst (path_matches spec (UrlPath req) (ctx_Subpath ctx)))"

definition new_subpath :: "MatchCfg \<Rightarrow> 'a RequestContext \<Rightarrow> string" where
  "new_subpath spec ctx = snd (path_matches spec (UrlPath (ctx_Request ctx)) (ctx_Subpath ctx))"

lemma inherit_settings_simps [simp]:
  "ctx_Request (inherit_settings h ctx) = ctx_Request ctx" "ctx_Host (inherit_settings h ctx) = ctx_Host ctx"
  "ctx_Subpath (inherit_settings h ctx) = ctx_Subpath ctx" "ctx_Writer (inherit_settings h ctx) = ctx_Writer ctx"
  "ctx_ClientAddress (inherit_settings h ctx) = ctx_ClientAddress ctx"
  "ctx_Auth (inherit_settings h ctx) = (case h_Auth h of None \<Rightarrow> ctx_Auth ctx | Some a \<Rightarrow> Some a)"
  by (auto simp: inherit_settings_def Let_def split: option.split)

lemma matchRequest_eq:
  "matchRequest h ctx =
     (if satisfies (h_Match h) ctx then
        if h_NextHandler h then (False, inherit_settings h ctx)
        else (True, set_var ''http.match.subpath'' (new_subpath (h_Match h) ctx)
          ((inherit_settings h ctx)\<lparr>ctx_Subpath := new_subpath (h_Match h) ctx\<rparr>))
      else (False, ctx))"
  by (auto simp: matchRequest_def satisfies_def new_subpath_def Let_def split: prod.split bool.split)

section \<open>Routing without the mutable context\<close>

text \<open>
  The handlers whose constraints the request satisfies, in the order in which the search
  meets them: a handler with \<open>next_handler\<close> is passed by, the first other one is entered,
  and its nested handlers see the subpath it leaves.
\<close>

fun visited :: "'a Handler list \<Rightarrow> 'a RequestContext \<Rightarrow> 'a HandlerCfg list" where
  "visited [] ctx = []"
| "visited (Handler h hs # rest) ctx =
     (if \<not> satisfies (h_Match h) ctx then visited rest ctx
      else if h_NextHandler h then h # visited rest ctx
      else h # visited hs (ctx\<lparr>ctx_Subpath := new_subpath (h_Match h) ctx\<rparr>))"

definition latest :: "('h \<Rightarrow> 'b option) \<Rightarrow> 'b option \<Rightarrow> 'h list \<Rightarrow> 'b option" where
  "latest f start hs = foldl (\<lambda>a h. case f h of None \<Rightarrow> a | Some x \<Rightarrow> Some x) start hs"

lemma latest_simps [simp]:
  "latest f a [] = a" "latest f a (h # hs) = latest f (case f h of None \<Rightarrow> a | Some x \<Rightarrow> Some x) hs"
  by (simp_all add: latest_def)

lemma latest_set: "a \<noteq> None \<or> (\<exists>h \<in> set hs. f h \<noteq> None) \<Longrightarrow> latest f a hs \<noteq> None"
proof (induction hs arbitrary: a)
  case (Cons h hs)
  show ?case
  proof (cases "f h")
    case None
    then show ?thesis using Cons.IH [of a] Cons.prems by auto
  next
    case (Some x)
    then show ?thesis using Cons.IH [of "Some x"] by simp
  qed
qed simp

text \<open>Two contexts that agree on the request, the host and the subpath route alike.\<close>

definition same_route :: "'a RequestContext \<Rightarrow> 'a RequestContext \<Rightarrow> bool" where
  "same_route c d \<longleftrightarrow> ctx_Request c = ctx_Request d \<and> ctx_Host c = ctx_Host d \<and> ctx_Subpath c = ctx_Subpath d"

lemma same_route_satisfies:
  "same_route c d \<Longrightarrow> satisfies spec c = satisfies spec d \<and> new_subpath spec c = new_subpath spec d"
  by (simp add: same_route_def satisfies_def new_subpath_def)

lemma same_route_visited: "same_route c d \<Longrightarrow> visited hs c = visited hs d"
proof (induction hs c arbitrary: d rule: visited.induct)
  case (2 h hs rest ctx)
  note eq = same_route_satisfies [OF 2(4), of "h_Match h"]
  have "same_route (ctx\<lparr>ctx_Subpath := new_subpath (h_Match h) ctx\<rparr>) (d\<lparr>ctx_Subpath := new_subpath (h_Match h) d\<rparr>)"
    using 2(4) eq by (simp add: same_route_def)
  then show ?case using 2 eq by auto
qed simp

lemma find_handler_visited:
  "find_handler hs lastMatch ctx = (r, ctx') \<Longrightarrow>
    r = (case rev (filter (\<lambda>h. \<not> h_NextHandler h) (visited hs ctx)) of [] \<Rightarrow> lastMatch | h # _ \<Rightarrow> Some h) \<and>
    ctx_Auth ctx' = latest h_Auth (ctx_Auth ctx) (visited hs ctx) \<and>
    ctx_Request ctx' = ctx_Request ctx \<and> ctx_Writer ctx' = ctx_Writer ctx \<and>
    ctx_ClientAddress ctx' = ctx_ClientAddress ctx \<and> ctx_Host ctx' = ctx_Host ctx"
proof (induction hs lastMatch ctx arbitrary: r ctx' rule: find_handler.induct)
  case (1 lastMatch ctx)
  then show ?case by simp
next
  case (2 h hs rest lastMatch ctx)
  consider (no) "\<not> satisfies (h_Match h) ctx"
    | (nxt) "satisfies (h_Match h) ctx" "h_NextHandler h"
    | (enter) "satisfies (h_Match h) ctx" "\<not> h_NextHandler h" by blast
  then show ?case
  proof cases
    case no
    then have m: "matchRequest h ctx = (False, ctx)" by (simp add: matchRequest_eq)
    then show ?thesis using 2(2) [OF m [symmetric] refl, of r ctx'] 2(3) no by simp
  next
    case nxt
    then have m: "matchRequest h ctx = (False, inherit_settings h ctx)" by (simp add: matchRequest_eq)
    moreover have "visited rest (inherit_settings h ctx) = visited rest ctx"
      by (rule same_route_visited) (simp add: same_route_def)
    ultimately show ?thesis using 2(2) [OF m [symmetric] refl, of r ctx'] 2(3) nxt by simp
  next
    case enter
    let ?ctx1 = "set_var ''http.match.subpath'' (new_subpath (h_Match h) ctx)
      ((inherit_settings h ctx)\<lparr>ctx_Subpath := new_subpath (h_Match h) ctx\<rparr>)"
    have m: "matchRequest h ctx = (True, ?ctx1)" using enter by (simp add: matchRequest_eq)
    have v: "visited hs ?ctx1 = visited hs (ctx\<lparr>ctx_Subpath := new_subpath (h_Match h) ctx\<rparr>)"
      by (rule same_route_visited) (simp add: same_route_def)
    obtain r1 ctx2 where f: "find_handler hs (Some h) ?ctx1 = (r1, ctx2)" by fastforce
    note IH = 2(1) [OF m [symmetric] refl f]
    have "r1 \<noteq> None" using IH [THEN conjunct1] by (simp split: list.split)
    then have r: "r = r1" "ctx' = ctx2" using 2(3) m f by auto
    have "visited (Handler h hs # rest) ctx = h # visited hs ?ctx1" using enter v by simp
    then show ?thesis using IH enter(2) unfolding r by (simp split: list.split)
  qed
qed

section \<open>Properties\<close>

text \<open>C2: Routing is a search in the tree of handlers that does not depend on what it writes to
  the context on the way: \<open>findHandler\<close> returns the innermost handler, other than those with
  \<open>next_handler\<close>, of the handlers the request satisfies on its way down, and the
  authentication in force afterwards is that of the last handler on this way that sets one,
  so a handler that requires authentication is never entered without any.\<close>

theorem find_handler_routes:
  "fst (findHandler hs ctx) =
     (case rev (filter (\<lambda>h. \<not> h_NextHandler h) (visited hs ctx)) of [] \<Rightarrow> None | h # _ \<Rightarrow> Some h) \<and>
   ctx_Auth (snd (findHandler hs ctx)) = latest h_Auth (ctx_Auth ctx) (visited hs ctx) \<and>
   \<not> ((\<exists>h \<in> set (visited hs ctx). h_Auth h \<noteq> None) \<and> ctx_Auth (snd (findHandler hs ctx)) = None)"
proof -
  note v = find_handler_visited [of hs None ctx "fst (findHandler hs ctx)" "snd (findHandler hs ctx)",
    unfolded findHandler_def prod.collapse, OF refl]
  then show ?thesis
    using latest_set [of "ctx_Auth ctx" "visited hs ctx" h_Auth] unfolding findHandler_def by metis
qed

text \<open>A request matches a handler exactly when it satisfies all the constraints of the handler
  and the handler does not have \<open>next_handler\<close>; a request that does not satisfy them leaves the
  context as it was, and only a match changes the subpath.\<close>

theorem match_request_effect:
  "(fst (matchRequest h ctx) \<longleftrightarrow> satisfies (h_Match h) ctx \<and> \<not> h_NextHandler h) \<and>
   (satisfies (h_Match h) ctx \<or> snd (matchRequest h ctx) = ctx) \<and>
   (fst (matchRequest h ctx) \<or> ctx_Subpath (snd (matchRequest h ctx)) = ctx_Subpath ctx)"
  by (auto simp: matchRequest_eq)

end
