(* ===== verification/Rate_Limiter.thy ===== *)
theory Rate_Limiter
  imports Addresses
begin

text \<open>
  The rate limiter, \<open>src/pkg/netutils/rate_limiter.go\<close>. Times are UNIX timestamps in
  milliseconds; \<open>clock\<close> is what \<open>time.Now()\<close> returns inside the operation, \<open>now\<close> the time
  the caller passes. The mutex makes \<open>Update\<close> and \<open>GC\<close> atomic. A Go map that is only looked
  up is a partial function; one that is iterated is an association list without duplicate
  keys, in the order of the iteration.
\<close>

section \<open>Counters\<close>

record RateCounterCfg =
  CfgLimit :: int
  CfgPeriod :: int

record RateCounter =
  RcStart :: int
  RcLimit :: int
  RcPeriod :: int
  RcCount :: int

definition NewRateCounter :: "int \<Rightarrow> RateCounterCfg \<Rightarrow> RateCounter" where
  "NewRateCounter clock cfg =
     \<lparr>RcStart = (if CfgPeriod cfg > 0 then wrap64 (clock - clock smod CfgPeriod cfg) else 0),
      RcLimit = CfgLimit cfg, RcPeriod = CfgPeriod cfg, RcCount = 0\<rparr>"

definition RateCounter_Update :: "RateCounter \<Rightarrow> int \<Rightarrow> int \<Rightarrow> bool \<times> RateCounter" where
  "RateCounter_Update c n now =
     (if RcPeriod c = 0 then (True, c)
      else if now < RcStart c then (False, c)
      else let c = (if wrap64 (now - RcStart c) > RcPeriod c
                    then c\<lparr>RcStart := wrap64 (now - now smod RcPeriod c), RcCount := 0\<rparr> else c)
           in if wrap64 (RcCount c + n) > RcLimit c then (False, c)
              else (True, c\<lparr>RcCount := wrap64 (RcCount c + n)\<rparr>))"

section \<open>Network types\<close>

datatype nettype_error = EmptyNetType | NoSlash | InvalidPrefix string | PrefixOutOfRange

definition parseRateLimiterNetType :: "string \<Rightarrow> int \<Rightarrow> nettype_error + int" where
  "parseRateLimiterNetType s maxLen =
     (case s of
        [] \<Rightarrow> Inl EmptyNetType
      | c # rest \<Rightarrow>
          if c \<noteq> CHR ''/'' then Inl NoSlash
          else case ParseInt rest of
                 None \<Rightarrow> Inl (InvalidPrefix rest)
               | Some i64 \<Rightarrow>
                   if i64 < 0 then Inl (InvalidPrefix rest)
                   else if i64 < 1 \<or> i64 > maxLen then Inl PrefixOutOfRange
                   else Inr i64)"

definition IPv4NetType_Parse :: "string \<Rightarrow> nettype_error + int" where
  "IPv4NetType_Parse s = parseRateLimiterNetType s 32"

definition IPv6NetType_Parse :: "string \<Rightarrow> nettype_error + int" where
  "IPv6NetType_Parse s = parseRateLimiterNetType s 128"

section \<open>Limits of single addresses and networks\<close>

record AddressRateLimiter =
  LimAddress :: IPNet
  LimCounter :: RateCounter

definition prefix_length :: "IPNet \<Rightarrow> nat" where
  "prefix_length n = (case simpleMaskLength (NetMask n) of Some l \<Rightarrow> l | None \<Rightarrow> 0)"

fun string_compare :: "string \<Rightarrow> string \<Rightarrow> int" where
  "string_compare [] [] = 0"
| "string_compare [] (_ # _) = -1"
| "string_compare (_ # _) [] = 1"
| "string_compare (a # as) (b # bs) =
     (if (of_char a :: nat) < of_char b then -1
      else if (of_char a :: nat) > of_char b then 1
      else string_compare as bs)"

text \<open>The comparison function of \<open>AddressRateLimiters.Sort\<close>.\<close>

definition limiter_compare :: "AddressRateLimiter \<Rightarrow> AddressRateLimiter \<Rightarrow> int" where
  "limiter_compare l1 l2 =
     (let addr1 = LimAddress l1; addr2 = LimAddress l2 in
      if length (NetIP addr1) < length (NetIP addr2) then -1
      else if length (NetIP addr1) > length (NetIP addr2) then 1
      else if prefix_length addr1 > prefix_length addr2 then -1
      else if prefix_length addr1 < prefix_length addr2 then 1
      else string_compare (IPNet_String addr1) (IPNet_String addr2))"

text \<open>
  \<open>slices.SortFunc\<close>: a sort by the comparison. Elements that compare equal are networks
  with the same text, whose order the library leaves open.
\<close>

fun limiter_insert :: "AddressRateLimiter \<Rightarrow> AddressRateLimiter list \<Rightarrow> AddressRateLimiter list" where
  "limiter_insert l [] = [l]"
| "limiter_insert l (x # xs) = (if limiter_compare l x \<le> 0 then l # x # xs else x # limiter_insert l xs)"

fun limiters_Sort :: "AddressRateLimiter list \<Rightarrow> AddressRateLimiter list" where
  "limiters_Sort [] = []"
| "limiters_Sort (l # ls) = limiter_insert l (limiters_Sort ls)"

section \<open>The limiter\<close>

type_synonym RateCounterTable = "string \<rightharpoonup> RateCounter"

record RateLimiterCfg =
  CfgGlobal :: "RateCounterCfg option"
  CfgPerIPv4 :: "(int \<times> RateCounterCfg) list"
  CfgPerIPv6 :: "(int \<times> RateCounterCfg) list"
  CfgAddresses :: "(IPNet \<times> RateCounterCfg) list"

definition RateLimiterCfg_IsEmpty :: "RateLimiterCfg \<Rightarrow> bool" where
  "RateLimiterCfg_IsEmpty cfg \<longleftrightarrow> CfgGlobal cfg = None \<and> length (CfgPerIPv4 cfg) = 0 \<and>
     length (CfgPerIPv6 cfg) = 0 \<and> length (CfgAddresses cfg) = 0"

text \<open>
  The tables are kept with the configuration of their counters; an empty list is the nil
  map. \<open>rl_addresses\<close> is empty exactly when it is nil.
\<close>

record RateLimiter =
  rl_cfg :: RateLimiterCfg
  rl_global :: "RateCounter option"
  rl_perIPv4 :: "(int \<times> RateCounterCfg \<times> RateCounterTable) list"
  rl_perIPv6 :: "(int \<times> RateCounterCfg \<times> RateCounterTable) list"
  rl_addresses :: "AddressRateLimiter list"

definition NewRateLimiter :: "int \<Rightarrow> RateLimiterCfg \<Rightarrow> RateLimiter" where
  "NewRateLimiter clock cfg =
     \<lparr>rl_cfg = cfg,
      rl_global = map_option (NewRateCounter clock) (CfgGlobal cfg),
      rl_perIPv4 = map (\<lambda>(netType, c). (netType, c, \<lambda>_. None)) (CfgPerIPv4 cfg),
      rl_perIPv6 = map (\<lambda>(netType, c). (netType, c, \<lambda>_. None)) (CfgPerIPv6 cfg),
      rl_addresses = limiters_Sort
        (map (\<lambda>(addr, c). \<lparr>LimAddress = addr, LimCounter = NewRateCounter clock c\<rparr>) (CfgAddresses cfg))\<rparr>"

definition gc_table :: "RateCounterTable \<Rightarrow> RateCounterTable" where
  "gc_table t = (\<lambda>k. case t k of None \<Rightarrow> None | Some c \<Rightarrow> if RcCount c = 0 then None else Some c)"

definition RateLimiter_GC :: "RateLimiter \<Rightarrow> RateLimiter" where
  "RateLimiter_GC rl = rl\<lparr>
     rl_perIPv4 := map (\<lambda>(p, c, t). (p, c, gc_table t)) (rl_perIPv4 rl),
     rl_perIPv6 := map (\<lambda>(p, c, t). (p, c, gc_table t)) (rl_perIPv6 rl)\<rparr>"

definition net_key :: "IP \<Rightarrow> int \<Rightarrow> int \<Rightarrow> string" where
  "net_key addr prefixLength bits =
     (let m = CIDRMask prefixLength bits
      in IPNet_String \<lparr>NetIP = IP_Mask addr m, NetMask = m\<rparr>)"

text \<open>The loop over the tables of one family: every counter is updated, and one that
  refuses is enough to refuse.\<close>

fun update_tables ::
  "int \<Rightarrow> int \<Rightarrow> IP \<Rightarrow> int \<Rightarrow> int \<Rightarrow> (int \<times> RateCounterCfg \<times> RateCounterTable) list \<Rightarrow>
     bool \<times> (int \<times> RateCounterCfg \<times> RateCounterTable) list" where
  "update_tables clock bits addr n now [] = (True, [])"
| "update_tables clock bits addr n now ((p, cfg, t) # ts) =
     (let k = net_key addr p bits;
          rc = (case t k of Some rc \<Rightarrow> rc | None \<Rightarrow> NewRateCounter clock cfg);
          (ok, rc') = RateCounter_Update rc n now;
          (oks, ts') = update_tables clock bits addr n now ts
      in (ok \<and> oks, (p, cfg, t(k \<mapsto> rc')) # ts'))"

text \<open>The loop over the addresses stops at the first counter that accepts.\<close>

fun update_addresses :: "IP \<Rightarrow> int \<Rightarrow> int \<Rightarrow> AddressRateLimiter list \<Rightarrow> bool \<times> AddressRateLimiter list" where
  "update_addresses addr n now [] = (False, [])"
| "update_addresses addr n now (l # ls) =
     (if Contains (LimAddress l) addr then
        (case RateCounter_Update (LimCounter l) n now of
           (True, c) \<Rightarrow> (True, l\<lparr>LimCounter := c\<rparr> # ls)
         | (False, c) \<Rightarrow> (case update_addresses addr n now ls of
             (pass, ls') \<Rightarrow> (pass, l\<lparr>LimCounter := c\<rparr> # ls')))
      else (case update_addresses addr n now ls of (pass, ls') \<Rightarrow> (pass, l # ls')))"

definition RateLimiter_Update :: "int \<Rightarrow> RateLimiter \<Rightarrow> int \<Rightarrow> IP \<Rightarrow> int \<Rightarrow> bool \<times> RateLimiter" where
  "RateLimiter_Update clock rl n addr now =
     (let (g, global) = (case rl_global rl of
            None \<Rightarrow> (True, None)
          | Some c \<Rightarrow> (case RateCounter_Update c n now of (ok, c') \<Rightarrow> (ok, Some c')));
          (v4, per4) = (if rl_perIPv4 rl \<noteq> [] \<and> length addr = 4
            then update_tables clock 32 addr n now (rl_perIPv4 rl) else (True, rl_perIPv4 rl));
          (v6, per6) = (if rl_perIPv6 rl \<noteq> [] \<and> length addr = 16
            then update_tables clock 128 addr n now (rl_perIPv6 rl) else (True, rl_perIPv6 rl));
          pass = (g \<and> v4 \<and> v6);
          (addressPass, addrs) = (if rl_addresses rl \<noteq> []
            then update_addresses addr n now (rl_addresses rl) else (False, []));
          rl' = rl\<lparr>rl_global := global, rl_perIPv4 := per4, rl_perIPv6 := per6, rl_addresses := addrs\<rparr>
      in if rl_addresses rl \<noteq> [] \<and> \<not> addressPass then (False, rl')
         else (pass \<or> addressPass, rl'))"

section \<open>The counter of a window\<close>

text \<open>A counter with a positive period that has not exceeded its limit, far from overflow.\<close>

definition rc_ok :: "RateCounter \<Rightarrow> bool" where
  "rc_ok c \<longleftrightarrow> 0 < RcPeriod c \<and> RcPeriod c < 2 ^ 62 \<and> 0 \<le> RcStart c \<and> RcStart c < 2 ^ 62 \<and>
     0 \<le> RcCount c \<and> RcCount c \<le> RcLimit c \<and> RcLimit c < 2 ^ 62"

text \<open>An update far from overflow: amounts and times are not negative.\<close>

definition event_ok :: "int \<times> int \<Rightarrow> bool" where
  "event_ok e \<longleftrightarrow> 0 \<le> fst e \<and> fst e < 2 ^ 62 \<and> 0 \<le> snd e \<and> snd e < 2 ^ 62"

lemma small_int64: "- (2 ^ 62) \<le> x \<Longrightarrow> x < 2 ^ 63 \<Longrightarrow> int64 x"
  by (simp add: int64_def)

lemma window_start:
  assumes "0 \<le> (t :: int)" "0 < p" "t < 2 ^ 62"
  shows "wrap64 (t - t smod p) = t - t mod p" "0 \<le> t - t mod p" "t - t mod p \<le> t" "t - p < t - t mod p"
proof -
  have m: "t smod p = t mod p" using assms
    by (cases "t = 0") (simp_all add: signed_modulo_int_def signed_divide_int_def minus_mult_div_eq_mod
        minus_div_mult_eq_mod)
  have le: "t mod p \<le> t" using assms(1) zmod_le_nonneg_dividend by blast
  have ge: "0 \<le> t mod p" "t mod p < p" using assms(2) by simp_all
  show "wrap64 (t - t smod p) = t - t mod p"
    using wrap64_id [of "t - t mod p"] m le ge(1) assms(1,3) unfolding int64_def by simp
  show "0 \<le> t - t mod p" "t - t mod p \<le> t" "t - p < t - t mod p" using le ge by simp_all
qed

lemma NewRateCounter_ok:
  assumes "0 < CfgPeriod cfg" "CfgPeriod cfg < 2 ^ 62" "0 \<le> CfgLimit cfg" "CfgLimit cfg < 2 ^ 62"
    "0 \<le> clock" "clock < 2 ^ 62"
  shows "rc_ok (NewRateCounter clock cfg)" "RcLimit (NewRateCounter clock cfg) = CfgLimit cfg"
    "RcCount (NewRateCounter clock cfg) = 0"
proof -
  let ?s = "clock - clock mod CfgPeriod cfg"
  have "wrap64 (clock - clock smod CfgPeriod cfg) = ?s" "0 \<le> ?s" "?s < 2 ^ 62"
    using assms window_start [of clock "CfgPeriod cfg"] by linarith+
  then show "rc_ok (NewRateCounter clock cfg)" "RcLimit (NewRateCounter clock cfg) = CfgLimit cfg"
    "RcCount (NewRateCounter clock cfg) = 0"
    using assms by (simp_all add: NewRateCounter_def rc_ok_def)
qed

text \<open>The four outcomes of an update, without the machine arithmetic.\<close>

lemma RateCounter_Update_eq:
  assumes "rc_ok c" "event_ok (n, t)"
  shows "RateCounter_Update c n t =
    (if t < RcStart c then (False, c)
     else let c = (if t - RcStart c > RcPeriod c then c\<lparr>RcStart := t - t mod RcPeriod c, RcCount := 0\<rparr> else c)
          in if RcCount c + n > RcLimit c then (False, c) else (True, c\<lparr>RcCount := RcCount c + n\<rparr>))"
proof -
  have "wrap64 (t - RcStart c) = t - RcStart c" and "wrap64 (RcCount c + n) = RcCount c + n" and "wrap64 n = n"
    using assms by (simp_all add: rc_ok_def event_ok_def small_int64)
  moreover have "wrap64 (t - t smod RcPeriod c) = t - t mod RcPeriod c"
    using assms window_start(1) [of t "RcPeriod c"] by (simp add: rc_ok_def event_ok_def)
  moreover have "RcPeriod c \<noteq> 0" using assms by (simp add: rc_ok_def)
  ultimately show ?thesis by (simp add: RateCounter_Update_def Let_def)
qed

lemma RateCounter_Update_step:
  assumes "rc_ok c" "event_ok (n, t)" "RateCounter_Update c n t = (ok, c')"
  shows "rc_ok c'" "RcLimit c' = RcLimit c" "RcPeriod c' = RcPeriod c"
    "RcStart c' = RcStart c \<and> RcCount c' = (if ok then RcCount c + n else RcCount c) \<or>
     RcStart c < RcStart c' \<and> RcCount c' = (if ok then n else 0)"
proof -
  have w: "0 \<le> t - t mod RcPeriod c" "t - t mod RcPeriod c \<le> t" "t - RcPeriod c < t - t mod RcPeriod c"
    using assms(1,2) window_start [of t "RcPeriod c"] by (auto simp: rc_ok_def event_ok_def)
  note eq = RateCounter_Update_eq [OF assms(1,2), unfolded assms(3)]
  show "rc_ok c'" using eq assms(1,2) w
    by (auto simp: rc_ok_def event_ok_def Let_def split: if_splits)
  show "RcLimit c' = RcLimit c" "RcPeriod c' = RcPeriod c"
    using eq by (auto simp: Let_def split: if_splits)
  show "RcStart c' = RcStart c \<and> RcCount c' = (if ok then RcCount c + n else RcCount c) \<or>
     RcStart c < RcStart c' \<and> RcCount c' = (if ok then n else 0)"
    using eq assms(1,2) w by (auto simp: Let_def split: if_splits)
qed

text \<open>
  A log of the updates that are accepted: the start of the window they fall in and their
  amount; and the total of one window.
\<close>

definition window_total :: "int \<Rightarrow> (int \<times> int) list \<Rightarrow> int" where
  "window_total s log = sum_list (map snd (filter (\<lambda>e. fst e = s) log))"

lemma window_total_simps [simp]:
  "window_total s [] = 0"
  "window_total s (e # log) = (if fst e = s then snd e + window_total s log else window_total s log)"
  by (simp_all add: window_total_def)

section \<open>Sequences of requests\<close>

text \<open>A sequence of updates of a limiter, each with the client's address, and the log of the
  ones it lets through, with the window of the global counter.\<close>

fun run_limiter :: "RateLimiter \<Rightarrow> (int \<times> IP \<times> int) list \<Rightarrow> (int \<times> int) list \<times> RateLimiter" where
  "run_limiter rl [] = ([], rl)"
| "run_limiter rl ((n, addr, now) # us) =
     (let (ok, rl') = RateLimiter_Update now rl n addr now;
          (log, rl'') = run_limiter rl' us;
          s = (case rl_global rl' of Some c \<Rightarrow> RcStart c | None \<Rightarrow> 0)
      in (if ok then (s, n) # log else log, rl''))"

lemma RateLimiter_Update_global:
  assumes "rl_global rl = Some c" "rl_addresses rl = []"
    "RateLimiter_Update clock rl n addr now = (ok, rl')"
  shows "\<exists>g c'. RateCounter_Update c n now = (g, c') \<and> rl_global rl' = Some c' \<and>
    rl_addresses rl' = [] \<and> (ok \<longrightarrow> g)"
  using assms by (auto simp: RateLimiter_Update_def Let_def split: prod.splits if_splits)

lemma run_limiter_windows:
  assumes "rl_global rl = Some c" "rl_addresses rl = []" "rc_ok c"
    "\<forall>(n, addr, now) \<in> set us. event_ok (n, now)" "run_limiter rl us = (log, rl')"
  shows "window_total (RcStart c) log + RcCount c \<le> RcLimit c \<and>
    (\<forall>s. window_total s log \<le> RcLimit c) \<and> (\<forall>e \<in> set log. RcStart c \<le> fst e)"
  using assms
proof (induction us arbitrary: rl c log)
  case Nil
  then show ?case by (simp add: rc_ok_def)
next
  case (Cons u us)
  obtain n addr now where u: "u = (n, addr, now)" by (cases u) auto
  obtain ok rl1 where up: "RateLimiter_Update now rl n addr now = (ok, rl1)" by fastforce
  obtain log1 where run: "run_limiter rl1 us = (log1, rl')"
    using Cons.prems(5) u up by (auto simp: Let_def split: prod.splits)
  obtain g c1 where c1: "RateCounter_Update c n now = (g, c1)" "rl_global rl1 = Some c1"
    "rl_addresses rl1 = []" "ok \<longrightarrow> g"
    using RateLimiter_Update_global [OF Cons.prems(1,2) up] by blast
  have ev: "event_ok (n, now)" "0 \<le> n" using Cons.prems(4) u by (auto simp: event_ok_def)
  note st = RateCounter_Update_step [OF Cons.prems(3) ev(1) c1(1)]
  have IH: "window_total (RcStart c1) log1 + RcCount c1 \<le> RcLimit c1"
    "\<And>s. window_total s log1 \<le> RcLimit c1" "\<And>e. e \<in> set log1 \<Longrightarrow> RcStart c1 \<le> fst e"
    using Cons.IH [OF c1(2,3) st(1) _ run] Cons.prems(4) by auto
  have log: "log = (if ok then (RcStart c1, n) # log1 else log1)"
    using Cons.prems(5) u up run c1(2) by (auto simp: Let_def)
  have old: "window_total (RcStart c) log1 = 0" if "RcStart c < RcStart c1"
  proof -
    have "filter (\<lambda>e. fst e = RcStart c) log1 = []" using IH(3) that by (fastforce simp: filter_empty_conv)
    then show ?thesis by (simp add: window_total_def)
  qed
  show ?case
    using IH st c1(4) ev(2) old Cons.prems(3) unfolding log rc_ok_def
    by (auto split: if_splits; fastforce)
qed

section \<open>Keys of networks\<close>

lemma mask_bytes_zero: "mask_bytes l 0 = replicate l 0"
  by (induction l) simp_all

lemma mask_bytes_split: "n \<le> 8 * k \<Longrightarrow> mask_bytes (k + l) n = mask_bytes k n @ replicate l 0"
  by (induction k n rule: mask_bytes.induct) (auto simp: mask_bytes_zero)

lemma map2_and_zero_left: "length m = k \<Longrightarrow> map2 (AND) (replicate k 0) (m :: bytes) = replicate k 0"
  by (induction m arbitrary: k) auto

lemma map2_and_zero_right: "length m = k \<Longrightarrow> map2 (AND) (m :: bytes) (replicate k 0) = replicate k 0"
  by (induction m arbitrary: k) auto

text \<open>The first 80 bits of an IPv4 address in 16 bytes are zeros.\<close>

lemma IP_Mask_mapped:
  assumes "length ip = 4" "p \<le> 80" "0 \<le> p"
  shows "IP_Mask (v4InV6Prefix @ ip) (CIDRMask p 128) = replicate 16 0"
proof -
  have m: "CIDRMask p 128 = mask_bytes 10 (nat p) @ replicate 6 0"
    using mask_bytes_split [of "nat p" 10 6] assms(2,3) by (simp add: CIDRMask_def)
  have pre: "v4InV6Prefix @ ip = replicate 10 0 @ ([255, 255] @ ip)"
    by (simp add: v4InV6Prefix_def numeral_eq_Suc)
  have "map2 (AND) (v4InV6Prefix @ ip) (CIDRMask p 128) =
      map2 (AND) (replicate 10 0) (mask_bytes 10 (nat p)) @ map2 (AND) ([255, 255] @ ip) (replicate 6 0)"
    unfolding m pre by simp
  also have "\<dots> = replicate 10 0 @ replicate 6 0"
    using assms(1) by (subst map2_and_zero_left map2_and_zero_right; simp)+
  finally show ?thesis using assms(1)
    by (simp add: IP_Mask_def m flip: replicate_add)
qed

lemma net_key_mapped:
  "\<lbrakk>length ip = 4; length ip' = 4; 0 \<le> p; p \<le> 80\<rbrakk> \<Longrightarrow>
    net_key (v4InV6Prefix @ ip) p 128 = net_key (v4InV6Prefix @ ip') p 128"
  by (simp add: net_key_def Let_def IP_Mask_mapped)

lemma update_tables_cong:
  "\<forall>(p, _, _) \<in> set ts. net_key a p bits = net_key b p bits \<Longrightarrow>
    update_tables clock bits a n now ts = update_tables clock bits b n now ts"
  by (induction ts) (auto simp: Let_def)

section \<open>Garbage collection\<close>

text \<open>Tables whose counters come from their configuration and have started.\<close>

definition tables_ok :: "int \<Rightarrow> (int \<times> RateCounterCfg \<times> RateCounterTable) list \<Rightarrow> bool" where
  "tables_ok now ts \<longleftrightarrow> (\<forall>(p, cfg, t) \<in> set ts.
     0 < CfgPeriod cfg \<and> CfgPeriod cfg < 2 ^ 62 \<and> 0 \<le> CfgLimit cfg \<and> CfgLimit cfg < 2 ^ 62 \<and>
     (\<forall>k c. t k = Some c \<longrightarrow> rc_ok c \<and> RcStart c \<le> now \<and>
        RcLimit c = CfgLimit cfg \<and> RcPeriod c = CfgPeriod cfg))"

lemma zero_count_update:
  assumes "rc_ok c" "event_ok (n, now)" "RcCount c = 0" "RcStart c \<le> now"
  shows "fst (RateCounter_Update c n now) \<longleftrightarrow> n \<le> RcLimit c"
  using RateCounter_Update_eq [OF assms(1,2)] assms(3,4) by (auto simp: Let_def)

lemma new_counter_update:
  assumes "event_ok (n, now)" "0 < CfgPeriod cfg" "CfgPeriod cfg < 2 ^ 62" "0 \<le> CfgLimit cfg" "CfgLimit cfg < 2 ^ 62"
  shows "fst (RateCounter_Update (NewRateCounter now cfg) n now) \<longleftrightarrow> n \<le> CfgLimit cfg"
proof -
  have ev: "0 \<le> now" "now < 2 ^ 62" using assms(1) by (simp_all add: event_ok_def)
  have "RcStart (NewRateCounter now cfg) \<le> now"
    using window_start [of now "CfgPeriod cfg"] assms(2) ev by (simp add: NewRateCounter_def)
  then show ?thesis
    using zero_count_update [OF NewRateCounter_ok(1) [OF assms(2-5) ev] assms(1)]
      NewRateCounter_ok(2,3) [OF assms(2-5) ev] by simp
qed

lemma gc_tables_decision:
  "\<lbrakk>tables_ok now ts; event_ok (n, now)\<rbrakk> \<Longrightarrow>
    fst (update_tables now bits addr n now (map (\<lambda>(p, c, t). (p, c, gc_table t)) ts)) =
    fst (update_tables now bits addr n now ts)"
proof (induction ts)
  case (Cons x ts)
  obtain p cfg t where x: "x = (p, cfg, t)" by (cases x) auto
  let ?k = "net_key addr p bits"
  have ok: "0 < CfgPeriod cfg" "CfgPeriod cfg < 2 ^ 62" "0 \<le> CfgLimit cfg" "CfgLimit cfg < 2 ^ 62"
    "\<And>c. t ?k = Some c \<Longrightarrow> rc_ok c \<and> RcStart c \<le> now \<and> RcLimit c = CfgLimit cfg"
    using Cons.prems(1) x by (auto simp: tables_ok_def)
  have "fst (RateCounter_Update (case gc_table t ?k of Some rc \<Rightarrow> rc | None \<Rightarrow> NewRateCounter now cfg) n now) =
      fst (RateCounter_Update (case t ?k of Some rc \<Rightarrow> rc | None \<Rightarrow> NewRateCounter now cfg) n now)"
    using zero_count_update [OF _ Cons.prems(2)] new_counter_update [OF Cons.prems(2) ok(1-4)] ok(5)
    by (auto simp: gc_table_def split: option.splits)
  moreover have "tables_ok now ts" using Cons.prems(1) by (simp add: tables_ok_def)
  ultimately show ?case using Cons x by (simp add: Let_def split_beta)
qed simp

section \<open>Order of the address limits\<close>

definition limiter_before :: "AddressRateLimiter \<Rightarrow> AddressRateLimiter \<Rightarrow> bool" where
  "limiter_before l1 l2 \<longleftrightarrow>
     length (NetIP (LimAddress l1)) < length (NetIP (LimAddress l2)) \<or>
     length (NetIP (LimAddress l1)) = length (NetIP (LimAddress l2)) \<and>
     prefix_length (LimAddress l1) \<ge> prefix_length (LimAddress l2)"

lemma limiter_compare_before:
  "limiter_compare l x \<le> 0 \<Longrightarrow> limiter_before l x" "limiter_compare l x > 0 \<Longrightarrow> limiter_before x l"
  by (auto simp: limiter_compare_def limiter_before_def Let_def split: if_splits)

lemma limiter_before_trans: "limiter_before a b \<Longrightarrow> limiter_before b c \<Longrightarrow> limiter_before a c"
  by (auto simp: limiter_before_def)

lemma set_limiter_insert [simp]: "set (limiter_insert l ls) = insert l (set ls)"
  by (induction ls) auto

lemma limiter_insert_sorted:
  "sorted_wrt limiter_before ls \<Longrightarrow> sorted_wrt limiter_before (limiter_insert l ls)"
proof (induction ls)
  case (Cons x xs)
  then show ?case
    using limiter_compare_before [of l x] limiter_before_trans [of l x] by auto
qed simp

lemma limiters_Sort_sorted: "sorted_wrt limiter_before (limiters_Sort ls) \<and> set (limiters_Sort ls) = set ls"
  by (induction ls) (auto simp: limiter_insert_sorted)

lemma update_addresses_unlisted:
  "\<forall>l \<in> set ls. \<not> Contains (LimAddress l) addr \<Longrightarrow> \<not> fst (update_addresses addr n now ls)"
  by (induction ls) (auto split: prod.splits)

section \<open>Properties\<close>



text \<open>Garbage collection does not change what the limiter decides: a request gets the same
  answer right after \<open>GC\<close> as it would have got without it.\<close>

theorem gc_transparent:
  assumes "tables_ok now (rl_perIPv4 rl)" "tables_ok now (rl_perIPv6 rl)" "event_ok (n, now)"
  shows "fst (RateLimiter_Update now (RateLimiter_GC rl) n addr now) = fst (RateLimiter_Update now rl n addr now)"
  using gc_tables_decision [OF assms(1,3), of 32 addr] gc_tables_decision [OF assms(2,3), of 128 addr]
  by (auto simp: RateLimiter_Update_def RateLimiter_GC_def Let_def split_beta)

theorem gc_transparent_witness:
  "fst (RateLimiter_Update 6000 (RateLimiter_GC (NewRateLimiter 5500
      \<lparr>CfgGlobal = None, CfgPerIPv4 = [(32, \<lparr>CfgLimit = 1, CfgPeriod = 1000\<rparr>)], CfgPerIPv6 = [], CfgAddresses = []\<rparr>))
      1 [192, 0, 2, 1] 6000) =
   fst (RateLimiter_Update 6000 (NewRateLimiter 5500
      \<lparr>CfgGlobal = None, CfgPerIPv4 = [(32, \<lparr>CfgLimit = 1, CfgPeriod = 1000\<rparr>)], CfgPerIPv6 = [], CfgAddresses = []\<rparr>)
      1 [192, 0, 2, 1] 6000)"
  by (rule gc_transparent) (simp_all add: NewRateLimiter_def tables_ok_def event_ok_def)

text \<open>IPv4 clients are not limited one by one. The address of a connection always has 16
  bytes, so the tables of IPv4 networks are never looked at, and every IPv6 network of at
  most 80 bits (the limit per address uses 48) holds all IPv4 clients: the limiter answers
  two different IPv4 clients the same and counts them together.\<close>

theorem ipv4_clients_share_limit:
  assumes "length ip = 4" "length ip' = 4" "rl_addresses rl = []"
    "\<forall>(p, _, _) \<in> set (rl_perIPv6 rl). 0 \<le> p \<and> p \<le> 80"
  shows "RateLimiter_Update clock rl n (v4InV6Prefix @ ip) now = RateLimiter_Update clock rl n (v4InV6Prefix @ ip') now \<and>
    rl_perIPv4 (snd (RateLimiter_Update clock rl n (v4InV6Prefix @ ip) now)) = rl_perIPv4 rl"
proof -
  have "update_tables clock 128 (v4InV6Prefix @ ip) n now (rl_perIPv6 rl) =
      update_tables clock 128 (v4InV6Prefix @ ip') n now (rl_perIPv6 rl)"
    using assms(4) net_key_mapped [OF assms(1,2)] by (intro update_tables_cong) auto
  then show ?thesis using assms(1-3)
    by (auto simp: RateLimiter_Update_def Let_def split: prod.splits)
qed

theorem ipv4_clients_share_limit_witness:
  "RateLimiter_Update 5600 (NewRateLimiter 5500 \<lparr>CfgGlobal = None, CfgPerIPv4 = [(32, \<lparr>CfgLimit = 1, CfgPeriod = 1000\<rparr>)],
      CfgPerIPv6 = [(48, \<lparr>CfgLimit = 1, CfgPeriod = 1000\<rparr>)], CfgAddresses = []\<rparr>) 1 (v4InV6Prefix @ [192, 0, 2, 1]) 5600 =
   RateLimiter_Update 5600 (NewRateLimiter 5500 \<lparr>CfgGlobal = None, CfgPerIPv4 = [(32, \<lparr>CfgLimit = 1, CfgPeriod = 1000\<rparr>)],
      CfgPerIPv6 = [(48, \<lparr>CfgLimit = 1, CfgPeriod = 1000\<rparr>)], CfgAddresses = []\<rparr>) 1 (v4InV6Prefix @ [198, 51, 100, 7]) 5600"
  by (rule ipv4_clients_share_limit [THEN conjunct1]) (simp_all add: NewRateLimiter_def)

text \<open>Once a limit is configured for some address or network, every client that is in none of
  the configured networks is refused, whatever the other limits say.\<close>

theorem unlisted_address_refused:
  assumes "rl_addresses rl \<noteq> []" "\<forall>l \<in> set (rl_addresses rl). \<not> Contains (LimAddress l) addr"
  shows "fst (RateLimiter_Update clock rl n addr now) = False"
  using update_addresses_unlisted [OF assms(2), of n now] assms(1)
  by (auto simp: RateLimiter_Update_def Let_def split: prod.splits)

theorem unlisted_address_refused_witness:
  "fst (RateLimiter_Update 5600 (NewRateLimiter 5500 \<lparr>CfgGlobal = None, CfgPerIPv4 = [], CfgPerIPv6 = [],
      CfgAddresses = [(\<lparr>NetIP = [192, 0, 2, 0], NetMask = [255, 255, 255, 0]\<rparr>, \<lparr>CfgLimit = 100, CfgPeriod = 1000\<rparr>)]\<rparr>)
      1 [198, 51, 100, 7] 5600) = False"
  by (rule unlisted_address_refused)
    (simp_all add: NewRateLimiter_def Contains_def networkNumberAndMask_def To4_def)

text \<open>The limits of single addresses are tried from the most specific network to the least:
  the limiter keeps every configured limit, IPv4 networks before IPv6 networks and, in one
  family, longer prefixes before shorter ones.\<close>

theorem address_limits_ordered:
  "sorted_wrt limiter_before (rl_addresses (NewRateLimiter clock cfg)) \<and>
   LimAddress ` set (rl_addresses (NewRateLimiter clock cfg)) = fst ` set (CfgAddresses cfg)"
  using limiters_Sort_sorted by (force simp: NewRateLimiter_def)

section \<open>Well-formed limiters\<close>

text \<open>The limits of a configuration for networks, far from overflow; periods are positive.\<close>

definition networks_cfg_ok :: "(int \<times> RateCounterCfg) list \<Rightarrow> bool" where
  "networks_cfg_ok m \<longleftrightarrow> (\<forall>(_, c) \<in> set m. 0 < CfgPeriod c \<and> CfgPeriod c < 2 ^ 62 \<and> 0 \<le> CfgLimit c \<and> CfgLimit c < 2 ^ 62)"

datatype limiter_op = UpdateOp int IP int | GCOp int

fun op_time :: "limiter_op \<Rightarrow> int" where
  "op_time (UpdateOp n addr now) = now"
| "op_time (GCOp now) = now"

fun op_ok :: "limiter_op \<Rightarrow> bool" where
  "op_ok (UpdateOp n addr now) = event_ok (n, now)"
| "op_ok (GCOp now) = True"

fun run_op :: "limiter_op \<Rightarrow> RateLimiter \<Rightarrow> RateLimiter" where
  "run_op (UpdateOp n addr now) rl = snd (RateLimiter_Update now rl n addr now)"
| "run_op (GCOp now) rl = RateLimiter_GC rl"

lemma tables_ok_mono: "tables_ok t ts \<Longrightarrow> t \<le> now \<Longrightarrow> tables_ok now ts"
  unfolding tables_ok_def by fastforce

lemma tables_ok_gc: "tables_ok now ts \<Longrightarrow> tables_ok now (map (\<lambda>(p, c, t). (p, c, gc_table t)) ts)"
  by (fastforce simp: tables_ok_def gc_table_def split: option.splits if_splits)

lemma counter_start_le:
  assumes "rc_ok c" "event_ok (n, now)" "RcStart c \<le> now" "RateCounter_Update c n now = (ok, c')"
  shows "RcStart c' \<le> now"
proof -
  have "now - now mod RcPeriod c \<le> now" using assms(1) by (simp add: rc_ok_def)
  then show ?thesis using RateCounter_Update_eq [OF assms(1,2)] assms(3,4) by (auto simp: Let_def split: if_splits)
qed

lemma tables_ok_update:
  "tables_ok now ts \<Longrightarrow> event_ok (n, now) \<Longrightarrow> tables_ok now (snd (update_tables now bits addr n now ts))"
proof (induction ts)
  case (Cons x ts)
  obtain p cfg t where x: "x = (p, cfg, t)" by (cases x) auto
  let ?k = "net_key addr p bits"
  let ?c = "case t ?k of Some rc \<Rightarrow> rc | None \<Rightarrow> NewRateCounter now cfg"
  obtain ok c' where up: "RateCounter_Update ?c n now = (ok, c')" by fastforce
  have ev: "0 \<le> now" "now < 2 ^ 62" using Cons.prems(2) by (simp_all add: event_ok_def)
  have cfg: "0 < CfgPeriod cfg" "CfgPeriod cfg < 2 ^ 62" "0 \<le> CfgLimit cfg" "CfgLimit cfg < 2 ^ 62"
    and old: "\<And>k c. t k = Some c \<Longrightarrow> rc_ok c \<and> RcStart c \<le> now \<and> RcLimit c = CfgLimit cfg \<and> RcPeriod c = CfgPeriod cfg"
    using Cons.prems(1) x by (auto simp: tables_ok_def)
  have new: "rc_ok (NewRateCounter now cfg)" "RcStart (NewRateCounter now cfg) \<le> now"
    "RcLimit (NewRateCounter now cfg) = CfgLimit cfg" "RcPeriod (NewRateCounter now cfg) = CfgPeriod cfg"
    using NewRateCounter_ok [OF cfg ev] window_start [OF ev(1) cfg(1) ev(2)] cfg by (simp_all add: NewRateCounter_def)
  have c: "rc_ok ?c" "RcStart ?c \<le> now" "RcLimit ?c = CfgLimit cfg" "RcPeriod ?c = CfgPeriod cfg"
    using old new by (auto split: option.split)
  have c': "rc_ok c'" "RcStart c' \<le> now" "RcLimit c' = CfgLimit cfg" "RcPeriod c' = CfgPeriod cfg"
    using RateCounter_Update_step(1-3) [OF c(1) Cons.prems(2) up] counter_start_le [OF c(1) Cons.prems(2) c(2) up] c(3,4) by simp_all
  have "tables_ok now ts" using Cons.prems(1) by (simp add: tables_ok_def)
  then have IH: "tables_ok now (snd (update_tables now bits addr n now ts))" using Cons.IH Cons.prems(2) by blast
  have "snd (update_tables now bits addr n now (x # ts)) =
      (p, cfg, t(?k \<mapsto> c')) # snd (update_tables now bits addr n now ts)"
    using up x by (simp add: Let_def split: prod.split)
  then show ?case using IH cfg old c' by (auto simp: tables_ok_def)
qed simp

definition limiter_ok :: "int \<Rightarrow> RateLimiter \<Rightarrow> bool" where
  "limiter_ok now rl \<longleftrightarrow> tables_ok now (rl_perIPv4 rl) \<and> tables_ok now (rl_perIPv6 rl)"

lemma limiter_ok_op:
  assumes "limiter_ok t rl" "t \<le> op_time x" "op_ok x"
  shows "limiter_ok (op_time x) (run_op x rl)"
proof (cases x)
  case (UpdateOp n addr now)
  have "tables_ok now (rl_perIPv4 rl)" "tables_ok now (rl_perIPv6 rl)"
    using assms(1,2) UpdateOp tables_ok_mono by (auto simp: limiter_ok_def)
  then have "tables_ok now (if b then snd (update_tables now bits addr n now (rl_perIPv4 rl)) else rl_perIPv4 rl)"
    "tables_ok now (if b then snd (update_tables now bits addr n now (rl_perIPv6 rl)) else rl_perIPv6 rl)" for b bits
    using tables_ok_update assms(3) UpdateOp by auto
  moreover have
    "rl_perIPv4 (run_op x rl) = (if rl_perIPv4 rl \<noteq> [] \<and> length addr = 4
       then snd (update_tables now 32 addr n now (rl_perIPv4 rl)) else rl_perIPv4 rl)"
    "rl_perIPv6 (run_op x rl) = (if rl_perIPv6 rl \<noteq> [] \<and> length addr = 16
       then snd (update_tables now 128 addr n now (rl_perIPv6 rl)) else rl_perIPv6 rl)"
    by (simp_all add: UpdateOp RateLimiter_Update_def Let_def split_beta)
  ultimately show ?thesis using UpdateOp unfolding limiter_ok_def by simp
next
  case (GCOp now)
  then show ?thesis using assms(1,2) tables_ok_mono tables_ok_gc by (auto simp: limiter_ok_def RateLimiter_GC_def)
qed

lemma limiter_ok_ops:
  "\<lbrakk>limiter_ok t rl; sorted (t # map op_time ops); list_all op_ok ops\<rbrakk> \<Longrightarrow>
    limiter_ok (last (t # map op_time ops)) (fold run_op ops rl)"
proof (induction ops arbitrary: t rl)
  case (Cons x ops)
  have "limiter_ok (op_time x) (run_op x rl)" using Cons.prems by (intro limiter_ok_op) auto
  then show ?case using Cons.IH [of "op_time x" "run_op x rl"] Cons.prems by simp
qed simp



end
