(* ===== verification/Http_Server.thy ===== *)
theory Http_Server
  imports Access_Logger Http_Auth Http_Handler Rate_Limiter
begin

text \<open>
  A request from its arrival to the action of its handler: \<open>ServeHTTP\<close>, \<open>handleTLS\<close> and
  \<open>handleHSTS\<close> of \<open>src/pkg/protocols/http/server.go\<close>, with the choice of the default TLS
  listener of \<open>protocol.go\<close>. The rate limiters and the access loggers live in the state of the
  server, the actions are functions on the context, which may panic. \<open>world\<close> gathers what the
  server gets from outside: hash functions, Unicode case mapping, the clock, the text of errors,
  quoted strings, URLs and reason phrases.
\<close>

section \<open>The state of the server\<close>

datatype TLSHandling = TLSHandlingAccept | TLSHandlingReject | TLSHandlingRequire | TLSHandlingRedirect

record ListenerInfo =
  ln_TLS :: "TLSCfg option"
  ln_Port :: int

record Protocol =
  p_TLSHandling :: TLSHandling
  p_HSTS :: bool
  p_Listeners :: "ListenerInfo list"
  p_Handlers :: "Auth Handler list"

definition defaultTLSListener :: "Protocol \<Rightarrow> (TLSCfg \<times> int) option" where
  "defaultTLSListener p = (case filter (\<lambda>l. ln_TLS l \<noteq> None) (p_Listeners p) of
     [] \<Rightarrow> None
   | l # _ \<Rightarrow> Some (the (ln_TLS l), ln_Port l))"

record server_state =
  sv_limiters :: "nat \<Rightarrow> RateLimiter"
  sv_loggers :: "nat \<Rightarrow> AccessLogger"

record world =
  w_hash :: "HashAlgorithm \<Rightarrow> bytes \<Rightarrow> bytes"
  w_hmac :: "HashAlgorithm \<Rightarrow> bytes \<Rightarrow> bytes \<Rightarrow> bytes"
  w_uni :: "string \<Rightarrow> string"
  w_quote :: "string \<Rightarrow> string"
  w_reason :: "int \<Rightarrow> string"
  w_host_error :: "host_error \<Rightarrow> string"
  w_https_url :: "string \<Rightarrow> Request \<Rightarrow> string"
  w_clock :: int
  w_start :: int
  w_time :: string
  w_response_time :: string

section \<open>TLS\<close>

text \<open>The versions of the listener, the highest first, as values of \<open>Upgrade\<close>.\<close>

definition upgrade_protocols :: "TLSCfg \<Rightarrow> string option" where
  "upgrade_protocols cfg =
     (let protocols = map HTTPTLSProtocolString (rev (sort (SupportedTLSVersions cfg)))
      in if None \<in> set protocols then None else Some (Join (map the protocols) '', ''))"

definition finished :: "'a RequestContext outcome \<Rightarrow> (bool \<times> 'a RequestContext) outcome" where
  "finished r = (case r of Done ctx \<Rightarrow> Done (True, ctx) | Panicked ctx \<Rightarrow> Panicked (True, ctx))"

text \<open>The result says whether the request has been answered.\<close>

definition handleTLS ::
  "(string \<Rightarrow> Request \<Rightarrow> string) \<Rightarrow> Protocol \<Rightarrow> 'a RequestContext \<Rightarrow> (bool \<times> 'a RequestContext) outcome" where
  "handleTLS https_url p ctx =
     (let tls = ReqTLS (ctx_Request ctx) in
      if p_TLSHandling p = TLSHandlingReject \<and> tls then
        finished (ReplyError2 426 ''TLS not supported''
          (add_header ''Upgrade'' ''HTTP/2.0, HTTP/1.1, HTTP/1.0'' ctx))
      else if p_TLSHandling p = TLSHandlingRequire \<and> \<not> tls then
        (case defaultTLSListener p of
           None \<Rightarrow> finished (ReplyError2 426 ''TLS required'' ctx)
         | Some (cfg, _) \<Rightarrow> (case upgrade_protocols cfg of
             None \<Rightarrow> Panicked (False, ctx)
           | Some protocols \<Rightarrow> finished (ReplyError2 426 ''TLS required'' (add_header ''Upgrade'' protocols ctx))))
      else if p_TLSHandling p = TLSHandlingRedirect \<and> \<not> tls then
        let host = ctx_Host ctx @ (case defaultTLSListener p of
              None \<Rightarrow> []
            | Some (_, port) \<Rightarrow> if port \<noteq> 443 then '':'' @ Itoa port else [])
        in finished (Reply 301 None (add_header ''Location'' (https_url host (ctx_Request ctx)) ctx))
      else Done (False, ctx))"

definition handleHSTS :: "Protocol \<Rightarrow> 'a RequestContext \<Rightarrow> 'a RequestContext" where
  "handleHSTS p ctx =
     (if \<not> p_HSTS p then ctx
      else if \<not> ReqTLS (ctx_Request ctx) then ctx
      else set_header ''Strict-Transport-Security'' ''max-age=31536000; includeSubDomains'' ctx)"

section \<open>Requests\<close>

type_synonym auth_context = "Auth RequestContext"
type_synonym actions = "nat \<Rightarrow> auth_context \<Rightarrow> auth_context outcome"

text \<open>The rate limiter in force, if any, counts the request.\<close>

definition limit_request :: "world \<Rightarrow> auth_context \<Rightarrow> server_state \<Rightarrow> bool \<times> server_state" where
  "limit_request w ctx sv = (case ctx_RateLimiter ctx of
     None \<Rightarrow> (True, sv)
   | Some i \<Rightarrow> (case RateLimiter_Update (w_clock w) (sv_limiters sv i) 1 (ctx_ClientAddress ctx) (w_start w) of
       (ok, rl) \<Rightarrow> (ok, sv\<lparr>sv_limiters := (sv_limiters sv)(i := rl)\<rparr>)))"

text \<open>The authentication in force, if any; the first component says whether the request goes on.\<close>

definition authenticate_request :: "world \<Rightarrow> auth_context \<Rightarrow> (bool \<times> auth_context) outcome" where
  "authenticate_request w ctx = (case ctx_Auth ctx of
     None \<Rightarrow> Done (True, ctx)
   | Some auth \<Rightarrow>
       (case AuthenticateRequest (w_hash w) (w_hmac w) (w_uni w) (w_quote w) auth ctx of
          Done (err, ctx) \<Rightarrow> Done (err = None, ctx)
        | Panicked (err, ctx) \<Rightarrow> Panicked (False, ctx)))"

definition run_action :: "world \<Rightarrow> actions \<Rightarrow> Auth HandlerCfg \<Rightarrow> auth_context \<Rightarrow> auth_context outcome" where
  "run_action w act h ctx = (case h_Action h of
     None \<Rightarrow> ReplyError (w_reason w) 501 ctx
   | Some a \<Rightarrow> act a ctx)"

text \<open>From the handler on.\<close>

definition dispatch ::
  "world \<Rightarrow> actions \<Rightarrow> Protocol \<Rightarrow> auth_context \<Rightarrow> server_state \<Rightarrow> auth_context outcome \<times> server_state" where
  "dispatch w act p ctx sv =
     (case findHandler (p_Handlers p) ctx of
        (None, ctx) \<Rightarrow> (ReplyError2 404 ''unhandled request'' ctx, sv)
      | (Some h, ctx) \<Rightarrow>
          (case limit_request w ctx sv of
             (False, sv) \<Rightarrow> (ReplyError2 429 ''rate limit reached'' ctx, sv)
           | (True, sv) \<Rightarrow>
               (case authenticate_request w ctx of
                  Panicked (_, ctx) \<Rightarrow> (Panicked ctx, sv)
                | Done (False, ctx) \<Rightarrow> (Done ctx, sv)
                | Done (True, ctx) \<Rightarrow> (run_action w act h ctx, sv))))"

text \<open>The body of \<open>ServeHTTP\<close>, before its deferred calls.\<close>

definition handle_request ::
  "world \<Rightarrow> actions \<Rightarrow> Protocol \<Rightarrow> auth_context \<Rightarrow> server_state \<Rightarrow> auth_context outcome \<times> server_state" where
  "handle_request w act p ctx sv =
     (case IdentifyClient ctx of
        (Some _, ctx) \<Rightarrow> (ReplyError (w_reason w) 500 ctx, sv)
      | (None, ctx) \<Rightarrow>
          (case IdentifyRequestHost ctx of
             (Some e, ctx) \<Rightarrow> (ReplyError2 400 (w_host_error w e) ctx, sv)
           | (None, ctx) \<Rightarrow>
               (case handleTLS (w_https_url w) p ctx of
                  Panicked (_, ctx) \<Rightarrow> (Panicked ctx, sv)
                | Done (True, ctx) \<Rightarrow> (Done ctx, sv)
                | Done (False, ctx) \<Rightarrow> dispatch w act p (handleHSTS p ctx) sv)))"

text \<open>The deferred calls: the request is logged first, whether it panicked or not, and a panic
  is then recovered from. An error of the log is only reported.\<close>

definition OnRequestHandled :: "world \<Rightarrow> auth_context \<Rightarrow> server_state \<Rightarrow> auth_context \<times> server_state" where
  "OnRequestHandled w ctx sv =
     (let ctx = set_var ''http.response_time'' (w_response_time w) ctx in
      case ctx_AccessLogger ctx of
        None \<Rightarrow> (ctx, sv)
      | Some i \<Rightarrow> (ctx, sv\<lparr>sv_loggers := (sv_loggers sv)
          (i := snd (AccessLogger_Log (w_quote w) (w_time w) ctx (sv_loggers sv i)))\<rparr>))"

definition ServeHTTP ::
  "world \<Rightarrow> actions \<Rightarrow> Protocol \<Rightarrow> nat option \<Rightarrow> Request \<Rightarrow> writer \<Rightarrow> server_state \<Rightarrow> auth_context \<times> server_state" where
  "ServeHTTP w act p accessLogger req out sv =
     (case handle_request w act p ((NewRequestContext (w_uni w) req out)\<lparr>ctx_AccessLogger := accessLogger\<rparr>) sv of
        (Done ctx, sv) \<Rightarrow> OnRequestHandled w ctx sv
      | (Panicked ctx, sv) \<Rightarrow> (case OnRequestHandled w ctx sv of
          (ctx, sv) \<Rightarrow> (Recover (w_reason w) (Panicked ctx), sv)))"

section \<open>What an action can rely on\<close>

lemma supported_versions_known: "set (SupportedTLSVersions cfg) \<subseteq> set tls_versions"
  unfolding SupportedTLSVersions_def Let_def by (auto dest: in_set_takeD in_set_dropD)

lemma upgrade_protocols_some: "upgrade_protocols cfg \<noteq> None"
proof -
  have "v \<in> set tls_versions \<Longrightarrow> HTTPTLSProtocolString v \<noteq> None" for v
    by (auto simp: tls_versions_def HTTPTLSProtocolString_def)
  then show ?thesis
    using supported_versions_known [of cfg] by (fastforce simp: upgrade_protocols_def Let_def)
qed

lemma set_header_status [simp]:
  "client_status (set_header k v ctx) = client_status ctx" "client_status (add_header k v ctx) = client_status ctx"
  by (simp_all add: client_status_def set_header_def add_header_def)

text \<open>Whether the connection of the request is one the server answers on.\<close>

definition tls_accepted :: "Protocol \<Rightarrow> Request \<Rightarrow> bool" where
  "tls_accepted p req = (case p_TLSHandling p of
     TLSHandlingAccept \<Rightarrow> True
   | TLSHandlingReject \<Rightarrow> \<not> ReqTLS req
   | TLSHandlingRequire \<Rightarrow> ReqTLS req
   | TLSHandlingRedirect \<Rightarrow> ReqTLS req)"

lemma handleTLS_accepted:
  "tls_accepted p (ctx_Request ctx) \<Longrightarrow> handleTLS https_url p ctx = Done (False, ctx)"
  by (cases "p_TLSHandling p") (auto simp: handleTLS_def tls_accepted_def)

lemma handleTLS_refused:
  assumes "\<not> tls_accepted p (ctx_Request ctx)" "client_status ctx = None"
  obtains ctx' where "handleTLS https_url p ctx = Done (True, ctx')" "client_status ctx' \<in> {Some 426, Some 301}"
proof -
  have e: "\<exists>ctx'. finished (ReplyError2 426 msg c) = Done (True, ctx') \<and> client_status ctx' = Some 426"
    if "client_status c = None" for msg c
    using ReplyError2_sent [OF that, of 426 msg] by (auto simp: finished_def)
  have r: "\<exists>ctx'. finished (Reply 301 None c) = Done (True, ctx') \<and> client_status ctx' = Some 301"
    if "client_status c = None" for c
    using Reply_sent [OF that, of 301 None] by (auto simp: finished_def)
  consider "p_TLSHandling p = TLSHandlingReject" "ReqTLS (ctx_Request ctx)"
    | "p_TLSHandling p = TLSHandlingRequire" "\<not> ReqTLS (ctx_Request ctx)"
    | "p_TLSHandling p = TLSHandlingRedirect" "\<not> ReqTLS (ctx_Request ctx)"
    using assms(1) by (cases "p_TLSHandling p") (auto simp: tls_accepted_def)
  then have "\<exists>ctx'. handleTLS https_url p ctx = Done (True, ctx') \<and> client_status ctx' \<in> {Some 426, Some 301}"
  proof cases
    case 1
    then show ?thesis
      using e [of "add_header ''Upgrade'' ''HTTP/2.0, HTTP/1.1, HTTP/1.0'' ctx" "''TLS not supported''"] assms(2)
      by (auto simp: handleTLS_def)
  next
    case 2
    show ?thesis
    proof (cases "defaultTLSListener p")
      case None
      then show ?thesis using 2 e [of ctx "''TLS required''"] assms(2) by (auto simp: handleTLS_def)
    next
      case (Some l)
      obtain cfg port where l: "l = (cfg, port)" by fastforce
      obtain ps where "upgrade_protocols cfg = Some ps" using upgrade_protocols_some by fast
      then show ?thesis
        using 2 Some l e [of "add_header ''Upgrade'' ps ctx" "''TLS required''"] assms(2)
        by (auto simp: handleTLS_def)
    qed
  next
    case 3
    then show ?thesis using r [of "add_header ''Location'' _ ctx"] assms(2) by (simp add: handleTLS_def Let_def) metis
  qed
  then show ?thesis using that by blast
qed

lemma AuthenticateRequest_keeps:
  assumes "AuthenticateRequest hash hmac uni quote auth ctx = Done (None, ctx')"
  shows "ctx' = ctx \<or> (\<exists>u. ctx' = set_var ''http.request.username'' u (ctx\<lparr>ctx_Username := u\<rparr>))"
  using assms
  by (cases auth) (auto simp: BasicAuth_AuthenticateRequest_def BearerAuth_AuthenticateRequest_def Let_def reply_with_def
      split: sum.splits option.splits prod.splits if_splits outcome.splits)

fun handler_auths :: "'a Handler list \<Rightarrow> 'a list" where
  "handler_auths [] = []"
| "handler_auths (Handler h hs # rest) =
     (case h_Auth h of None \<Rightarrow> [] | Some a \<Rightarrow> [a]) @ handler_auths hs @ handler_auths rest"

lemma visited_auths:
  "h \<in> set (visited hs ctx) \<Longrightarrow> h_Auth h = Some a \<Longrightarrow> a \<in> set (handler_auths hs)"
  by (induction hs ctx rule: visited.induct) (auto split: if_splits)

lemma latest_in: "latest f None hs = Some a \<Longrightarrow> \<exists>h \<in> set hs. f h = Some a"
proof (induction hs rule: rev_induct)
  case (snoc h hs)
  then show ?case by (auto simp: latest_def split: option.splits)
qed simp

lemma findHandler_keeps:
  "findHandler hs ctx = (r, ctx') \<Longrightarrow> ctx_Request ctx' = ctx_Request ctx \<and> ctx_Writer ctx' = ctx_Writer ctx \<and>
    ctx_ClientAddress ctx' = ctx_ClientAddress ctx \<and> ctx_Host ctx' = ctx_Host ctx \<and>
    ctx_Auth ctx' = latest h_Auth (ctx_Auth ctx) (visited hs ctx)"
  unfolding findHandler_def using find_handler_visited by blast

text \<open>
  \<open>answered\<close>: the server has answered the request itself, whatever the actions are, with one
  of these statuses. \<open>acted\<close>: the answer is that of an action, run in a context that
  \<open>cleared\<close> every check.
\<close>

definition answered :: "(actions \<Rightarrow> auth_context outcome) \<Rightarrow> int set \<Rightarrow> bool" where
  "answered r statuses \<longleftrightarrow> (\<exists>ctx. (\<forall>act. r act = Done ctx) \<and> client_status ctx \<in> Some ` statuses)"

definition cleared :: "world \<Rightarrow> Protocol \<Rightarrow> server_state \<Rightarrow> Auth HandlerCfg \<Rightarrow> auth_context \<Rightarrow> bool" where
  "cleared w p sv h ctx \<longleftrightarrow> fst (limit_request w ctx sv) \<and>
     (\<forall>auth. ctx_Auth ctx = Some auth \<longrightarrow>
        auth_accepts (w_hash w) (w_hmac w) (w_uni w) (w_quote w) auth (ctx_Request ctx)) \<and>
     client_status ctx = None"

definition acted :: "world \<Rightarrow> Protocol \<Rightarrow> server_state \<Rightarrow> Request \<Rightarrow> (actions \<Rightarrow> auth_context outcome) \<Rightarrow> auth_context \<Rightarrow> bool" where
  "acted w p sv req r ctx0 \<longleftrightarrow> (\<exists>h a ctx. h_Action h = Some a \<and> (\<forall>act. r act = act a ctx) \<and>
     fst (findHandler (p_Handlers p) ctx0) = Some h \<and> ctx_Request ctx = req \<and> ctx_Host ctx = ctx_Host ctx0 \<and>
     ctx_ClientAddress ctx = ctx_ClientAddress ctx0 \<and>
     ctx_Auth ctx = latest h_Auth (ctx_Auth ctx0) (visited (p_Handlers p) ctx0) \<and> cleared w p sv h ctx)"

lemma answeredI: "(\<And>act. r act = Done ctx) \<Longrightarrow> client_status ctx = Some s \<Longrightarrow> s \<in> statuses \<Longrightarrow> answered r statuses"
  by (auto simp: answered_def)

lemma answered_ReplyError2:
  assumes "client_status c = None" "200 \<le> s" "s \<le> 999" "s \<in> statuses" "\<And>act. r act = ReplyError2 s msg c"
  shows "answered r statuses"
  using ReplyError2_sent [OF assms(1-3), of msg] assms(4,5) by (auto simp: answered_def)

lemma answered_ReplyError:
  assumes "client_status c = None" "200 \<le> s" "s \<le> 999" "s \<in> statuses" "\<And>act. r act = ReplyError reason s c"
  shows "answered r statuses"
  by (rule answered_ReplyError2 [OF assms(1-4)]) (use assms(5) in \<open>simp add: ReplyError_def\<close>)

lemma answered_mono: "answered r S \<Longrightarrow> S \<subseteq> T \<Longrightarrow> answered r T"
  by (auto simp: answered_def)

text \<open>What the checks of the dispatch leave of the context.\<close>

definition same_client :: "auth_context \<Rightarrow> auth_context \<Rightarrow> bool" where
  "same_client c c' \<longleftrightarrow> ctx_Request c' = ctx_Request c \<and> ctx_Host c' = ctx_Host c \<and>
     ctx_ClientAddress c' = ctx_ClientAddress c \<and> ctx_Auth c' = ctx_Auth c \<and>
     ctx_RateLimiter c' = ctx_RateLimiter c \<and> ctx_Writer c' = ctx_Writer c"

lemma same_client_set_user [simp]: "same_client c (set_var k u (c\<lparr>ctx_Username := u\<rparr>))"
  by (simp add: same_client_def)

lemma same_client_refl [simp]: "same_client c c"
  by (simp add: same_client_def)

lemma same_client_limit: "same_client c c' \<Longrightarrow> limit_request w c' sv = limit_request w c sv"
  by (simp add: same_client_def limit_request_def split: option.split)

lemma authenticate_request_cases:
  assumes comp: "\<forall>auth. ctx_Auth c = Some auth \<longrightarrow> auth_complete auth" and sc: "client_status c = None"
  obtains (run) c' where "authenticate_request w c = Done (True, c')" "same_client c c'"
      "\<And>auth. ctx_Auth c = Some auth \<Longrightarrow>
         auth_accepts (w_hash w) (w_hmac w) (w_uni w) (w_quote w) auth (ctx_Request c)"
    | (refused) c' where "authenticate_request w c = Done (False, c')" "client_status c' \<in> {Some 401, Some 403}"
proof (cases "ctx_Auth c")
  case None
  then show ?thesis by (intro run [of c]) (simp_all add: authenticate_request_def)
next
  case (Some auth)
  note dec = auth.decides [OF comp [rule_format, OF Some] sc, of "w_hash w" "w_hmac w" "w_uni w" "w_quote w"]
  obtain err c' where au: "AuthenticateRequest (w_hash w) (w_hmac w) (w_uni w) (w_quote w) auth c = Done (err, c')"
    using auth.no_panic [OF comp [rule_format, OF Some] sc, of "w_hash w" "w_hmac w" "w_uni w" "w_quote w"]
    by (metis outcome.exhaust surj_pair)
  show ?thesis
  proof (cases err)
    case None
    have "same_client c c'" using AuthenticateRequest_keeps [OF au [unfolded None]] by auto
    then show ?thesis using dec [OF au] None Some au
      by (intro run [of c']) (simp_all add: authenticate_request_def)
  next
    case (Some e)
    then show ?thesis using dec [OF au] au \<open>ctx_Auth c = Some auth\<close>
      by (intro refused [of c']) (simp_all add: authenticate_request_def)
  qed
qed

text \<open>The last step of a dispatch that no check has stopped.\<close>

lemma run_action_gate:
  assumes f: "findHandler (p_Handlers p) ctx = (Some h, c)" and l: "limit_request w c sv = (True, sv')"
    and a: "authenticate_request w c = Done (True, c')" "same_client c c'"
      "\<And>auth. ctx_Auth c = Some auth \<Longrightarrow>
         auth_accepts (w_hash w) (w_hmac w) (w_uni w) (w_quote w) auth (ctx_Request c)"
    and sc: "client_status c = None"
  shows "answered (\<lambda>act. fst (dispatch w act p ctx sv)) {501} \<or>
    acted w p sv (ctx_Request ctx) (\<lambda>act. fst (dispatch w act p ctx sv)) ctx"
proof -
  note k = findHandler_keeps [OF f]
  have s': "client_status c' = None" using a(2) sc by (simp add: client_status_def same_client_def)
  have d: "fst (dispatch w act p ctx sv) = run_action w act h c'" for act
    using f l a(1) by (simp add: dispatch_def)
  show ?thesis
  proof (cases "h_Action h")
    case None
    then show ?thesis using d
      by (intro disjI1 answered_ReplyError [OF s', where s = 501 and reason = "w_reason w"])
        (simp_all add: run_action_def)
  next
    case (Some i)
    have "cleared w p sv h c'"
      using a(2,3) s' l same_client_limit [OF a(2)] by (simp add: cleared_def same_client_def)
    moreover have "\<forall>act. fst (dispatch w act p ctx sv) = act i c'" using d Some by (simp add: run_action_def)
    ultimately have "acted w p sv (ctx_Request ctx) (\<lambda>act. fst (dispatch w act p ctx sv)) ctx"
      unfolding acted_def using Some k f a(2)
      by (intro exI [of _ h] exI [of _ i] exI [of _ c']) (simp add: same_client_def)
    then show ?thesis ..
  qed
qed

lemma dispatch_gate:
  assumes ok: "\<forall>a \<in> set (handler_auths (p_Handlers p)). auth_complete a"
    and s: "client_status ctx = None" and n: "ctx_Auth ctx = None"
  shows "answered (\<lambda>act. fst (dispatch w act p ctx sv)) {401, 403, 404, 429, 501} \<or>
    acted w p sv (ctx_Request ctx) (\<lambda>act. fst (dispatch w act p ctx sv)) ctx"
proof -
  obtain r c where f: "findHandler (p_Handlers p) ctx = (r, c)" by fastforce
  note k = findHandler_keeps [OF f]
  have sc: "client_status c = None" using k s by (simp add: client_status_def)
  have comp: "\<forall>auth. ctx_Auth c = Some auth \<longrightarrow> auth_complete auth"
  proof (intro allI impI)
    fix auth assume "ctx_Auth c = Some auth"
    then have "latest h_Auth None (visited (p_Handlers p) ctx) = Some auth" using k n by simp
    from latest_in [OF this] obtain h where h: "h \<in> set (visited (p_Handlers p) ctx)" "h_Auth h = Some auth" by blast
    show "auth_complete auth" using ok visited_auths [OF h] by simp
  qed
  obtain pass sv' where l: "limit_request w c sv = (pass, sv')" by fastforce
  consider (none) "r = None" | (limited) h where "r = Some h" "\<not> pass" | (passed) h where "r = Some h" pass by fast
  then show ?thesis
  proof cases
    case none
    then show ?thesis using f
      by (intro disjI1 answered_ReplyError2 [OF sc, where s = 404 and msg = "''unhandled request''"])
        (simp_all add: dispatch_def)
  next
    case limited
    then show ?thesis using f l
      by (intro disjI1 answered_ReplyError2 [OF sc, where s = 429 and msg = "''rate limit reached''"])
        (simp_all add: dispatch_def)
  next
    case passed
    show ?thesis
    proof (cases rule: authenticate_request_cases [OF comp sc, where w = w])
      case (1 c')
      from run_action_gate [OF f [unfolded passed(1)] l [unfolded eqTrueI [OF passed(2)]] 1 sc]
      show ?thesis by (auto elim: answered_mono)
    next
      case (2 c')
      then show ?thesis using f l passed by (intro disjI1) (auto simp: dispatch_def answered_def)
    qed
  qed
qed

section \<open>Properties\<close>

definition request_host :: "Request \<Rightarrow> string" where
  "request_host req = (if ReqHost req = [] then UrlHost req else ReqHost req)"

lemma IdentifyClient_keeps:
  "IdentifyClient ctx = (e, c) \<Longrightarrow> ctx_Request c = ctx_Request ctx \<and> ctx_Writer c = ctx_Writer ctx \<and>
    ctx_Auth c = ctx_Auth ctx \<and>
    (e = None \<longrightarrow> (\<exists>port. ParseNumericAddress (RemoteAddr (ctx_Request ctx)) = Inr (ctx_ClientAddress c, port)))"
  by (auto simp: IdentifyClient_def split: sum.splits prod.splits)

lemma IdentifyRequestHost_keeps:
  "IdentifyRequestHost ctx = (e, c) \<Longrightarrow> ctx_Request c = ctx_Request ctx \<and> ctx_Writer c = ctx_Writer ctx \<and>
    ctx_Auth c = ctx_Auth ctx \<and> ctx_ClientAddress c = ctx_ClientAddress ctx \<and>
    (e = None \<longrightarrow> ParseHostHeaderField (request_host (ctx_Request ctx)) = Inr (ctx_Host c))"
  by (auto simp: IdentifyRequestHost_def Let_def request_host_def split: sum.splits)

lemma handleHSTS_keeps:
  "ctx_Request (handleHSTS p ctx) = ctx_Request ctx" "ctx_Auth (handleHSTS p ctx) = ctx_Auth ctx"
  "ctx_ClientAddress (handleHSTS p ctx) = ctx_ClientAddress ctx" "ctx_Host (handleHSTS p ctx) = ctx_Host ctx"
  "client_status (handleHSTS p ctx) = client_status ctx"
  by (simp_all add: handleHSTS_def)

text \<open>C1: Nothing reaches an action unchecked. Every request is either answered by the server itself,
  with one of the statuses listed and whatever the actions are, or handed to the action of the
  handler that routing selects, and then its client address and host have been identified,
  it came over a connection the TLS policy accepts, the rate limiter in force has let it
  through, the authentication in force (that of the last handler on its way that sets one)
  accepts it, and nothing has been sent yet.\<close>

theorem serve_gate:
  assumes "\<forall>a \<in> set (handler_auths (p_Handlers p)). auth_complete a"
    and "ctx0 = (NewRequestContext (w_uni w) req out)\<lparr>ctx_AccessLogger := logger\<rparr>"
  shows "answered (\<lambda>act. fst (handle_request w act p ctx0 sv)) {301, 400, 401, 403, 404, 426, 429, 500, 501} \<or>
    (\<exists>ctx port. ParseNumericAddress (RemoteAddr req) = Inr (ctx_ClientAddress ctx, port) \<and>
      ParseHostHeaderField (request_host req) = Inr (ctx_Host ctx) \<and> tls_accepted p req \<and>
      acted w p sv req (\<lambda>act. fst (handle_request w act p ctx0 sv)) ctx)"
proof -
  have init: "client_status ctx0 = None" "ctx_Auth ctx0 = None" "ctx_Request ctx0 = req"
    by (simp_all add: assms(2) NewRequestContext_def client_status_def NewResponseWriter_def)
  obtain e1 c1 where ic: "IdentifyClient ctx0 = (e1, c1)" by fastforce
  obtain e2 c2 where ih: "IdentifyRequestHost c1 = (e2, c2)" by fastforce
  note k1 = IdentifyClient_keeps [OF ic] and k2 = IdentifyRequestHost_keeps [OF ih]
  have s1: "client_status c1 = None" and s2: "client_status c2 = None" and r2: "ctx_Request c2 = req"
    using k1 k2 init by (simp_all add: client_status_def)
  consider (client) e where "e1 = Some e" | (host) e where "e1 = None" "e2 = Some e"
    | (tls) "e1 = None" "e2 = None" "\<not> tls_accepted p req"
    | (go) "e1 = None" "e2 = None" "tls_accepted p req" by (cases e1; cases e2) auto
  then show ?thesis
  proof cases
    case client
    then show ?thesis using ic
      by (intro disjI1 answered_ReplyError [OF s1, where s = 500 and reason = "w_reason w"])
        (simp_all add: handle_request_def)
  next
    case host
    then show ?thesis using ic ih
      by (intro disjI1 answered_ReplyError2 [OF s2, where s = 400 and msg = "w_host_error w e"])
        (simp_all add: handle_request_def)
  next
    case tls
    then obtain c where "handleTLS (w_https_url w) p c2 = Done (True, c)" "client_status c \<in> {Some 426, Some 301}"
      using handleTLS_refused [of p c2 "w_https_url w" thesis] r2 s2 by auto
    then show ?thesis using ic ih tls by (intro disjI1) (auto simp: handle_request_def answered_def)
  next
    case go
    let ?c = "handleHSTS p c2"
    have eq: "(\<lambda>act. fst (handle_request w act p ctx0 sv)) = (\<lambda>act. fst (dispatch w act p ?c sv))"
      using ic ih go handleTLS_accepted [of p c2 "w_https_url w"] r2 by (simp add: handle_request_def)
    have "answered (\<lambda>act. fst (dispatch w act p ?c sv)) {401, 403, 404, 429, 501} \<or>
        acted w p sv (ctx_Request ?c) (\<lambda>act. fst (dispatch w act p ?c sv)) ?c"
      using k1 k2 init s2 by (intro dispatch_gate [OF assms(1)]) (simp_all add: handleHSTS_keeps)
    moreover obtain port where "ParseNumericAddress (RemoteAddr req) = Inr (ctx_ClientAddress ?c, port)"
      using k1 k2 go init by (auto simp: handleHSTS_keeps)
    moreover have "ParseHostHeaderField (request_host req) = Inr (ctx_Host ?c)"
      using k1 k2 go init by (simp add: handleHSTS_keeps)
    ultimately show ?thesis unfolding eq using go r2
      by (auto simp: handleHSTS_keeps elim!: answered_mono)
  qed
qed

definition demo_world :: world where
  "demo_world = \<lparr>w_hash = \<lambda>_. rev, w_hmac = \<lambda>_ _. id, w_uni = id, w_quote = id, w_reason = \<lambda>_. ''Error'',
     w_host_error = \<lambda>_. ''error'', w_https_url = \<lambda>host req. ''https://'' @ host @ UrlText req,
     w_clock = 0, w_start = 0, w_time = ''now'', w_response_time = ''0''\<rparr>"

definition demo_handler :: "Auth Handler" where
  "demo_handler = Handler \<lparr>h_Match = empty_MatchCfg, h_AccessLogger = None,
     h_Auth = Some (BasicAuth demo_secrets [''ab:63'']), h_RateLimiter = None, h_NextHandler = False,
     h_Action = Some 0\<rparr> []"

definition demo_protocol :: Protocol where
  "demo_protocol = \<lparr>p_TLSHandling = TLSHandlingRequire, p_HSTS = False, p_Listeners = [], p_Handlers = [demo_handler]\<rparr>"

lemma serve_gate_witness:
  "answered (\<lambda>act. fst (handle_request demo_world act demo_protocol
      ((NewRequestContext (w_uni demo_world) demo_request \<lparr>sent = [], room = None, werr = EOF\<rparr>)
        \<lparr>ctx_AccessLogger := None\<rparr>)
      \<lparr>sv_limiters = \<lambda>_. NewRateLimiter 0 \<lparr>CfgGlobal = None, CfgPerIPv4 = [], CfgPerIPv6 = [], CfgAddresses = []\<rparr>,
       sv_loggers = \<lambda>_. demo_logger\<rparr>))
    {301, 400, 401, 403, 404, 426, 429, 500, 501}"
proof -
  have 1: "\<forall>a \<in> set (handler_auths (p_Handlers demo_protocol)). auth_complete a"
    by (simp add: demo_protocol_def demo_handler_def demo_secrets_def secrets_complete_def)
  have 2: "\<not> tls_accepted demo_protocol demo_request"
    by (simp add: tls_accepted_def demo_protocol_def demo_request_def)
  show ?thesis using serve_gate [OF 1 refl, where w = demo_world and req = demo_request] 2 by blast
qed

end
