(* ===== verification/Clean_Path.thy ===== *)
theory Clean_Path
  imports Prelude
begin

text \<open>
  \<open>path.Clean\<close> and \<open>path.Join\<close> of Go's standard library, which the serve action uses to find
  the file of a request: a purely lexical processing of the elements of a path.
\<close>

section \<open>The model\<close>

text \<open>One element after those already written, which are kept in reverse order.\<close>

definition clean_step :: "bool \<Rightarrow> string list \<Rightarrow> string \<Rightarrow> string list" where
  "clean_step rooted acc e =
     (if e = [] \<or> e = ''.'' then acc
      else if e = ''..'' then
        (if acc \<noteq> [] \<and> hd acc \<noteq> ''..'' then tl acc
         else if rooted then acc else ''..'' # acc)
      else e # acc)"

definition clean_elements :: "bool \<Rightarrow> string list \<Rightarrow> string list" where
  "clean_elements rooted es = rev (foldl (clean_step rooted) [] es)"

definition Clean :: "string \<Rightarrow> string" where
  "Clean path =
     (if path = [] then ''.''
      else let rooted = (hd path = CHR ''/'');
               cleaned = (if rooted then ''/'' else []) @ Join (clean_elements rooted (Split path CHR ''/'')) ''/''
           in if cleaned = [] then ''.'' else cleaned)"

definition path_Join :: "string list \<Rightarrow> string" where
  "path_Join elems =
     (let elems = dropWhile (\<lambda>e. e = []) elems in if elems = [] then [] else Clean (Join elems ''/''))"

section \<open>Clean elements\<close>

definition plain_element :: "string \<Rightarrow> bool" where
  "plain_element e \<longleftrightarrow> e \<noteq> [] \<and> e \<noteq> ''.'' \<and> e \<noteq> ''..'' \<and> CHR ''/'' \<notin> set e"

lemma clean_step_plain [simp]: "plain_element e \<Longrightarrow> clean_step rooted acc e = e # acc"
  by (simp add: clean_step_def plain_element_def)

lemma fold_plain: "list_all plain_element es \<Longrightarrow> foldl (clean_step rooted) acc es = rev es @ acc"
  by (induction es arbitrary: acc) simp_all

lemma fold_dotdot:
  "list_all plain_element acc \<Longrightarrow> foldl (clean_step True) acc (replicate n ''..'') = drop n acc"
proof (induction n arbitrary: acc)
  case (Suc n)
  show ?case
  proof (cases acc)
    case Nil
    then show ?thesis using Suc.IH [of "[]"] by (simp add: clean_step_def)
  next
    case (Cons a as)
    then have "clean_step True acc ''..'' = as" using Suc.prems by (auto simp: clean_step_def plain_element_def)
    then show ?thesis using Suc.IH [of as] Suc.prems Cons by simp
  qed
qed simp

text \<open>Elements below a directory, after \<open>n\<close> times \<open>..\<close>, in a rooted path.\<close>

lemma clean_elements_up:
  assumes "list_all plain_element bs" "list_all plain_element cs"
  shows "clean_elements True ([] # bs @ replicate n ''..'' @ cs) = take (length bs - n) bs @ cs"
proof -
  have "list_all plain_element (rev bs)" using assms(1) by (simp add: list_all_iff)
  from fold_dotdot [OF this, of n]
  have "foldl (clean_step True) [] ([] # bs @ replicate n ''..'' @ cs) = rev cs @ drop n (rev bs)"
    using assms by (simp add: fold_plain clean_step_def [of True "[]" "[]"])
  then show ?thesis by (simp add: clean_elements_def rev_drop take_rev [symmetric]) 
qed

text \<open>A directory with the elements \<open>bs\<close>, and a path relative to it.\<close>

definition root_path :: "string list \<Rightarrow> string" where
  "root_path es = ''/'' @ Join es ''/''"

lemma Join_append_sep:
  "xs \<noteq> [] \<Longrightarrow> ys \<noteq> [] \<Longrightarrow> Join (xs @ ys) sep = Join xs sep @ sep @ Join ys sep"
proof (induction xs)
  case (Cons x xs)
  then show ?case by (cases xs; cases ys) auto
qed simp

lemma Join_not_Nil: "ps \<noteq> [] \<Longrightarrow> hd ps \<noteq> [] \<Longrightarrow> Join ps sep \<noteq> []"
  by (cases "(ps, sep)" rule: Join.cases) auto

lemma path_Join_up:
  assumes "list_all plain_element bs" "list_all plain_element cs" "bs \<noteq> []" "replicate n ''..'' @ cs \<noteq> []"
  shows "path_Join [root_path bs, Join (replicate n ''..'' @ cs) ''/''] = root_path (take (length bs - n) bs @ cs)"
proof -
  let ?es = "[] # bs @ replicate n ''..'' @ cs"
  have ne: "bs @ replicate n ''..'' @ cs \<noteq> []" using assms(3) by simp
  have es: "Join ?es ''/'' = ''/'' @ Join bs ''/'' @ ''/'' @ Join (replicate n ''..'' @ cs) ''/''"
    using Join_append_sep [OF assms(3,4), of "''/''"] Join_Cons_ne [OF ne, of "[]" "''/''"] by simp
  then have "Join [root_path bs, Join (replicate n ''..'' @ cs) ''/''] ''/'' = Join ?es ''/''"
    by (simp add: root_path_def)
  moreover have "Split (Join ?es ''/'') CHR ''/'' = ?es"
  proof (rule Split_Join)
    have "\<forall>p \<in> set (replicate n ''..''). CHR ''/'' \<notin> set p" by simp
    then show "\<forall>p \<in> set ?es. CHR ''/'' \<notin> set p"
      using assms(1,2) by (simp add: list_all_iff plain_element_def ball_Un)
  qed simp
  moreover have "Join ?es ''/'' \<noteq> [] \<and> hd (Join ?es ''/'') = CHR ''/''"
    using es by simp
  ultimately show ?thesis
    using clean_elements_up [OF assms(1,2), of n]
    by (simp add: path_Join_def Clean_def root_path_def Let_def)
qed

end
