(* ===== verification/Http_Actions.thy ===== *)
theory Http_Actions
  imports Http_Context Format_String Clean_Path
begin

text \<open>
  The actions that answer a request by themselves: \<open>header_ops.go\<close>, \<open>action_reply.go\<close>,
  \<open>redirections.go\<close>, \<open>action_redirect.go\<close> and \<open>action_serve.go\<close> in \<open>src/pkg/protocols/http\<close>.
  \<open>action_world\<close> gathers what they use: the file system (\<open>os.Stat\<close>, \<open>os.Open\<close>), \<open>url.Parse\<close>
  followed by \<open>String\<close>, \<open>http.ServeContent\<close>, \<open>os.ReadDir\<close>, the rendering of the two views, and
  the reason phrases. The limit \<open>max_files\<close> of the view is read from the configuration but
  never used, so it has no place in the model.
\<close>

section \<open>Operations on the header of the response\<close>

datatype HeaderOpType = HeaderOpTypeSet | HeaderOpTypeAdd | HeaderOpTypeRemove

record HeaderOp =
  ho_Type :: HeaderOpType
  ho_Name :: string
  ho_Value :: FormatString

text \<open>The entries of a block with a name, each with its two values.\<close>

definition readEntries ::
  "(string \<Rightarrow> (string \<times> FormatString) list) \<Rightarrow> string \<Rightarrow> HeaderOpType \<Rightarrow> HeaderOp list" where
  "readEntries entries name t =
     map (\<lambda>(n, v). \<lparr>ho_Type = t, ho_Name = n, ho_Value = v\<rparr>) (entries name)"

definition HeaderOps_ReadBCLElement :: "(string \<Rightarrow> (string \<times> FormatString) list) \<Rightarrow> HeaderOp list" where
  "HeaderOps_ReadBCLElement entries =
     readEntries entries ''set'' HeaderOpTypeSet @ readEntries entries ''add'' HeaderOpTypeAdd @
     readEntries entries ''remove'' HeaderOpTypeRemove"

definition apply_op :: "(string \<rightharpoonup> string) \<Rightarrow> http_header \<Rightarrow> HeaderOp \<Rightarrow> http_header" where
  "apply_op vars h op =
     (let val = FormatString_Expand (ho_Value op) vars in
      case ho_Type op of
        HeaderOpTypeSet \<Rightarrow> SetField h (ho_Name op) val
      | HeaderOpTypeAdd \<Rightarrow> AddField h (ho_Name op) val
      | HeaderOpTypeRemove \<Rightarrow> DelField h (ho_Name op))"

definition HeaderOps_Apply :: "HeaderOp list \<Rightarrow> http_header \<Rightarrow> (string \<rightharpoonup> string) \<Rightarrow> http_header" where
  "HeaderOps_Apply ops h vars = foldl (apply_op vars) h ops"

definition apply_to_response :: "HeaderOp list \<Rightarrow> 'a RequestContext \<Rightarrow> 'a RequestContext" where
  "apply_to_response ops ctx =
     ctx\<lparr>ctx_Writer := (ctx_Writer ctx)\<lparr>rw_header := HeaderOps_Apply ops (rw_header (ctx_Writer ctx)) (ctx_Vars ctx)\<rparr>\<rparr>"

section \<open>Replies and redirections\<close>

datatype file_mode = Directory | RegularFile | SpecialFile

datatype stat_result = Stat file_mode | StatNotExist | StatError

datatype open_result = Opened | OpenNotExist | OpenError

text \<open>A directory entry; its size and formatted modification time may be unavailable.\<close>

record dir_entry =
  de_Name :: string
  de_IsDir :: bool
  de_Info :: "(int \<times> string) option"

record ServeIndexEntry =
  ie_Filename :: string
  ie_DisplayedFilename :: string
  ie_Directory :: bool
  ie_Size :: int
  ie_DisplayedSize :: string
  ie_MTime :: string

text \<open>The data of the template of a directory.\<close>

record index_data =
  DirectoryPath :: string
  Entries :: "ServeIndexEntry list"
  MaxDisplayedFilenameLength :: nat
  MTimeLength :: nat
  MaxDisplayedSizeLength :: nat

record 'a action_world =
  aw_reason :: "int \<Rightarrow> string"
  aw_parse_uri :: "string \<Rightarrow> string option"
  aw_render_redirect :: "int \<Rightarrow> string \<Rightarrow> 'a RequestContext \<Rightarrow> string option"
  aw_render_index :: "index_data \<Rightarrow> 'a RequestContext \<Rightarrow> string option"
  aw_read_dir :: "string \<Rightarrow> dir_entry list option"
  aw_two_decimals :: "int \<Rightarrow> nat \<Rightarrow> string"
  aw_stat :: "string \<Rightarrow> stat_result"
  aw_open :: "string \<Rightarrow> open_result"
  aw_serve_content :: "string \<Rightarrow> 'a RequestContext \<Rightarrow> 'a RequestContext outcome"

record ReplyActionCfg =
  ra_Status :: int
  ra_Header :: "HeaderOp list"
  ra_Body :: "FormatString option"

definition ReplyAction_HandleRequest :: "ReplyActionCfg \<Rightarrow> 'a RequestContext \<Rightarrow> 'a RequestContext outcome" where
  "ReplyAction_HandleRequest cfg ctx =
     (let status = (if ra_Status cfg \<noteq> 0 then ra_Status cfg else 200);
          ctx = apply_to_response (ra_Header cfg) ctx;
          body = map_option (\<lambda>b. FormatString_Expand b (ctx_Vars ctx)) (ra_Body cfg)
      in Reply status body ctx)"

definition redirect ::
  "'a action_world \<Rightarrow> int \<Rightarrow> string \<Rightarrow> HeaderOp list \<Rightarrow> FormatString option \<Rightarrow> 'a RequestContext \<Rightarrow>
     'a RequestContext outcome" where
  "redirect w status uriString ops body ctx =
     (let status = (if status = 0 then 302 else status) in
      case aw_parse_uri w uriString of
        None \<Rightarrow> ReplyError (aw_reason w) 500 ctx
      | Some uri \<Rightarrow>
          let ctx = set_header ''Location'' uri (set_var ''http.redirect.uri'' uri ctx);
              ctx = apply_to_response ops ctx in
          if ReqMethod (ctx_Request ctx) = ''GET'' then
            (case body of
               None \<Rightarrow>
                 let ctx = set_header ''Content-Type'' (MediaType_String MediaTypeHTML) ctx in
                 (case aw_render_redirect w status uri ctx of
                    None \<Rightarrow> ReplyError (aw_reason w) 500 ctx
                  | Some content \<Rightarrow> Reply status (Some content) ctx)
             | Some b \<Rightarrow> Reply status (Some (FormatString_Expand b (ctx_Vars ctx))) ctx)
          else Reply status None ctx)"

record RedirectActionCfg =
  rd_Status :: int
  rd_URI :: FormatString
  rd_Header :: "HeaderOp list"
  rd_Body :: "FormatString option"

definition RedirectAction_HandleRequest ::
  "'a action_world \<Rightarrow> RedirectActionCfg \<Rightarrow> 'a RequestContext \<Rightarrow> 'a RequestContext outcome" where
  "RedirectAction_HandleRequest w cfg ctx =
     redirect w (rd_Status cfg) (FormatString_Expand (rd_URI cfg) (ctx_Vars ctx)) (rd_Header cfg) (rd_Body cfg) ctx"

section \<open>Serving files\<close>

record ServeActionCfg =
  sa_Path :: FormatString
  sa_IndexFiles :: "string list"
  sa_IndexRedirect :: "(int \<times> FormatString) option"
  sa_IndexView :: bool
  sa_FileNotFound :: "ReplyActionCfg option"

text \<open>The path of the file of a request; \<open>hasPaths\<close> says whether the handler matches paths.\<close>

definition serve_path :: "bool \<Rightarrow> ServeActionCfg \<Rightarrow> 'a RequestContext \<Rightarrow> string" where
  "serve_path hasPaths cfg ctx =
     (let basePath = FormatString_Expand (sa_Path cfg) (ctx_Vars ctx);
          subpath = (if ctx_Subpath ctx = [] \<and> \<not> hasPaths then UrlPath (ctx_Request ctx) else ctx_Subpath ctx)
      in path_Join [basePath, subpath])"

text \<open>The first index file that can be opened.\<close>

fun find_index :: "'a action_world \<Rightarrow> string \<Rightarrow> string list \<Rightarrow> string option" where
  "find_index w filePath [] = None"
| "find_index w filePath (i # is) =
     (let p = path_Join [filePath, i] in
      case aw_stat w p of
        Stat _ \<Rightarrow> if aw_open w p = Opened then Some p else find_index w filePath is
      | _ \<Rightarrow> find_index w filePath is)"

text \<open>The view of a directory. \<open>aw_two_decimals n k\<close> is \<open>%.2f\<close> of \<open>n\<close> divided by ten to the \<open>k\<close>.\<close>

definition formatFileSize :: "'a action_world \<Rightarrow> int \<Rightarrow> string" where
  "formatFileSize w n =
     (if n < 10 ^ 3 then Itoa n @ ''     B''
      else if n < 10 ^ 6 then aw_two_decimals w n 3 @ ''KiB''
      else if n < 10 ^ 9 then aw_two_decimals w n 6 @ ''MiB''
      else if n < 10 ^ 12 then aw_two_decimals w n 9 @ ''GiB''
      else aw_two_decimals w n 12 @ ''TiB'')"

definition index_entry :: "'a action_world \<Rightarrow> dir_entry \<Rightarrow> ServeIndexEntry" where
  "index_entry w de =
     (let ie = \<lparr>ie_Filename = de_Name de, ie_DisplayedFilename = de_Name de @ (if de_IsDir de then ''/'' else []),
           ie_Directory = de_IsDir de, ie_Size = 0, ie_DisplayedSize = [], ie_MTime = []\<rparr>
      in case de_Info de of
           None \<Rightarrow> ie
         | Some (n, mtime) \<Rightarrow>
             (if de_IsDir de then ie else ie\<lparr>ie_Size := n, ie_DisplayedSize := formatFileSize w n\<rparr>)\<lparr>ie_MTime := mtime\<rparr>)"

definition readIndexEntries :: "'a action_world \<Rightarrow> string \<Rightarrow> ServeIndexEntry list option" where
  "readIndexEntries w dirPath = map_option (\<lambda>des. map (index_entry w) des) (aw_read_dir w dirPath)"

definition index_template_data :: "string \<Rightarrow> ServeIndexEntry list \<Rightarrow> index_data" where
  "index_template_data relDirPath entries = \<lparr>DirectoryPath = relDirPath, Entries = entries,
     MaxDisplayedFilenameLength = foldl (\<lambda>m e. max m (length (ie_Filename e))) 0 entries,
     MTimeLength = length ''2006-01-02 15:04:05Z'',
     MaxDisplayedSizeLength = foldl (\<lambda>m e. max m (length (ie_DisplayedSize e))) 0 entries\<rparr>"

definition serveIndexView :: "'a action_world \<Rightarrow> string \<Rightarrow> 'a RequestContext \<Rightarrow> 'a RequestContext outcome" where
  "serveIndexView w dirPath ctx =
     (case readIndexEntries w dirPath of
        None \<Rightarrow> ReplyError (aw_reason w) 500 ctx
      | Some entries \<Rightarrow>
          (case aw_render_index w (index_template_data (if ctx_Subpath ctx = [] then ''.'' else ctx_Subpath ctx) entries) ctx of
             None \<Rightarrow> ReplyError (aw_reason w) 500 ctx
           | Some content \<Rightarrow> Reply 200 (Some content) ctx))"

definition serve_directory ::
  "'a action_world \<Rightarrow> ServeActionCfg \<Rightarrow> string \<Rightarrow> 'a RequestContext \<Rightarrow> 'a RequestContext outcome" where
  "serve_directory w cfg filePath ctx =
     (case sa_IndexRedirect cfg of
        Some (status, uri) \<Rightarrow> redirect w status (FormatString_Expand uri (ctx_Vars ctx)) [] None ctx
      | None \<Rightarrow> (case find_index w filePath (sa_IndexFiles cfg) of
          Some p \<Rightarrow> aw_serve_content w p ctx
        | None \<Rightarrow>
            if sa_IndexView cfg then serveIndexView w filePath ctx
            else ReplyError2 403 ''directory access denied'' ctx))"

definition ServeAction_HandleRequest ::
  "'a action_world \<Rightarrow> bool \<Rightarrow> ServeActionCfg \<Rightarrow> 'a RequestContext \<Rightarrow> 'a RequestContext outcome" where
  "ServeAction_HandleRequest w hasPaths cfg ctx =
     (let filePath = serve_path hasPaths cfg ctx in
      case aw_stat w filePath of
        StatNotExist \<Rightarrow> (case sa_FileNotFound cfg of
          None \<Rightarrow> ReplyError2 404 ''file not found'' ctx
        | Some reply \<Rightarrow> ReplyAction_HandleRequest reply ctx)
      | StatError \<Rightarrow> ReplyError (aw_reason w) 500 ctx
      | Stat Directory \<Rightarrow> serve_directory w cfg filePath ctx
      | Stat SpecialFile \<Rightarrow> ReplyError2 403 ''file access denied'' ctx
      | Stat RegularFile \<Rightarrow> (case aw_open w filePath of
          OpenNotExist \<Rightarrow> ReplyError2 404 ''file not found'' ctx
        | OpenError \<Rightarrow> ReplyError (aw_reason w) 500 ctx
        | Opened \<Rightarrow> aw_serve_content w filePath ctx))"

section \<open>Header fields after the operations\<close>

definition same_field :: "string \<Rightarrow> string \<times> FormatString \<Rightarrow> bool" where
  "same_field name e \<longleftrightarrow> CanonicalKey (fst e) = CanonicalKey name"

lemma Values_ops [simp]:
  "Values (SetField h n v) name = (if CanonicalKey n = CanonicalKey name then [v] else Values h name)"
  "Values (AddField h n v) name = (if CanonicalKey n = CanonicalKey name then Values h name @ [v] else Values h name)"
  "Values (DelField h n) name = (if CanonicalKey n = CanonicalKey name then [] else Values h name)"
proof -
  show "Values (SetField h n v) name = (if CanonicalKey n = CanonicalKey name then [v] else Values h name)"
    by (auto simp: Values_def SetField_def)
  show "Values (AddField h n v) name = (if CanonicalKey n = CanonicalKey name then Values h name @ [v] else Values h name)"
    by (auto simp: Values_def AddField_def)
  have "map_of (filter (\<lambda>(k, vs). k \<noteq> c) h) k = (if k = c then None else map_of h k)" for c k
    by (induction h) auto
  then show "Values (DelField h n) name = (if CanonicalKey n = CanonicalKey name then [] else Values h name)"
    by (auto simp: Values_def DelField_def)
qed

definition expand_all :: "(string \<rightharpoonup> string) \<Rightarrow> (string \<times> FormatString) list \<Rightarrow> string list" where
  "expand_all vars es = map (\<lambda>e. FormatString_Expand (snd e) vars) es"

lemma sets_result:
  "Values (foldl (apply_op vars) h (map (\<lambda>(n, v). \<lparr>ho_Type = HeaderOpTypeSet, ho_Name = n, ho_Value = v\<rparr>) es)) name =
    (case expand_all vars (filter (same_field name) es) of [] \<Rightarrow> Values h name | vs \<Rightarrow> [last vs])"
proof (induction es rule: rev_induct)
  case (snoc e es)
  then show ?case
    by (auto simp: apply_op_def same_field_def expand_all_def split: list.splits prod.splits)
qed (simp add: expand_all_def)

lemma adds_result:
  "Values (foldl (apply_op vars) h (map (\<lambda>(n, v). \<lparr>ho_Type = HeaderOpTypeAdd, ho_Name = n, ho_Value = v\<rparr>) es)) name =
    Values h name @ expand_all vars (filter (same_field name) es)"
proof (induction es rule: rev_induct)
  case (snoc e es)
  then show ?case by (auto simp: apply_op_def same_field_def expand_all_def split: prod.splits)
qed (simp add: expand_all_def)

lemma removes_result:
  "Values (foldl (apply_op vars) h (map (\<lambda>(n, v). \<lparr>ho_Type = HeaderOpTypeRemove, ho_Name = n, ho_Value = v\<rparr>) es)) name =
    (if list_ex (same_field name) es then [] else Values h name)"
proof (induction es rule: rev_induct)
  case (snoc e es)
  then show ?case by (auto simp: apply_op_def same_field_def split: prod.splits)
qed simp

text \<open>The values of a field after the operations of a block: those a \<open>remove\<close> names are gone, the
  last \<open>set\<close> replaces the values there were, and every \<open>add\<close> follows.\<close>

definition block_values ::
  "(string \<Rightarrow> (string \<times> FormatString) list) \<Rightarrow> (string \<rightharpoonup> string) \<Rightarrow> http_header \<Rightarrow> string \<Rightarrow> string list" where
  "block_values entries vars h name =
     (if list_ex (same_field name) (entries ''remove'') then []
      else (case expand_all vars (filter (same_field name) (entries ''set'')) of [] \<Rightarrow> Values h name | vs \<Rightarrow> [last vs]) @
        expand_all vars (filter (same_field name) (entries ''add'')))"

lemma HeaderOps_Apply_values:
  "Values (HeaderOps_Apply (HeaderOps_ReadBCLElement entries) h vars) name = block_values entries vars h name"
  by (simp add: HeaderOps_Apply_def HeaderOps_ReadBCLElement_def readEntries_def block_values_def
      sets_result adds_result removes_result)

section \<open>Properties\<close>

text \<open>A reply action sends its status (200 when it has none) and the header of the response with
  the operations of its block applied: whatever the order of the entries in the block, a
  removed field is gone, the last \<open>set\<close> of a field replaces its values and each \<open>add\<close> follows,
  field names being compared in their canonical form.\<close>

theorem reply_action_header:
  assumes "client_status ctx = None" "ra_Status cfg = 0 \<or> ValidateBCLStatus (ra_Status cfg)"
    and "ra_Header cfg = HeaderOps_ReadBCLElement entries"
  shows "\<exists>ctx' h. ReplyAction_HandleRequest cfg ctx = Done ctx' \<and>
    rw_sent (ctx_Writer ctx') = Some (if ra_Status cfg = 0 then 200 else ra_Status cfg, h) \<and>
    (\<forall>name. Values h name = block_values entries (ctx_Vars ctx) (rw_header (ctx_Writer ctx)) name)"
proof -
  let ?status = "if ra_Status cfg \<noteq> 0 then ra_Status cfg else 200"
  let ?ctx = "apply_to_response (ra_Header cfg) ctx"
  have "client_status ?ctx = None" using assms(1) by (simp add: client_status_def apply_to_response_def)
  moreover have "200 \<le> ?status" "?status \<le> 999" using assms(2) by (auto simp: ValidateBCLStatus_def)
  ultimately obtain ctx' where
    r: "ReplyAction_HandleRequest cfg ctx = Done ctx'" "client_status ctx' = Some ?status"
      "map_option snd (rw_sent (ctx_Writer ctx')) = Some (rw_header (ctx_Writer ?ctx))"
    unfolding ReplyAction_HandleRequest_def Let_def using Reply_sent by blast
  then have "rw_sent (ctx_Writer ctx') = Some (?status, rw_header (ctx_Writer ?ctx))"
    by (cases "rw_sent (ctx_Writer ctx')") (auto simp: client_status_def)
  then show ?thesis using r(1) HeaderOps_Apply_values [of entries] assms(3)
    by (auto simp: apply_to_response_def)
qed

text \<open>The serve action follows \<open>..\<close> out of its directory. For a base directory with the elements
  \<open>bs\<close> and a subpath of \<open>n\<close> times \<open>..\<close> followed by plain elements \<open>cs\<close>, the file served is the one
  at \<open>cs\<close> below the directory \<open>n\<close> levels above the base: with \<open>n = 0\<close> it is always below the base,
  and with \<open>n > 0\<close>, since nothing has removed the \<open>..\<close> of the request before, it is not.\<close>

theorem serve_follows_dotdot:
  assumes "FormatString_Expand (sa_Path cfg) (ctx_Vars ctx) = root_path bs"
    and "list_all plain_element bs" "list_all plain_element cs" "bs \<noteq> []" "n + length cs \<noteq> 0"
    and "ctx_Subpath ctx = Join (replicate n ''..'' @ cs) ''/''"
    and "target = root_path (take (length bs - n) bs @ cs)"
    and "aw_stat w target = Stat RegularFile" "aw_open w target = Opened"
  shows "ServeAction_HandleRequest w hasPaths cfg ctx = aw_serve_content w target ctx"
proof -
  have ne: "replicate n ''..'' @ cs \<noteq> []" using assms(5) by auto
  have "hd (replicate n ''..'' @ cs) \<noteq> []" using ne assms(3) by (cases n; cases cs) (auto simp: plain_element_def)
  from Join_not_Nil [OF ne this, of "''/''"]
  have "ctx_Subpath ctx \<noteq> []" using assms(6) by simp
  then have "serve_path hasPaths cfg ctx = target"
    using path_Join_up [OF assms(2,3,4) ne] assms(1,6,7) by (simp add: serve_path_def)
  then show ?thesis using assms(8,9) by (simp add: ServeAction_HandleRequest_def)
qed

definition demo_fs_request :: Request where
  "demo_fs_request = \<lparr>ReqMethod = ''GET'', UrlPath = ''/f/../../etc/passwd'', UrlRawQuery = [], UrlHost = [],
     UrlText = ''/f/../../etc/passwd'', ReqProto = ''HTTP/1.1'', ProtoMajor = 1, ProtoMinor = 1, ReqHeader = [],
     ReqHost = ''localhost'', RemoteAddr = ''10.0.0.1:4000'', ReqTLS = False\<rparr>"

definition demo_fs_context :: "nat RequestContext" where
  "demo_fs_context = (NewRequestContext id demo_fs_request \<lparr>sent = [], room = None, werr = EOF\<rparr>)
     \<lparr>ctx_Subpath := ''../../etc/passwd''\<rparr>"

definition constant_format :: "string \<Rightarrow> FormatString" where
  "constant_format s = \<lparr>fs_Value = s, fs_parts = [Constant s], fs_lenHint = length s\<rparr>"

lemma Expand_constant [simp]: "FormatString_Expand (constant_format s) vars = s"
  by (simp add: constant_format_def FormatString_Expand_def)

definition demo_action_world :: "nat action_world" where
  "demo_action_world = \<lparr>aw_reason = \<lambda>_. ''Error'', aw_parse_uri = Some, aw_render_redirect = \<lambda>_ _ _. None,
     aw_render_index = \<lambda>_ _. None, aw_read_dir = \<lambda>_. None, aw_two_decimals = \<lambda>_ _. [],
     aw_stat = \<lambda>p. if p = ''/etc/passwd'' then Stat RegularFile else StatNotExist,
     aw_open = \<lambda>p. if p = ''/etc/passwd'' then Opened else OpenNotExist,
     aw_serve_content = \<lambda>p ctx. Reply 200 (Some p) ctx\<rparr>"

definition demo_serve :: ServeActionCfg where
  "demo_serve = \<lparr>sa_Path = constant_format ''/srv/www'', sa_IndexFiles = [], sa_IndexRedirect = None,
     sa_IndexView = False, sa_FileNotFound = None\<rparr>"

lemma serve_follows_dotdot_witness:
  "ServeAction_HandleRequest demo_action_world True demo_serve demo_fs_context =
    aw_serve_content demo_action_world ''/etc/passwd'' demo_fs_context"
proof (rule serve_follows_dotdot [where bs = "[''srv'', ''www'']" and cs = "[''etc'', ''passwd'']" and n = "Suc (Suc 0)"])
  show "FormatString_Expand (sa_Path demo_serve) (ctx_Vars demo_fs_context) = root_path [''srv'', ''www'']"
    by (simp add: demo_serve_def root_path_def)
  show "ctx_Subpath demo_fs_context = Join (replicate (Suc (Suc 0)) ''..'' @ [''etc'', ''passwd'']) ''/''"
    by (simp add: demo_fs_context_def)
  show "''/etc/passwd'' = root_path (take (length [''srv'', ''www''] - Suc (Suc 0)) [''srv'', ''www''] @ [''etc'', ''passwd''])"
    by (simp add: root_path_def)
qed (simp_all add: plain_element_def demo_action_world_def)

definition demo_reply :: ReplyActionCfg where
  "demo_reply = \<lparr>ra_Status = 204, ra_Header = HeaderOps_ReadBCLElement
     (\<lambda>n. if n = ''set'' then [(''x-a'', constant_format ''1'')] else []), ra_Body = None\<rparr>"

lemma reply_action_header_witness:
  "\<exists>ctx' h. ReplyAction_HandleRequest demo_reply demo_fs_context = Done ctx' \<and>
    rw_sent (ctx_Writer ctx') = Some (204, h) \<and> Values h ''X-A'' = [''1'']"
proof -
  let ?entries = "\<lambda>n. if n = ''set'' then [(''x-a'', constant_format ''1'')] else []"
  have "CanonicalKey ''x-a'' = CanonicalKey ''X-A''" by code_simp
  then have v: "block_values ?entries vars h ''X-A'' = [''1'']" for vars h
    by (simp add: block_values_def expand_all_def same_field_def)
  have "client_status demo_fs_context = None"
    by (simp add: demo_fs_context_def NewRequestContext_def client_status_def NewResponseWriter_def)
  then obtain ctx' h where "ReplyAction_HandleRequest demo_reply demo_fs_context = Done ctx'"
      "rw_sent (ctx_Writer ctx') = Some (if ra_Status demo_reply = 0 then 200 else ra_Status demo_reply, h)"
      "\<forall>name. Values h name = block_values ?entries (ctx_Vars demo_fs_context) (rw_header (ctx_Writer demo_fs_context)) name"
    using reply_action_header [of demo_fs_context demo_reply ?entries]
    by (auto simp: ValidateBCLStatus_def demo_reply_def)
  then have "Values h ''X-A'' = [''1'']" using v by metis
  with \<open>ReplyAction_HandleRequest demo_reply demo_fs_context = Done ctx'\<close>
    \<open>rw_sent (ctx_Writer ctx') = Some (if ra_Status demo_reply = 0 then 200 else ra_Status demo_reply, h)\<close>
  show ?thesis by (simp add: demo_reply_def)
qed

end
