(* ===== verification/Codecs.thy ===== *)
theory Codecs
  imports Prelude
begin

text \<open>
  The interfaces of encoders and decoders. \<open>enum_codec\<close> is the contract of an enumeration
  with a numeric code on the wire; \<open>item_codec\<close> that of an item whose encoding is
  followed by other data, together with the loops that encode and decode a sequence of
  items. The lemmas a client of an encoder needs are proved here once.
\<close>

section \<open>Enumerations\<close>

locale enum_codec =
  fixes enc :: "'a \<Rightarrow> 'v"
    and dec :: "'v \<Rightarrow> 'e + 'a"
  assumes dec_enc: "dec (enc x) = Inr x"
    and enc_dec: "dec v = Inr x \<Longrightarrow> enc x = v"
begin

lemma enc_inject: "enc x = enc y \<longleftrightarrow> x = y"
  using dec_enc by (metis sum.inject(2))

lemma dec_Inr_iff: "dec v = Inr x \<longleftrightarrow> v = enc x"
  using dec_enc enc_dec by blast

lemma dec_error_iff: "(\<exists>e. dec v = Inl e) \<longleftrightarrow> v \<notin> range enc"
proof
  assume "\<exists>e. dec v = Inl e"
  then show "v \<notin> range enc" using dec_enc by auto
next
  assume "v \<notin> range enc"
  then have "dec v \<noteq> Inr x" for x using enc_dec by blast
  then show "\<exists>e. dec v = Inl e" by (cases "dec v") auto
qed

end

section \<open>Items of a stream\<close>

text \<open>
  \<open>limit\<close> bounds the data a decoder is given: the decoders of the source compare lengths
  truncated to 32 bits.
\<close>

locale item_codec =
  fixes enc_item :: "'a \<Rightarrow> 'e + bytes"
    and dec_item :: "bytes \<Rightarrow> 'e + ('a \<times> bytes)"
    and enc_items :: "'a list \<Rightarrow> 'e + bytes"
    and dec_items :: "bytes \<Rightarrow> 'e + 'a list"
    and item_ok :: "'a \<Rightarrow> bool"
    and limit :: nat
  assumes item_encodes: "item_ok x \<Longrightarrow> \<exists>bs. enc_item x = Inr bs \<and> bs \<noteq> []"
    and item_decodes: "item_ok x \<Longrightarrow> enc_item x = Inr bs \<Longrightarrow> length (bs @ rest) < limit \<Longrightarrow>
      dec_item (bs @ rest) = Inr (x, rest)"
    and items_Nil: "enc_items [] = Inr []"
    and items_Cons: "enc_items (x # xs) = (case enc_item x of Inl e \<Rightarrow> Inl e
      | Inr bs \<Rightarrow> (case enc_items xs of Inl e \<Rightarrow> Inl e | Inr bs' \<Rightarrow> Inr (bs @ bs')))"
    and decode_empty: "dec_items [] = Inr []"
    and decode_item: "bs \<noteq> [] \<Longrightarrow> dec_item bs = Inr (x, rest) \<Longrightarrow>
      dec_items bs = (case dec_items rest of Inl e \<Rightarrow> Inl e | Inr xs \<Rightarrow> Inr (x # xs))"
begin

lemma items_encode: "list_all item_ok xs \<Longrightarrow> \<exists>bs. enc_items xs = Inr bs"
proof (induction xs)
  case Nil
  then show ?case by (simp add: items_Nil)
next
  case (Cons x xs)
  then obtain bs' where "enc_items xs = Inr bs'" by auto
  moreover obtain bs where "enc_item x = Inr bs" using item_encodes Cons.prems by auto
  ultimately show ?case by (simp add: items_Cons)
qed

lemma items_roundtrip:
  "list_all item_ok xs \<Longrightarrow> enc_items xs = Inr bs \<Longrightarrow> length bs < limit \<Longrightarrow> dec_items bs = Inr xs"
proof (induction xs arbitrary: bs)
  case Nil
  then show ?case by (simp add: items_Nil decode_empty)
next
  case (Cons x xs)
  then obtain b bs' where b: "enc_item x = Inr b" "b \<noteq> []" and bs': "enc_items xs = Inr bs'"
    and bs: "bs = b @ bs'"
    using item_encodes [of x] by (auto simp: items_Cons split: sum.splits)
  have "dec_item bs = Inr (x, bs')"
    using item_decodes [of x b bs'] Cons.prems b bs by simp
  moreover have "dec_items bs' = Inr xs"
    using Cons bs' bs by simp
  ultimately show ?case using decode_item [of bs x bs'] b bs by simp
qed

end

end
