(* ===== verification/FastCGI_Protocol.thy ===== *)
theory FastCGI_Protocol
  imports Codecs
begin

unbundle bit_operations_syntax

text \<open>
  The FastCGI wire protocol of \<open>src/pkg/fastcgi/protocol.go\<close>: record types, roles and
  protocol statuses, name-value pairs, the record bodies and the record itself, each with
  its encoder and decoder. A Go enumeration (a string type with constants) is a datatype,
  so the \<open>program.Panic\<close> of an encoder on a value that is none of the constants has no
  counterpart. A byte buffer that an encoder fills is the list of bytes it returns.
\<close>

section \<open>Errors\<close>

datatype fcgi_error =
    InvalidRecordType byte
  | InvalidRole u16
  | InvalidProtocolStatus byte
  | CannotEncodeLength nat
  | TruncatedLength
  | Truncated4ByteLength
  | TruncatedName
  | TruncatedValue
  | InvalidBodyLength
  | CannotEncodeBody fcgi_error
  | BodyTooLarge
  | WriteError io_error
  | CannotReadHeader io_error
  | UnhandledVersion byte
  | CannotReadBody io_error
  | CannotDecodeBody fcgi_error

section \<open>Enumerations\<close>

datatype RecordType =
    RecordTypeBeginRequest | RecordTypeAbortRequest | RecordTypeEndRequest
  | RecordTypeParams | RecordTypeStdin | RecordTypeStdout | RecordTypeStderr
  | RecordTypeData | RecordTypeGetValues | RecordTypeGetValuesResult
  | RecordTypeUnknownType

fun RecordType_Encode :: "RecordType \<Rightarrow> byte" where
  "RecordType_Encode RecordTypeBeginRequest = 1"
| "RecordType_Encode RecordTypeAbortRequest = 2"
| "RecordType_Encode RecordTypeEndRequest = 3"
| "RecordType_Encode RecordTypeParams = 4"
| "RecordType_Encode RecordTypeStdin = 5"
| "RecordType_Encode RecordTypeStdout = 6"
| "RecordType_Encode RecordTypeStderr = 7"
| "RecordType_Encode RecordTypeData = 8"
| "RecordType_Encode RecordTypeGetValues = 9"
| "RecordType_Encode RecordTypeGetValuesResult = 10"
| "RecordType_Encode RecordTypeUnknownType = 11"

definition RecordType_Decode :: "byte \<Rightarrow> fcgi_error + RecordType" where
  "RecordType_Decode value =
     (if value = 1 then Inr RecordTypeBeginRequest
      else if value = 2 then Inr RecordTypeAbortRequest
      else if value = 3 then Inr RecordTypeEndRequest
      else if value = 4 then Inr RecordTypeParams
      else if value = 5 then Inr RecordTypeStdin
      else if value = 6 then Inr RecordTypeStdout
      else if value = 7 then Inr RecordTypeStderr
      else if value = 8 then Inr RecordTypeData
      else if value = 9 then Inr RecordTypeGetValues
      else if value = 10 then Inr RecordTypeGetValuesResult
      else if value = 11 then Inr RecordTypeUnknownType
      else Inl (InvalidRecordType value))"

datatype Role = RoleResponder | RoleAuthorizer | RoleFilter

fun Role_Encode :: "Role \<Rightarrow> u16" where
  "Role_Encode RoleResponder = 1"
| "Role_Encode RoleAuthorizer = 2"
| "Role_Encode RoleFilter = 3"

definition Role_Decode :: "u16 \<Rightarrow> fcgi_error + Role" where
  "Role_Decode value =
     (if value = 1 then Inr RoleResponder
      else if value = 2 then Inr RoleAuthorizer
      else if value = 3 then Inr RoleFilter
      else Inl (InvalidRole value))"

datatype ProtocolStatus =
    ProtocolStatusRequestComplete | ProtocolStatusCannotMultiplexConnection
  | ProtocolStatusOverloaded | ProtocolStatusUnknownRole

fun ProtocolStatus_Encode :: "ProtocolStatus \<Rightarrow> byte" where
  "ProtocolStatus_Encode ProtocolStatusRequestComplete = 0"
| "ProtocolStatus_Encode ProtocolStatusCannotMultiplexConnection = 1"
| "ProtocolStatus_Encode ProtocolStatusOverloaded = 2"
| "ProtocolStatus_Encode ProtocolStatusUnknownRole = 3"

definition ProtocolStatus_Decode :: "byte \<Rightarrow> fcgi_error + ProtocolStatus" where
  "ProtocolStatus_Decode value =
     (if value = 0 then Inr ProtocolStatusRequestComplete
      else if value = 1 then Inr ProtocolStatusCannotMultiplexConnection
      else if value = 2 then Inr ProtocolStatusOverloaded
      else if value = 3 then Inr ProtocolStatusUnknownRole
      else Inl (InvalidProtocolStatus value))"

section \<open>Name-value pairs\<close>

record NameValuePair =
  Name :: string
  Value :: string

definition MaxUint32 :: nat where
  "MaxUint32 = 4294967295"

definition MaxUint16 :: nat where
  "MaxUint16 = 65535"

text \<open>The local functions \<open>writeLength\<close> and \<open>readLength\<close> of the pair's encoder and decoder.\<close>

definition writeLength :: "nat \<Rightarrow> fcgi_error + bytes" where
  "writeLength n =
     (if n > MaxUint32 then Inl (CannotEncodeLength n)
      else if n < 128 then Inr [word_of_nat n]
      else let data = PutUint32 (word_of_nat n) in Inr ((hd data OR 0x80) # tl data))"

definition readLength :: "bytes \<Rightarrow> fcgi_error + (u32 \<times> bytes)" where
  "readLength data = (case data of
     [] \<Rightarrow> Inl TruncatedLength
   | b # rest \<Rightarrow>
       if b AND 0x80 = 0 then Inr (ucast b, rest)
       else if length data < 4 then Inl Truncated4ByteLength
       else Inr (Uint32 ((data ! 0) AND 0x7f) (data ! 1) (data ! 2) (data ! 3), drop 4 data))"

definition NameValuePair_Encode :: "NameValuePair \<Rightarrow> fcgi_error + bytes" where
  "NameValuePair_Encode p = (case writeLength (length (Name p)) of
     Inl e \<Rightarrow> Inl e
   | Inr nl \<Rightarrow> (case writeLength (length (Value p)) of
       Inl e \<Rightarrow> Inl e
     | Inr vl \<Rightarrow> Inr (nl @ vl @ bytes_of (Name p) @ bytes_of (Value p))))"

text \<open>
  The length comparisons of the decoder are on \<open>uint32\<close>: the length of the data is
  truncated to 32 bits.
\<close>

definition NameValuePair_Decode :: "bytes \<Rightarrow> fcgi_error + (NameValuePair \<times> bytes)" where
  "NameValuePair_Decode data = (case readLength data of
     Inl e \<Rightarrow> Inl e
   | Inr (nameLength, data) \<Rightarrow> (case readLength data of
       Inl e \<Rightarrow> Inl e
     | Inr (valueLength, data) \<Rightarrow>
         if (word_of_nat (length data) :: u32) < nameLength then Inl TruncatedName
         else let name = string_of (take (unat nameLength) data);
                  data = drop (unat nameLength) data
           in if (word_of_nat (length data) :: u32) < valueLength then Inl TruncatedValue
              else Inr (\<lparr>Name = name, Value = string_of (take (unat valueLength) data)\<rparr>,
                        drop (unat valueLength) data)))"

fun NameValuePairs_Encode :: "NameValuePair list \<Rightarrow> fcgi_error + bytes" where
  "NameValuePairs_Encode [] = Inr []"
| "NameValuePairs_Encode (p # ps) = (case NameValuePair_Encode p of
     Inl e \<Rightarrow> Inl e
   | Inr bs \<Rightarrow> (case NameValuePairs_Encode ps of
       Inl e \<Rightarrow> Inl e
     | Inr bs' \<Rightarrow> Inr (bs @ bs')))"

lemma readLength_shorter: "readLength data = Inr (n, rest) \<Longrightarrow> length rest < length data"
  by (auto simp: readLength_def split: list.splits if_splits)

lemma NameValuePair_Decode_shorter:
  "NameValuePair_Decode data = Inr (p, rest) \<Longrightarrow> length rest < length data"
  by (fastforce simp: NameValuePair_Decode_def Let_def split: sum.splits prod.splits if_splits
      dest!: readLength_shorter)

text \<open>The decoding loop ends: each pair takes at least its length bytes.\<close>

function NameValuePairs_Decode :: "bytes \<Rightarrow> fcgi_error + NameValuePair list" where
  "NameValuePairs_Decode data =
     (if data = [] then Inr []
      else case NameValuePair_Decode data of
             Inl e \<Rightarrow> Inl e
           | Inr (p, rest) \<Rightarrow> (case NameValuePairs_Decode rest of
               Inl e \<Rightarrow> Inl e
             | Inr ps \<Rightarrow> Inr (p # ps)))"
  by pat_completeness auto
termination
  by (relation "measure length") (auto dest: NameValuePair_Decode_shorter)

declare NameValuePairs_Decode.simps [simp del]

section \<open>Record bodies\<close>

record BeginRequestBody =
  BeginRole :: Role
  KeepConnection :: bool

definition BeginRequestBody_Encode :: "BeginRequestBody \<Rightarrow> bytes" where
  "BeginRequestBody_Encode body =
     PutUint16 (Role_Encode (BeginRole body)) @
     [if KeepConnection body then 0 OR 1 else 0] @ replicate 5 0"

definition BeginRequestBody_Decode :: "bytes \<Rightarrow> fcgi_error + BeginRequestBody" where
  "BeginRequestBody_Decode data =
     (if length data \<noteq> 8 then Inl InvalidBodyLength
      else case Role_Decode (Uint16 (data ! 0) (data ! 1)) of
             Inl e \<Rightarrow> Inl e
           | Inr role \<Rightarrow> Inr \<lparr>BeginRole = role, KeepConnection = (data ! 2 AND 1 \<noteq> 0)\<rparr>)"

record EndRequestBody =
  AppStatus :: u32
  EndProtocolStatus :: ProtocolStatus

definition EndRequestBody_Encode :: "EndRequestBody \<Rightarrow> bytes" where
  "EndRequestBody_Encode body =
     PutUint32 (AppStatus body) @ [ProtocolStatus_Encode (EndProtocolStatus body)] @ replicate 3 0"

definition EndRequestBody_Decode :: "bytes \<Rightarrow> fcgi_error + EndRequestBody" where
  "EndRequestBody_Decode data =
     (if length data \<noteq> 8 then Inl InvalidBodyLength
      else case ProtocolStatus_Decode (data ! 4) of
             Inl e \<Rightarrow> Inl e
           | Inr st \<Rightarrow> Inr \<lparr>AppStatus = Uint32 (data ! 0) (data ! 1) (data ! 2) (data ! 3),
                            EndProtocolStatus = st\<rparr>)"

definition GetValuesBody_Encode :: "string list \<Rightarrow> fcgi_error + bytes" where
  "GetValuesBody_Encode names =
     NameValuePairs_Encode (map (\<lambda>name. \<lparr>Name = name, Value = []\<rparr>) names)"

definition GetValuesBody_Decode :: "bytes \<Rightarrow> fcgi_error + string list" where
  "GetValuesBody_Decode data = (case NameValuePairs_Decode data of
     Inl e \<Rightarrow> Inl e
   | Inr pairs \<Rightarrow> Inr (map Name pairs))"

definition GetValuesResultBody_Encode :: "NameValuePair list \<Rightarrow> fcgi_error + bytes" where
  "GetValuesResultBody_Encode pairs = NameValuePairs_Encode pairs"

definition GetValuesResultBody_Decode :: "bytes \<Rightarrow> fcgi_error + NameValuePair list" where
  "GetValuesResultBody_Decode data = NameValuePairs_Decode data"

definition UnknownTypeBody_Encode :: "byte \<Rightarrow> bytes" where
  "UnknownTypeBody_Encode t = t # replicate 7 0"

definition UnknownTypeBody_Decode :: "bytes \<Rightarrow> fcgi_error + byte" where
  "UnknownTypeBody_Decode data =
     (if length data \<noteq> 8 then Inl InvalidBodyLength else Inr (data ! 0))"

text \<open>
  \<open>Record.Body\<close> holds one of the six discrete bodies, a byte slice or nil. Encoding a
  discrete body calls the body's own encoder; \<open>AbortRequestBody\<close> has no field, an empty
  encoding and a decoder that accepts anything.
\<close>

datatype Body =
    BeginRequest BeginRequestBody
  | AbortRequest
  | EndRequest EndRequestBody
  | GetValues "string list"
  | GetValuesResult "NameValuePair list"
  | UnknownType byte
  | Data bytes
  | NoBody

fun DiscreteBody_Encode :: "Body \<Rightarrow> fcgi_error + bytes" where
  "DiscreteBody_Encode (BeginRequest b) = Inr (BeginRequestBody_Encode b)"
| "DiscreteBody_Encode AbortRequest = Inr []"
| "DiscreteBody_Encode (EndRequest b) = Inr (EndRequestBody_Encode b)"
| "DiscreteBody_Encode (GetValues names) = GetValuesBody_Encode names"
| "DiscreteBody_Encode (GetValuesResult pairs) = GetValuesResultBody_Encode pairs"
| "DiscreteBody_Encode (UnknownType t) = Inr (UnknownTypeBody_Encode t)"
| "DiscreteBody_Encode (Data bs) = Inr bs"
| "DiscreteBody_Encode NoBody = Inr []"

fun is_discrete :: "Body \<Rightarrow> bool" where
  "is_discrete (Data bs) = False"
| "is_discrete NoBody = False"
| "is_discrete _ = True"

section \<open>Records\<close>

record Record =
  Version :: byte
  RecType :: RecordType
  RequestId :: u16
  RecBody :: Body

text \<open>
  \<open>Record.Write\<close>: the body is encoded first, and only a discrete body is checked against
  the 16 bits of the length field; the header and the body are then written in one
  vectored write.
\<close>

definition Record_bytes :: "Record \<Rightarrow> fcgi_error + bytes" where
  "Record_bytes r = (case DiscreteBody_Encode (RecBody r) of
     Inl e \<Rightarrow> Inl (CannotEncodeBody e)
   | Inr bodyData \<Rightarrow>
       if is_discrete (RecBody r) \<and> length bodyData > MaxUint16 then Inl BodyTooLarge
       else Inr ([Version r, RecordType_Encode (RecType r)] @ PutUint16 (RequestId r) @
                 PutUint16 (word_of_nat (length bodyData)) @ [0, 0] @ bodyData))"

definition Record_Write :: "Record \<Rightarrow> writer \<Rightarrow> fcgi_error option \<times> writer" where
  "Record_Write r w = (case Record_bytes r of
     Inl e \<Rightarrow> (Some e, w)
   | Inr bs \<Rightarrow> (case Write_conn w bs of
       (None, w') \<Rightarrow> (None, w')
     | (Some e, w') \<Rightarrow> (Some (WriteError e), w')))"

fun Body_Decode :: "RecordType \<Rightarrow> bytes \<Rightarrow> fcgi_error + Body" where
  "Body_Decode RecordTypeBeginRequest bs = map_sum id BeginRequest (BeginRequestBody_Decode bs)"
| "Body_Decode RecordTypeAbortRequest bs = Inr AbortRequest"
| "Body_Decode RecordTypeEndRequest bs = map_sum id EndRequest (EndRequestBody_Decode bs)"
| "Body_Decode RecordTypeParams bs = Inr (Data bs)"
| "Body_Decode RecordTypeStdin bs = Inr (Data bs)"
| "Body_Decode RecordTypeStdout bs = Inr (Data bs)"
| "Body_Decode RecordTypeStderr bs = Inr (Data bs)"
| "Body_Decode RecordTypeData bs = Inr (Data bs)"
| "Body_Decode RecordTypeGetValues bs = map_sum id GetValues (GetValuesBody_Decode bs)"
| "Body_Decode RecordTypeGetValuesResult bs =
     map_sum id GetValuesResult (GetValuesResultBody_Decode bs)"
| "Body_Decode RecordTypeUnknownType bs = map_sum id UnknownType (UnknownTypeBody_Decode bs)"

definition Record_Read :: "reader \<Rightarrow> fcgi_error + (Record \<times> reader)" where
  "Record_Read rd = (case ReadFull 8 rd of
     Inl e \<Rightarrow> Inl (CannotReadHeader e)
   | Inr (header, rd) \<Rightarrow>
       if header ! 0 \<noteq> 1 then Inl (UnhandledVersion (header ! 0))
       else (case RecordType_Decode (header ! 1) of
         Inl e \<Rightarrow> Inl e
       | Inr rtype \<Rightarrow>
           let contentLength = unat (Uint16 (header ! 4) (header ! 5));
               paddingLength = unat (header ! 6)
           in (case ReadFull (contentLength + paddingLength) rd of
             Inl e \<Rightarrow> Inl (CannotReadBody e)
           | Inr (bodyData, rd) \<Rightarrow> (case Body_Decode rtype (take contentLength bodyData) of
               Inl e \<Rightarrow> Inl (CannotDecodeBody e)
             | Inr body \<Rightarrow> Inr (\<lparr>Version = header ! 0, RecType = rtype,
                                 RequestId = Uint16 (header ! 2) (header ! 3),
                                 RecBody = body\<rparr>, rd)))))"

section \<open>Enumeration codes\<close>

interpretation record_type: enum_codec RecordType_Encode RecordType_Decode
proof unfold_locales
  show "RecordType_Decode (RecordType_Encode x) = Inr x" for x
    by (cases x) (simp_all add: RecordType_Decode_def)
  show "RecordType_Decode v = Inr x \<Longrightarrow> RecordType_Encode x = v" for v x
    by (auto simp: RecordType_Decode_def split: if_splits)
qed

interpretation role: enum_codec Role_Encode Role_Decode
proof unfold_locales
  show "Role_Decode (Role_Encode x) = Inr x" for x
    by (cases x) (simp_all add: Role_Decode_def)
  show "Role_Decode v = Inr x \<Longrightarrow> Role_Encode x = v" for v x
    by (auto simp: Role_Decode_def split: if_splits)
qed

interpretation protocol_status: enum_codec ProtocolStatus_Encode ProtocolStatus_Decode
proof unfold_locales
  show "ProtocolStatus_Decode (ProtocolStatus_Encode x) = Inr x" for x
    by (cases x) (simp_all add: ProtocolStatus_Decode_def)
  show "ProtocolStatus_Decode v = Inr x \<Longrightarrow> ProtocolStatus_Encode x = v" for v x
    by (auto simp: ProtocolStatus_Decode_def split: if_splits)
qed

section \<open>Lengths and name-value pairs\<close>

lemma long_length_value:
  "Uint32 ((ucast (drop_bit 24 v) OR 0x80) AND 0x7f) (ucast (drop_bit 16 v)) (ucast (drop_bit 8 v))
     (ucast v) = take_bit 31 v"
proof (rule bit_word_eqI)
  fix n
  assume n: "n < LENGTH(32)"
  have "(0x80 :: int) = 2 ^ 7" and "(0x7f :: int) = mask 7"
    by (simp_all add: mask_eq_exp_minus_1)
  then have bits: "bit (0x80 :: int) m \<longleftrightarrow> m = 7" "bit (0x7f :: int) m \<longleftrightarrow> m < 7" for m
    by (simp_all only: bit_exp_iff bit_mask_iff) auto
  from n consider "n < 8" | "8 \<le> n" "n < 16" | "16 \<le> n" "n < 24" | "24 \<le> n" "n < 32"
    by force
  then show "bit (Uint32 ((ucast (drop_bit 24 v) OR 0x80) AND 0x7f) (ucast (drop_bit 16 v))
      (ucast (drop_bit 8 v)) (ucast v)) n = bit (take_bit 31 v) n"
    by cases (auto simp: Uint32_def bit_simps bits)
qed

lemma byte_AND_0x80: "(b :: byte) AND 0x80 = 0 \<longleftrightarrow> \<not> bit b 7"
  using and_exp_eq_0_iff_not_bit [of b 7] by simp

text \<open>A length survives encoding and decoding modulo \<open>2 ^ 31\<close>.\<close>

lemma readLength_writeLength:
  assumes "writeLength n = Inr bs"
  shows "readLength (bs @ rest) = Inr (word_of_nat (n mod 2 ^ 31), rest)"
proof (cases "n < 128")
  case True
  then have bs: "bs = [word_of_nat n]"
    using assms by (auto simp: writeLength_def MaxUint32_def split: if_splits)
  have "\<not> bit (word_of_nat n :: byte) 7"
    using True bit_of_nat_iff [of n 7] by (simp add: bit_iff_odd [of n])
  moreover have "ucast (word_of_nat n :: byte) = (word_of_nat n :: u32)"
    using True by (simp add: unsigned_of_nat take_bit_nat_eq_self)
  ultimately show ?thesis using True by (simp add: bs readLength_def byte_AND_0x80)
next
  case False
  let ?v = "word_of_nat n :: u32"
  have bs: "bs = (ucast (drop_bit 24 ?v) OR 0x80) #
      [ucast (drop_bit 16 ?v), ucast (drop_bit 8 ?v), ucast ?v]"
    using assms False by (auto simp: writeLength_def PutUint32_def Let_def split: if_splits)
  have "bit (0x80 :: byte) 7" by simp
  then have "bit ((ucast (drop_bit 24 ?v) :: byte) OR 0x80) 7"
    unfolding bit_or_iff by blast
  then show ?thesis
    by (simp add: bs readLength_def byte_AND_0x80 long_length_value take_bit_of_nat
        take_bit_nat_def)
qed

lemma writeLength_Inr: "n \<le> MaxUint32 \<Longrightarrow> \<exists>bs. writeLength n = Inr bs \<and> bs \<noteq> [] \<and> length bs \<le> 4"
  by (auto simp: writeLength_def Let_def PutUint32_def)

definition pair_ok :: "NameValuePair \<Rightarrow> bool" where
  "pair_ok p \<longleftrightarrow> length (Name p) < 2 ^ 31 \<and> length (Value p) < 2 ^ 31"

lemma NameValuePair_Encode_ok: "pair_ok p \<Longrightarrow> \<exists>bs. NameValuePair_Encode p = Inr bs \<and> bs \<noteq> []"
  using writeLength_Inr [of "length (Name p)"] writeLength_Inr [of "length (Value p)"]
  by (auto simp: pair_ok_def NameValuePair_Encode_def MaxUint32_def)

lemma not_less_of_nat_u32: "m \<le> n \<Longrightarrow> n < 2 ^ 32 \<Longrightarrow> \<not> (word_of_nat n :: u32) < word_of_nat m"
  by (simp add: word_less_nat_alt unat_of_nat)

lemma NameValuePair_Decode_Encode:
  assumes ok: "pair_ok p" and enc: "NameValuePair_Encode p = Inr bs"
    and small: "length (bs @ rest) < 2 ^ 32"
  shows "NameValuePair_Decode (bs @ rest) = Inr (p, rest)"
proof -
  let ?n = "length (Name p)" and ?v = "length (Value p)"
  obtain nl vl where nl: "writeLength ?n = Inr nl" and vl: "writeLength ?v = Inr vl"
    and bs: "bs = nl @ vl @ bytes_of (Name p) @ bytes_of (Value p)"
    using enc by (auto simp: NameValuePair_Encode_def split: sum.splits)
  have mods: "?n mod 2147483648 = ?n" "?v mod 2147483648 = ?v"
    using ok by (simp_all add: pair_ok_def)
  have unats: "unat (word_of_nat ?n :: u32) = ?n" "unat (word_of_nat ?v :: u32) = ?v"
    using ok by (simp_all add: pair_ok_def unat_of_nat)
  have lens: "length (bytes_of (Name p) @ bytes_of (Value p) @ rest) < 2 ^ 32"
    using small by (simp add: bs)
  have cmp: "\<not> (word_of_nat (?n + (?v + length rest)) :: u32) < word_of_nat ?n"
    "\<not> (word_of_nat (?v + length rest) :: u32) < word_of_nat ?v"
    using lens by (intro not_less_of_nat_u32; simp)+
  show ?thesis
    unfolding bs NameValuePair_Decode_def
    by (simp add: readLength_writeLength [OF nl] readLength_writeLength [OF vl] mods unats cmp
        del: of_nat_add)
qed

interpretation pairs: item_codec NameValuePair_Encode NameValuePair_Decode
    NameValuePairs_Encode NameValuePairs_Decode pair_ok "2 ^ 32"
proof unfold_locales
  show "bs \<noteq> [] \<Longrightarrow> NameValuePair_Decode bs = Inr (x, rest) \<Longrightarrow> NameValuePairs_Decode bs =
      (case NameValuePairs_Decode rest of Inl e \<Rightarrow> Inl e | Inr xs \<Rightarrow> Inr (x # xs))" for bs x rest
    by (simp add: NameValuePairs_Decode.simps [of bs])
qed (auto simp: NameValuePair_Encode_ok NameValuePair_Decode_Encode NameValuePairs_Decode.simps)

lemma NameValuePairs_roundtrip [codec_simps]:
  "list_all pair_ok ps \<Longrightarrow> NameValuePairs_Encode ps = Inr bs \<Longrightarrow> length bs < 4294967296 \<Longrightarrow>
    NameValuePairs_Decode bs = Inr ps"
  using pairs.items_roundtrip by simp

section \<open>Bodies and records\<close>

text \<open>The bodies a record of a given type carries, as the client builds them and the reader returns them.\<close>

fun body_ok :: "RecordType \<Rightarrow> Body \<Rightarrow> bool" where
  "body_ok RecordTypeBeginRequest (BeginRequest b) = True"
| "body_ok RecordTypeAbortRequest AbortRequest = True"
| "body_ok RecordTypeEndRequest (EndRequest b) = True"
| "body_ok RecordTypeGetValues (GetValues names) = list_all (\<lambda>n. length n < 2 ^ 31) names"
| "body_ok RecordTypeGetValuesResult (GetValuesResult ps) = list_all pair_ok ps"
| "body_ok RecordTypeUnknownType (UnknownType t) = True"
| "body_ok t (Data bs) =
     (t \<in> {RecordTypeParams, RecordTypeStdin, RecordTypeStdout, RecordTypeStderr, RecordTypeData}
      \<and> length bs \<le> MaxUint16)"
| "body_ok _ _ = False"

lemma BeginRequestBody_roundtrip [codec_simps]:
  "BeginRequestBody_Decode (BeginRequestBody_Encode b) = Inr b"
  by (simp add: BeginRequestBody_Decode_def BeginRequestBody_Encode_def PutUint16_def
      Uint16_PutUint16 role.dec_enc)

lemma EndRequestBody_roundtrip [codec_simps]:
  "EndRequestBody_Decode (EndRequestBody_Encode b) = Inr b"
  by (simp add: EndRequestBody_Decode_def EndRequestBody_Encode_def PutUint32_def
      Uint32_PutUint32 protocol_status.dec_enc)

lemma UnknownTypeBody_roundtrip [codec_simps]:
  "UnknownTypeBody_Decode (UnknownTypeBody_Encode t) = Inr t"
  by (simp add: UnknownTypeBody_Decode_def UnknownTypeBody_Encode_def)

lemma GetValuesBody_roundtrip [codec_simps]:
  assumes "list_all (\<lambda>n. length n < 2 ^ 31) names" "GetValuesBody_Encode names = Inr bs"
    "length bs < 2 ^ 32"
  shows "GetValuesBody_Decode bs = Inr names"
proof -
  have "list_all pair_ok (map (\<lambda>name. \<lparr>Name = name, Value = []\<rparr>) names)"
    using assms(1) by (simp add: list_all_iff pair_ok_def)
  then have "NameValuePairs_Decode bs = Inr (map (\<lambda>name. \<lparr>Name = name, Value = []\<rparr>) names)"
    using assms(2,3) by (simp add: GetValuesBody_Encode_def pairs.items_roundtrip)
  then show ?thesis by (simp add: GetValuesBody_Decode_def comp_def)
qed

lemma Body_roundtrip:
  assumes "body_ok t body" "DiscreteBody_Encode body = Inr bs" "length bs < 2 ^ 32"
  shows "Body_Decode t bs = Inr body"
  using assms
  by (cases t; cases body)
    (auto simp: codec_simps GetValuesResultBody_Encode_def GetValuesResultBody_Decode_def)

lemma body_encodes: "body_ok t body \<Longrightarrow> \<exists>bs. DiscreteBody_Encode body = Inr bs"
proof (cases body)
  case (GetValues names)
  assume "body_ok t body"
  then have "list_all pair_ok (map (\<lambda>name. \<lparr>Name = name, Value = []\<rparr>) names)"
    using GetValues by (cases t) (simp_all add: list_all_iff pair_ok_def)
  then show ?thesis using GetValues pairs.items_encode by (simp add: GetValuesBody_Encode_def)
next
  case (GetValuesResult ps)
  assume "body_ok t body"
  then have "list_all pair_ok ps" using GetValuesResult by (cases t) simp_all
  then show ?thesis
    using GetValuesResult pairs.items_encode by (simp add: GetValuesResultBody_Encode_def)
qed simp_all

lemma body_ok_discrete: "body_ok t body \<Longrightarrow> is_discrete body \<or> (\<exists>bs. body = Data bs \<and> length bs \<le> MaxUint16)"
  by (cases t; cases body) auto

definition record_ok :: "Record \<Rightarrow> bool" where
  "record_ok r \<longleftrightarrow> Version r = 1 \<and> body_ok (RecType r) (RecBody r)"

text \<open>
  A record either is refused because its discrete body does not fit the 16-bit length
  field, or its bytes carry the true length of the body.
\<close>

lemma Record_bytes_cases:
  assumes "record_ok r"
  obtains (large) "Record_bytes r = Inl BodyTooLarge"
  | (fits) bs where "DiscreteBody_Encode (RecBody r) = Inr bs" "length bs \<le> MaxUint16"
      "Record_bytes r = Inr ([1, RecordType_Encode (RecType r)] @ PutUint16 (RequestId r) @
         PutUint16 (word_of_nat (length bs)) @ [0, 0] @ bs)"
proof -
  obtain bs where bs: "DiscreteBody_Encode (RecBody r) = Inr bs"
    using assms body_encodes by (auto simp: record_ok_def)
  moreover have "is_discrete (RecBody r) \<or> length bs \<le> MaxUint16"
    using body_ok_discrete [of "RecType r" "RecBody r"] assms bs
    by (auto simp: record_ok_def)
  ultimately show thesis
    using assms that by (cases "length bs > MaxUint16") (auto simp: Record_bytes_def record_ok_def)
qed

lemma Record_Read_frame:
  assumes len: "length bs \<le> MaxUint16" and dec: "Body_Decode t bs = Inr body"
  shows "Record_Read \<lparr>rdata = ([1, RecordType_Encode t] @ PutUint16 i @
      PutUint16 (word_of_nat (length bs)) @ [0, 0] @ bs) @ rest, rerr = e\<rparr>
    = Inr (\<lparr>Version = 1, RecType = t, RequestId = i, RecBody = body\<rparr>, \<lparr>rdata = rest, rerr = e\<rparr>)"
proof -
  have "unat (word_of_nat (length bs) :: u16) = length bs"
    using len by (simp add: unat_of_nat MaxUint16_def)
  then show ?thesis
    using dec by (simp add: Record_Read_def ReadFull_def PutUint16_def codec_simps
        record_type.dec_enc)
qed

lemma Record_Read_bytes:
  assumes "record_ok r" "Record_bytes r = Inr bs"
  shows "Record_Read \<lparr>rdata = bs @ rest, rerr = e\<rparr> = Inr (r, \<lparr>rdata = rest, rerr = e\<rparr>)"
  using assms(1)
proof (cases rule: Record_bytes_cases)
  case large
  then show ?thesis using assms(2) by simp
next
  case (fits body)
  have "Body_Decode (RecType r) body = Inr (RecBody r)"
    using fits assms(1) by (intro Body_roundtrip) (auto simp: record_ok_def MaxUint16_def)
  moreover have "r = \<lparr>Version = 1, RecType = RecType r, RequestId = RequestId r, RecBody = RecBody r\<rparr>"
    using assms(1) by (simp add: record_ok_def)
  ultimately show ?thesis
    using Record_Read_frame [OF fits(2)] fits(3) assms(2) by simp
qed

lemma Record_Read_shorter:
  "Record_Read rd = Inr (r, rd') \<Longrightarrow> length (rdata rd') + 8 \<le> length (rdata rd)"
  by (auto simp: Record_Read_def Let_def split: sum.splits if_splits prod.splits
      dest!: ReadFull_InrD)

section \<open>Properties\<close>

text \<open>C23: Name-value pairs whose names and values are shorter than \<open>2 ^ 31\<close> bytes are
  encoded without error, and decoding the encoding gives the same pairs back in the same
  order, as long as the whole encoding is shorter than \<open>2 ^ 32\<close> bytes.\<close>

theorem pairs_encode_decode:
  assumes "list_all pair_ok ps"
  shows "\<exists>bs. NameValuePairs_Encode ps = Inr bs \<and>
    (length bs < 2 ^ 32 \<longrightarrow> NameValuePairs_Decode bs = Inr ps)"
  using pairs.items_encode [OF assms] pairs.items_roundtrip [OF assms] by blast

theorem pairs_encode_decode_witness:
  "\<exists>bs. NameValuePairs_Encode [\<lparr>Name = ''SCRIPT_NAME'', Value = ''index.php''\<rparr>] = Inr bs \<and>
    length bs = 22 \<and> NameValuePairs_Decode bs = Inr [\<lparr>Name = ''SCRIPT_NAME'', Value = ''index.php''\<rparr>]"
proof -
  have ok: "list_all pair_ok [\<lparr>Name = ''SCRIPT_NAME'', Value = ''index.php''\<rparr>]"
    by (simp add: pair_ok_def)
  have len: "\<exists>bs. NameValuePairs_Encode [\<lparr>Name = ''SCRIPT_NAME'', Value = ''index.php''\<rparr>] = Inr bs \<and> length bs = 22"
    by (simp add: NameValuePair_Encode_def writeLength_def MaxUint32_def)
  show ?thesis using pairs_encode_decode [OF ok] len by auto
qed

text \<open>The length check of the pair encoder is too weak: every length from \<open>2 ^ 31\<close> up to
  \<open>MaxUint32\<close> is accepted, and the decoder reads it back without its top bit, that is,
  smaller by \<open>2 ^ 31\<close>.\<close>

theorem long_length_lost:
  assumes "2 ^ 31 \<le> n" "n \<le> MaxUint32"
  shows "\<exists>bs. writeLength n = Inr bs \<and>
    (\<forall>rest. readLength (bs @ rest) = Inr (word_of_nat (n - 2 ^ 31), rest))"
proof -
  obtain bs where bs: "writeLength n = Inr bs" using writeLength_Inr assms by blast
  have "n mod 2 ^ 31 = n - 2 ^ 31"
    using assms by (simp add: MaxUint32_def mod_if)
  then show ?thesis using bs readLength_writeLength [OF bs] by simp
qed

theorem long_length_lost_witness:
  "\<exists>bs. writeLength 2147483653 = Inr bs \<and> readLength bs = Inr (5, [])"
proof -
  obtain bs where "writeLength 2147483653 = Inr bs"
    "\<And>rest. readLength (bs @ rest) = Inr (word_of_nat (2147483653 - 2 ^ 31), rest)"
    using long_length_lost [of 2147483653] by (auto simp: MaxUint32_def)
  from this(1) this(2) [of "[]"] show ?thesis by simp
qed

text \<open>C22: Reading a record that \<open>Record.Write\<close> has written to a connection gives the same
  record, and leaves exactly what follows it, for every well-formed record of version 1
  whose body belongs to its type.\<close>

theorem record_write_read:
  assumes "record_ok r" "room w = None" "Record_Write r w = (None, w')"
  shows "\<exists>bs. sent w' = sent w @ bs \<and>
    Record_Read \<lparr>rdata = bs @ rest, rerr = e\<rparr> = Inr (r, \<lparr>rdata = rest, rerr = e\<rparr>)"
proof -
  obtain bs where bs: "Record_bytes r = Inr bs"
    using assms(3) by (auto simp: Record_Write_def split: sum.splits)
  then have "sent w' = sent w @ bs"
    using assms(2,3) by (auto simp: Record_Write_def)
  then show ?thesis using Record_Read_bytes [OF assms(1) bs] by blast
qed

theorem record_write_read_witness:
  "\<exists>w' bs. Record_Write \<lparr>Version = 1, RecType = RecordTypeStdin, RequestId = 1, RecBody = Data [104, 105]\<rparr>
      \<lparr>sent = [7], room = None, werr = EOF\<rparr> = (None, w') \<and> sent w' = [7] @ bs \<and>
    Record_Read \<lparr>rdata = bs @ [9], rerr = EOF\<rparr> =
      Inr (\<lparr>Version = 1, RecType = RecordTypeStdin, RequestId = 1, RecBody = Data [104, 105]\<rparr>,
           \<lparr>rdata = [9], rerr = EOF\<rparr>)"
proof -
  let ?r = "\<lparr>Version = 1, RecType = RecordTypeStdin, RequestId = 1, RecBody = Data [104, 105]\<rparr>"
  let ?w = "\<lparr>sent = [7], room = None, werr = EOF\<rparr>"
  have ok: "record_ok ?r" by (simp add: record_ok_def MaxUint16_def)
  obtain w' where w': "Record_Write ?r ?w = (None, w')"
    by (simp add: Record_Write_def Record_bytes_def)
  show ?thesis using record_write_read [OF ok _ w', of "[9]" EOF] w' by auto
qed

text \<open>A record header is decoded only for the eleven record types: \<open>RecordType.Decode\<close>
  fails exactly on a code outside 1 to 11, and otherwise inverts \<open>RecordType.Encode\<close>.\<close>

theorem record_type_codes:
  "(case RecordType_Decode v of Inl e \<Rightarrow> e = InvalidRecordType v \<and> (v = 0 \<or> 11 < v)
    | Inr t \<Rightarrow> RecordType_Encode t = v \<and> 1 \<le> v \<and> v \<le> 11)"
proof -
  have "v \<in> {1, 2, 3, 4, 5, 6, 7, 8, 9, 10, 11}" if "1 \<le> v" "v \<le> 11"
  proof -
    have "1 \<le> unat v" "unat v \<le> 11" using that by (simp_all add: word_le_nat_alt)
    then have "unat v = 1 \<or> unat v = 2 \<or> unat v = 3 \<or> unat v = 4 \<or> unat v = 5 \<or> unat v = 6 \<or>
        unat v = 7 \<or> unat v = 8 \<or> unat v = 9 \<or> unat v = 10 \<or> unat v = 11"
      by arith
    then have "word_of_nat (unat v) \<in> {1, 2, 3, 4, 5, 6, 7, 8, 9, 10, 11 :: byte}"
      by (elim disjE) simp_all
    then show ?thesis by simp
  qed
  moreover have "v = 0 \<or> 1 \<le> v" by (metis linorder_not_le word_less_1)
  moreover have "v \<le> 11 \<or> 11 < v" by (rule le_less_linear)
  ultimately show ?thesis
    by (auto simp: RecordType_Decode_def split: if_splits)
qed

end
