(* ===== verification/FastCGI_Header.thy ===== *)
theory FastCGI_Header
  imports FastCGI_Protocol Http_Header
begin

text \<open>
  The CGI response header of \<open>src/pkg/fastcgi/header.go\<close>: the incremental parser, which
  keeps the bytes of an unfinished line between two calls, field lookup, the status line
  and the copy to an HTTP header.
\<close>

section \<open>Definitions\<close>

record Field =
  FieldName :: string
  FieldValue :: string

record Header =
  Fields :: "Field list"
  hdata :: bytes

definition empty_Header :: Header where
  "empty_Header = \<lparr>Fields = [], hdata = []\<rparr>"

datatype header_error = MissingColon | EmptyName

text \<open>\<open>strings.EqualFold\<close> is simple case folding: on ASCII strings it compares lower-case
  forms; \<open>eqf\<close> decides the other cases.\<close>

definition EqualFold :: "(string \<Rightarrow> string \<Rightarrow> bool) \<Rightarrow> string \<Rightarrow> string \<Rightarrow> bool" where
  "EqualFold eqf s t =
     (if is_ascii s \<and> is_ascii t then map lower_char s = map lower_char t else eqf s t)"

fun Header_Field :: "(string \<Rightarrow> string \<Rightarrow> bool) \<Rightarrow> Field list \<Rightarrow> string \<Rightarrow> string" where
  "Header_Field eqf [] name = ''''"
| "Header_Field eqf (f # fs) name =
     (if EqualFold eqf name (FieldName f) then FieldValue f else Header_Field eqf fs name)"

definition Header_Status :: "(string \<Rightarrow> string \<Rightarrow> bool) \<Rightarrow> Header \<Rightarrow> int \<times> string" where
  "Header_Status eqf h =
     (let s = Header_Field eqf (Fields h) ''Status'' in
      if s = '''' then (200, ''OK'')
      else let (codeString, reason, found) = Cut s (CHR '' '') in
        (case ParseInt codeString of
           None \<Rightarrow> (200, ''OK'')
         | Some i64 \<Rightarrow> if i64 < 1 \<or> i64 > 999 then (200, ''OK'') else (i64, reason)))"

fun CopyToHTTPHeader :: "(string \<Rightarrow> string) \<Rightarrow> Field list \<Rightarrow> http_header \<Rightarrow> http_header" where
  "CopyToHTTPHeader uni [] hh = hh"
| "CopyToHTTPHeader uni (f # fs) hh =
     (if ToLower uni (FieldName f) = ''status'' then CopyToHTTPHeader uni fs hh
      else CopyToHTTPHeader uni fs (AddField hh (FieldName f) (FieldValue f)))"

definition skipEOL :: "bytes \<Rightarrow> bytes \<times> bool" where
  "skipEOL data = (case data of
     [] \<Rightarrow> (data, False)
   | b # rest \<Rightarrow>
       if b = 10 then (rest, True)
       else if b = 13 then (case rest of
           c # rest' \<Rightarrow> if c = 10 then (rest', True) else (data, False)
         | [] \<Rightarrow> (data, False))
       else (data, False))"

definition Field_Parse :: "bytes \<Rightarrow> header_error + Field" where
  "Field_Parse data = (case IndexByte data 58 of
     None \<Rightarrow> Inl MissingColon
   | Some colon \<Rightarrow>
       if take colon data = [] then Inl EmptyName
       else Inr \<lparr>FieldName = string_of (take colon data),
                 FieldValue = string_of (Trim (drop (colon + 1) data) [32, 9])\<rparr>)"

definition strip_CR :: "bytes \<Rightarrow> bytes" where
  "strip_CR fieldData =
     (if fieldData \<noteq> [] \<and> last fieldData = 13 then butlast fieldData else fieldData)"

text \<open>
  The loop of \<open>Header.Parse\<close> on the buffered data. The result is the end of the header
  with what follows it, the need for more data, or an error.
\<close>

datatype parse_result = HeaderEnd bytes | NeedMore

function Header_loop :: "Field list \<Rightarrow> bytes \<Rightarrow> header_error + (parse_result \<times> Header)" where
  "Header_loop fs data =
     (if data = [] then Inr (NeedMore, \<lparr>Fields = fs, hdata = []\<rparr>)
      else case skipEOL data of
        (data2, True) \<Rightarrow> Inr (HeaderEnd data2, \<lparr>Fields = fs, hdata = []\<rparr>)
      | (_, False) \<Rightarrow> (case IndexByte data 10 of
          None \<Rightarrow> Inr (NeedMore, \<lparr>Fields = fs, hdata = data\<rparr>)
        | Some eol \<Rightarrow> (case Field_Parse (strip_CR (take eol data)) of
            Inl e \<Rightarrow> Inl e
          | Inr f \<Rightarrow> Header_loop (fs @ [f]) (drop (eol + 1) data))))"
  by pat_completeness auto
termination
  by (relation "measure (\<lambda>(fs, data). length data)") (auto dest: IndexByte_SomeD)

declare Header_loop.simps [simp del]

definition Header_Parse :: "Header \<Rightarrow> bytes \<Rightarrow> header_error + (parse_result \<times> Header)" where
  "Header_Parse h data = Header_loop (Fields h) (hdata h @ data)"

section \<open>Splitting the input\<close>

lemma skipEOL_True_append: "skipEOL d = (r, True) \<Longrightarrow> skipEOL (d @ b) = (r @ b, True)"
  by (auto simp: skipEOL_def split: list.splits if_splits)

lemma skipEOL_False_append: "skipEOL d = (r, False) \<Longrightarrow> 10 \<in> set d \<Longrightarrow> \<exists>r'. skipEOL (d @ b) = (r', False)"
  by (auto simp: skipEOL_def split: list.splits if_splits)

lemma Header_loop_field:
  assumes "skipEOL data = (r, False)" "IndexByte data 10 = Some eol"
  shows "Header_loop fs data = (case Field_Parse (strip_CR (take eol data)) of
      Inl e \<Rightarrow> Inl e | Inr f \<Rightarrow> Header_loop (fs @ [f]) (drop (eol + 1) data))"
  using assms by (subst Header_loop.simps) (auto simp: skipEOL_def)

lemma Header_loop_append:
  "Header_loop fs (d @ b) = (case Header_loop fs d of
      Inl e \<Rightarrow> Inl e
    | Inr (NeedMore, h) \<Rightarrow> Header_loop (Fields h) (hdata h @ b)
    | Inr (HeaderEnd rest, h) \<Rightarrow> Inr (HeaderEnd (rest @ b), h))"
proof (induction fs d rule: Header_loop.induct)
  case (1 fs d)
  consider "d = []" | r where "d \<noteq> []" "skipEOL d = (r, True)"
    | r where "d \<noteq> []" "skipEOL d = (r, False)" "IndexByte d 10 = None"
    | r eol where "d \<noteq> []" "skipEOL d = (r, False)" "IndexByte d 10 = Some eol"
    by (metis (full_types) option.exhaust surj_pair)
  then show ?case
  proof cases
    case 1
    then show ?thesis by (simp add: Header_loop.simps [of fs "[]"])
  next
    case (2 r)
    then show ?thesis
      using skipEOL_True_append [OF 2(2), of b]
      by (simp add: Header_loop.simps [of fs d] Header_loop.simps [of fs "d @ b"])
  next
    case (3 r)
    then show ?thesis by (simp add: Header_loop.simps [of fs d])
  next
    case (4 r eol)
    obtain r' where r': "skipEOL (d @ b) = (r', False)"
      using skipEOL_False_append [OF 4(2), of b] IndexByte_SomeD [OF 4(3)]
      by (metis nth_mem)
    have eol: "eol < length d" using IndexByte_SomeD [OF 4(3)] by simp
    then have whole: "Header_loop fs (d @ b) = (case Field_Parse (strip_CR (take eol d)) of
        Inl e \<Rightarrow> Inl e | Inr f \<Rightarrow> Header_loop (fs @ [f]) (drop (eol + 1) d @ b))"
      by (simp add: Header_loop_field [OF r' IndexByte_append_Some [OF 4(3)]] split: sum.split)
    show ?thesis
    proof (cases "Field_Parse (strip_CR (take eol d))")
      case (Inl e)
      then show ?thesis by (simp add: whole Header_loop_field [OF 4(2,3)])
    next
      case (Inr f)
      then have "Header_loop (fs @ [f]) (drop (eol + 1) d @ b) = (case Header_loop (fs @ [f]) (drop (eol + 1) d) of
          Inl e \<Rightarrow> Inl e
        | Inr (NeedMore, h) \<Rightarrow> Header_loop (Fields h) (hdata h @ b)
        | Inr (HeaderEnd rest, h) \<Rightarrow> Inr (HeaderEnd (rest @ b), h))"
        using "1.IH" [OF 4(1) 4(2) [symmetric] refl 4(3) Inr] by simp
      then show ?thesis using Inr by (simp add: whole Header_loop_field [OF 4(2,3)])
    qed
  qed
qed

lemma skipEOL_length: "skipEOL d = (r, b) \<Longrightarrow> length r \<le> length d"
  by (auto simp: skipEOL_def split: list.splits if_splits)

lemma Header_loop_rest: "Header_loop fs d = Inr (HeaderEnd rest, h) \<Longrightarrow> length rest \<le> length d"
proof (induction fs d rule: Header_loop.induct)
  case (1 fs d)
  consider "d = []" | r where "d \<noteq> []" "skipEOL d = (r, True)"
    | r where "d \<noteq> []" "skipEOL d = (r, False)" "IndexByte d 10 = None"
    | r eol where "d \<noteq> []" "skipEOL d = (r, False)" "IndexByte d 10 = Some eol"
    by (metis (full_types) option.exhaust surj_pair)
  then show ?case
  proof cases
    case (4 r eol)
    then obtain f where f: "Field_Parse (strip_CR (take eol d)) = Inr f"
      using "1.prems" by (auto simp: Header_loop_field split: sum.splits)
    then have "length rest \<le> length (drop (eol + 1) d)"
      using "1.IH" [OF 4(1) 4(2) [symmetric] refl 4(3) f] "1.prems" by (simp add: Header_loop_field [OF 4(2,3)])
    then show ?thesis by simp
  qed (use "1.prems" skipEOL_length [of d] in \<open>auto simp: Header_loop.simps [of fs d] Header_loop.simps [of fs "[]"]\<close>)
qed

section \<open>Rendering a header\<close>

text \<open>What an application sends: each field on a line, an empty line, then the body.\<close>

definition render_field :: "Field \<Rightarrow> bytes" where
  "render_field f = bytes_of (FieldName f) @ [58, 32] @ bytes_of (FieldValue f)"

definition render_header :: "Field list \<Rightarrow> bytes \<Rightarrow> bytes" where
  "render_header fs body = concat (map (\<lambda>f. render_field f @ [13, 10]) fs) @ [13, 10] @ body"

definition field_ok :: "Field \<Rightarrow> bool" where
  "field_ok f \<longleftrightarrow> FieldName f \<noteq> [] \<and> 58 \<notin> set (bytes_of (FieldName f)) \<and>
     10 \<notin> set (bytes_of (FieldName f)) \<and> 10 \<notin> set (bytes_of (FieldValue f)) \<and>
     Trim (bytes_of (FieldValue f)) [32, 9] = bytes_of (FieldValue f)"

lemma Trim_Cons_cut: "c \<in> set cs \<Longrightarrow> Trim (c # s) cs = Trim s cs"
  by (simp add: Trim_def TrimLeft_def)

lemma Field_Parse_render: "field_ok f \<Longrightarrow> Field_Parse (render_field f) = Inr f"
proof -
  assume ok: "field_ok f"
  then have "IndexByte (render_field f) 58 = Some (length (FieldName f))"
    using IndexByte_append [of "58 :: byte" "bytes_of (FieldName f)"]
    by (simp add: render_field_def field_ok_def)
  moreover have "bytes_of (FieldName f) \<noteq> []" using ok by (auto simp: field_ok_def bytes_of_def)
  ultimately show ?thesis
    using ok by (simp add: Field_Parse_def render_field_def field_ok_def Trim_Cons_cut)
qed

lemma skipEOL_render:
  "field_ok f \<Longrightarrow> \<exists>r. skipEOL (render_field f @ rest) = (r, False)"
proof -
  assume ok: "field_ok f"
  then obtain b bs where b: "bytes_of (FieldName f) = b # bs"
    by (cases "FieldName f") (auto simp: field_ok_def bytes_of_def)
  then have "b \<noteq> 10" "10 \<notin> set bs" using ok by (auto simp: field_ok_def)
  then show ?thesis by (cases bs) (auto simp: render_field_def b skipEOL_def)
qed

lemma Header_loop_render_field:
  assumes "field_ok f"
  shows "Header_loop fs ((render_field f @ [13, 10]) @ rest) = Header_loop (fs @ [f]) rest"
proof -
  have "10 \<notin> set (render_field f @ [13])"
    using assms by (auto simp: field_ok_def render_field_def)
  then have "IndexByte ((render_field f @ [13]) @ 10 # rest) 10 = Some (length (render_field f @ [13]))"
    by (rule IndexByte_append)
  moreover obtain r where "skipEOL (render_field f @ [13, 10] @ rest) = (r, False)"
    using skipEOL_render [OF assms] by blast
  moreover have "strip_CR (render_field f @ [13]) = render_field f"
    by (simp add: strip_CR_def)
  ultimately show ?thesis
    using Field_Parse_render [OF assms] by (simp add: Header_loop_field)
qed

lemma Header_loop_render:
  "list_all field_ok fs \<Longrightarrow>
    Header_loop gs (render_header fs body) = Inr (HeaderEnd body, \<lparr>Fields = gs @ fs, hdata = []\<rparr>)"
proof (induction fs arbitrary: gs)
  case Nil
  then show ?case by (simp add: render_header_def Header_loop.simps skipEOL_def)
next
  case (Cons f fs)
  then have "Header_loop gs (render_header (f # fs) body) =
      Header_loop (gs @ [f]) (render_header fs body)"
    using Header_loop_render_field [of f gs] by (simp add: render_header_def)
  with Cons show ?case by simp
qed

section \<open>Properties\<close>

text \<open>C26: The header parser does not depend on how the response is cut into records: parsing
  a chunk and then feeding the rest to the parser's state gives the same fields, the same
  remaining body and the same error as parsing the whole at once.\<close>

theorem header_parse_chunks:
  "Header_Parse h (a @ b) = (case Header_Parse h a of
      Inl e \<Rightarrow> Inl e
    | Inr (NeedMore, h') \<Rightarrow> Header_Parse h' b
    | Inr (HeaderEnd rest, h') \<Rightarrow> Inr (HeaderEnd (rest @ b), h'))"
  unfolding Header_Parse_def
  using Header_loop_append [of "Fields h" "hdata h @ a" b] by simp

text \<open>Parsing what an application sends (well-formed fields on their own lines, an empty
  line, a body) returns exactly these fields in order and exactly the body.\<close>

theorem header_render_parse:
  assumes "list_all field_ok fs"
  shows "Header_Parse empty_Header (render_header fs body) =
    Inr (HeaderEnd body, \<lparr>Fields = fs, hdata = []\<rparr>)"
  using Header_loop_render [OF assms, of "[]"] by (simp add: Header_Parse_def empty_Header_def)

theorem header_render_parse_witness:
  "list_all field_ok [\<lparr>FieldName = ''Status'', FieldValue = ''404 Not Found''\<rparr>] \<and>
   Header_Parse empty_Header (render_header [\<lparr>FieldName = ''Status'', FieldValue = ''404 Not Found''\<rparr>] [104, 105]) =
     Inr (HeaderEnd [104, 105], \<lparr>Fields = [\<lparr>FieldName = ''Status'', FieldValue = ''404 Not Found''\<rparr>], hdata = []\<rparr>)"
proof -
  have ok: "list_all field_ok [\<lparr>FieldName = ''Status'', FieldValue = ''404 Not Found''\<rparr>]"
    by (simp add: field_ok_def bytes_of_def Trim_def TrimLeft_def TrimRight_def)
  then show ?thesis using header_render_parse [OF ok] by simp
qed

text \<open>The status of a response is 200 when the application sends none, and always lies
  between 1 and 999.\<close>

theorem header_status_range:
  "fst (Header_Status eqf h) \<in> {1..999} \<and>
   (Header_Field eqf (Fields h) ''Status'' = '''' \<longrightarrow> Header_Status eqf h = (200, ''OK''))"
  by (auto simp: Header_Status_def Let_def split: option.splits prod.splits)

theorem header_status_range_witness:
  "fst (Header_Status (\<lambda>_ _. False) \<lparr>Fields = [\<lparr>FieldName = ''status'', FieldValue = ''404 Not Found''\<rparr>], hdata = []\<rparr>)
     \<in> {1..999} \<and>
   Header_Status (\<lambda>_ _. False) empty_Header = (200, ''OK'') \<and>
   Header_Status (\<lambda>_ _. False) \<lparr>Fields = [\<lparr>FieldName = ''status'', FieldValue = ''404 Not Found''\<rparr>], hdata = []\<rparr>
     = (404, ''Not Found'')"
proof -
  have none: "Header_Field (\<lambda>_ _. False) (Fields empty_Header) ''Status'' = ''''"
    by (simp add: empty_Header_def)
  have some: "Header_Status (\<lambda>_ _. False)
      \<lparr>Fields = [\<lparr>FieldName = ''status'', FieldValue = ''404 Not Found''\<rparr>], hdata = []\<rparr>
      = (404, ''Not Found'')"
    by code_simp
  show ?thesis
    using header_status_range [of "\<lambda>_ _. False" empty_Header] none some by simp
qed

end
