(* ===== verification/FastCGI_Connection.thy ===== *)
theory FastCGI_Connection
  imports FastCGI_Header
begin

text \<open>
  A connection of the FastCGI client, \<open>src/pkg/fastcgi/connection.go\<close>: writing a request as
  records and streams, reading the response record by record, and fetching the server's
  values. The network connection is a \<^typ>\<open>writer\<close> for what is sent and a \<^typ>\<open>reader\<close>
  for what the server answers. \<open>netutils.UnwrapOpError\<close> only strips the wrapper of a
  network error; \<^typ>\<open>io_error\<close> is the error under the wrapper.

  The interface \<open>byte_sink\<close> is what \<open>readResponse\<close> relies on in the \<open>io.Writer\<close> it copies
  the response body to.
\<close>

section \<open>Errors\<close>

datatype 'e conn_error =
    CannotConnect io_error
  | CannotWriteRecord fcgi_error
  | CannotReadStream io_error
  | CannotEncodeParameters fcgi_error
  | CannotReadRecord fcgi_error
  | UnexpectedRecord RecordType
  | UnsupportedRecordType byte
  | ErrServerOverloaded
  | UnknownRequestRole
  | AppError u32 string
  | EndedWithoutResponse
  | CannotParseHeader header_error
  | CannotWriteStdout 'e
  | UnhandledRecordType RecordType
  | ErrRequestCancelled
  | ErrRequestTimeout
  | ContextError string

section \<open>Writing\<close>

definition writeRecord ::
  "RecordType \<Rightarrow> u16 \<Rightarrow> Body \<Rightarrow> writer \<Rightarrow> fcgi_error option \<times> writer" where
  "writeRecord rtype i body w =
     Record_Write \<lparr>Version = 1, RecType = rtype, RequestId = i, RecBody = body\<rparr> w"

text \<open>
  An \<open>io.Reader\<close> to copy: the results of its successive \<open>Read\<close> calls, each the bytes read
  and the error returned with them; when the list is exhausted, \<open>Read\<close> returns \<open>io.EOF\<close>
  and no data. The loop of \<open>writeStream\<close> looks at the error first. The results that have
  not been asked for are what is left in the reader afterwards.
\<close>

type_synonym stream = "(bytes \<times> io_error option) list"

definition bufSize :: nat where
  "bufSize = 16 * 1024"

definition end_stream :: "RecordType \<Rightarrow> u16 \<Rightarrow> writer \<Rightarrow> 'e conn_error option \<times> writer" where
  "end_stream rtype i w = (case writeRecord rtype i NoBody w of
     (Some e, w') \<Rightarrow> (Some (CannotWriteRecord e), w')
   | (None, w') \<Rightarrow> (None, w'))"

fun writeStream ::
  "RecordType \<Rightarrow> u16 \<Rightarrow> stream \<Rightarrow> writer \<Rightarrow> 'e conn_error option \<times> stream \<times> writer" where
  "writeStream rtype i [] w = (case end_stream rtype i w of (err, w') \<Rightarrow> (err, [], w'))"
| "writeStream rtype i ((buf, err) # reads) w = (case err of
     Some e \<Rightarrow>
       if e = EOF then (case end_stream rtype i w of (err, w') \<Rightarrow> (err, reads, w'))
       else (Some (CannotReadStream e), reads, w)
   | None \<Rightarrow> (case writeRecord rtype i (Data buf) w of
       (Some e, w') \<Rightarrow> (Some (CannotWriteRecord e), reads, w')
     | (None, w') \<Rightarrow> writeStream rtype i reads w'))"

text \<open>A stream that may be absent, \<open>if stdin != nil\<close>.\<close>

definition write_optional ::
  "RecordType \<Rightarrow> u16 \<Rightarrow> stream option \<Rightarrow> writer \<Rightarrow>
     'e conn_error option \<times> stream option \<times> writer" where
  "write_optional rtype i st w = (case st of
     None \<Rightarrow> (None, None, w)
   | Some reads \<Rightarrow> (case writeStream rtype i reads w of (err, reads', w') \<Rightarrow> (err, Some reads', w')))"

text \<open>\<open>bytes.NewReader\<close> read with a buffer of \<open>bufSize\<close> bytes.\<close>

function bytes_reader :: "bytes \<Rightarrow> stream" where
  "bytes_reader data =
     (if data = [] then [] else (take bufSize data, None) # bytes_reader (drop bufSize data))"
  by pat_completeness auto
termination
  by (relation "measure length") (auto simp: bufSize_def)

declare bytes_reader.simps [simp del]

text \<open>
  \<open>writeRequest\<close> returns, with its error, what it has left in the two readers of the caller:
  the empty reader it puts in the place of an absent one is its own.
\<close>

definition writeRequest ::
  "Role \<Rightarrow> NameValuePair list \<Rightarrow> stream option \<Rightarrow> stream option \<Rightarrow> u16 \<Rightarrow> writer \<Rightarrow>
     'e conn_error option \<times> stream option \<times> stream option \<times> writer" where
  "writeRequest role params stdin data reqId w =
     (case writeRecord RecordTypeBeginRequest reqId
         (BeginRequest \<lparr>BeginRole = role, KeepConnection = True\<rparr>) w of
        (Some e, w) \<Rightarrow> (Some (CannotWriteRecord e), stdin, data, w)
      | (None, w) \<Rightarrow> (case NameValuePairs_Encode params of
          Inl e \<Rightarrow> (Some (CannotEncodeParameters e), stdin, data, w)
        | Inr paramData \<Rightarrow>
            (case writeStream RecordTypeParams reqId (bytes_reader paramData) w of
               (Some e, _, w) \<Rightarrow> (Some e, stdin, data, w)
             | (None, _, w) \<Rightarrow>
                 let nil_in = ((role = RoleResponder \<or> role = RoleFilter) \<and> stdin = None)
                 in (case write_optional RecordTypeStdin reqId
                         (if nil_in then Some (bytes_reader []) else stdin) w of
                       (err, st, w) \<Rightarrow>
                         let stdin = (if nil_in then None else st) in
                         (case err of
                            Some e \<Rightarrow> (Some e, stdin, data, w)
                          | None \<Rightarrow>
                              let nil_data = (role = RoleFilter \<and> data = None)
                              in (case write_optional RecordTypeData reqId
                                      (if nil_data then Some (bytes_reader []) else data) w of
                                    (err, st, w) \<Rightarrow> (err, stdin, if nil_data then None else st, w)))))))"

section \<open>Reading the response\<close>

text \<open>
  The variables of \<open>readResponse\<close>: the header being parsed, whether it is complete, the
  server's values (a field of the connection), the destination of the response body and
  the buffer of error output.
\<close>

record 'w response =
  res_header :: Header
  headerRead :: bool
  res_values :: "NameValuePair list"
  res_stdout :: 'w
  res_stderr :: bytes

datatype ('e, 'w) progress =
    Continue "'w response"
  | Finished "'w response"
  | Failed "'e conn_error" "'w response"

definition end_request_error :: "EndRequestBody \<Rightarrow> 'w response \<Rightarrow> 'e conn_error option" where
  "end_request_error body st =
     (if EndProtocolStatus body = ProtocolStatusCannotMultiplexConnection then Some ErrServerOverloaded
      else if EndProtocolStatus body = ProtocolStatusOverloaded then Some ErrServerOverloaded
      else if EndProtocolStatus body = ProtocolStatusUnknownRole then Some UnknownRequestRole
      else if AppStatus body \<noteq> 0 then Some (AppError (AppStatus body) (string_of (res_stderr st)))
      else if \<not> headerRead st then Some EndedWithoutResponse
      else None)"

text \<open>The \<open>switch\<close> of the loop on a record. \<open>wr\<close> is the \<open>Write\<close> method of \<open>stdout\<close>.\<close>

definition write_stdout ::
  "('w \<Rightarrow> bytes \<Rightarrow> 'e option \<times> 'w) \<Rightarrow> 'w response \<Rightarrow> bytes \<Rightarrow> ('e, 'w) progress" where
  "write_stdout wr st body = (case wr (res_stdout st) body of
     (Some e, w) \<Rightarrow> Failed (CannotWriteStdout e) (st\<lparr>res_stdout := w\<rparr>)
   | (None, w) \<Rightarrow> Continue (st\<lparr>res_stdout := w\<rparr>))"

fun readResponse_record ::
  "('w \<Rightarrow> bytes \<Rightarrow> 'e option \<times> 'w) \<Rightarrow> RecordType \<Rightarrow> Body \<Rightarrow> 'w response \<Rightarrow> ('e, 'w) progress" where
  "readResponse_record wr RecordTypeGetValuesResult (GetValuesResult pairs) st =
     Continue (st\<lparr>res_values := pairs\<rparr>)"
| "readResponse_record wr RecordTypeUnknownType (UnknownType t) st =
     Failed (UnsupportedRecordType t) st"
| "readResponse_record wr RecordTypeEndRequest (EndRequest body) st =
     (case end_request_error body st of
        Some e \<Rightarrow> Failed e st
      | None \<Rightarrow> Finished st)"
| "readResponse_record wr RecordTypeStdout (Data body) st =
     (if headerRead st then write_stdout wr st body
      else case Header_Parse (res_header st) body of
             Inl e \<Rightarrow> Failed (CannotParseHeader e) st
           | Inr (HeaderEnd rest, h) \<Rightarrow>
               write_stdout wr (st\<lparr>res_header := h, headerRead := True\<rparr>) rest
           | Inr (NeedMore, h) \<Rightarrow> write_stdout wr (st\<lparr>res_header := h\<rparr>) body)"
| "readResponse_record wr RecordTypeStderr (Data body) st =
     Continue (st\<lparr>res_stderr := res_stderr st @ body\<rparr>)"
| "readResponse_record wr rtype body st = Failed (UnhandledRecordType rtype) st"

text \<open>The loop ends: every record takes at least the eight bytes of its header.\<close>

function readResponse ::
  "('w \<Rightarrow> bytes \<Rightarrow> 'e option \<times> 'w) \<Rightarrow> reader \<Rightarrow> 'w response \<Rightarrow>
     ('e conn_error + Header) \<times> 'w response \<times> reader" where
  "readResponse wr rd st = (case Record_Read rd of
     Inl e \<Rightarrow> (Inl (CannotReadRecord e), st, rd)
   | Inr (r, rd') \<Rightarrow> (case readResponse_record wr (RecType r) (RecBody r) st of
       Continue st' \<Rightarrow> readResponse wr rd' st'
     | Finished st' \<Rightarrow> (Inr (res_header st'), st', rd')
     | Failed e st' \<Rightarrow> (Inl e, st', rd')))"
  by pat_completeness auto
termination
  by (relation "measure (\<lambda>(wr, rd, st). length (rdata rd))") (auto dest: Record_Read_shorter)

declare readResponse.simps [simp del]

definition start_response :: "NameValuePair list \<Rightarrow> 'w \<Rightarrow> bytes \<Rightarrow> 'w response" where
  "start_response values w stderr = \<lparr>res_header = empty_Header, headerRead = False,
     res_values = values, res_stdout = w, res_stderr = stderr\<rparr>"

section \<open>The connection\<close>

record Connection =
  conn_in :: reader
  conn_out :: writer
  conn_open :: bool
  conn_values :: "NameValuePair list"

definition Connection_Close :: "Connection \<Rightarrow> Connection" where
  "Connection_Close c = c\<lparr>conn_open := False\<rparr>"

definition fetchValues :: "Connection \<Rightarrow> 'e conn_error option \<times> Connection" where
  "fetchValues c =
     (case writeRecord RecordTypeGetValues 0
         (GetValues [''FCGI_MAX_CONNS'', ''FCGI_MAX_REQS'', ''FCGI_MPXS_CONNS'']) (conn_out c) of
        (Some e, w) \<Rightarrow> (Some (CannotWriteRecord e), c\<lparr>conn_out := w\<rparr>)
      | (None, w) \<Rightarrow> (case Record_Read (conn_in c) of
          Inl e \<Rightarrow> (Some (CannotReadRecord e), c\<lparr>conn_out := w\<rparr>)
        | Inr (r, rd) \<Rightarrow>
            (case (RecType r, RecBody r) of
               (RecordTypeGetValuesResult, GetValuesResult pairs) \<Rightarrow>
                 (None, c\<lparr>conn_out := w, conn_in := rd, conn_values := pairs\<rparr>)
             | (t, _) \<Rightarrow> (Some (UnexpectedRecord t), c\<lparr>conn_out := w, conn_in := rd\<rparr>))))"

text \<open>\<open>NewConnection\<close>: the outcome of dialing is the argument.\<close>

definition NewConnection :: "(io_error + (reader \<times> writer)) \<Rightarrow> 'e conn_error + Connection" where
  "NewConnection dial = (case dial of
     Inl e \<Rightarrow> Inl (CannotConnect e)
   | Inr (rd, w) \<Rightarrow>
       (case fetchValues \<lparr>conn_in = rd, conn_out = w, conn_open = True, conn_values = []\<rparr> of
          (Some e, c) \<Rightarrow> Inl e
        | (None, c) \<Rightarrow> Inr c))"

text \<open>
  \<open>Connection.SendRequest\<close>. The goroutine writes the request and reads the response; the
  context may be done first (\<open>ctx\<close> is then its error), which closes the connection and
  replaces the goroutine's result.
\<close>

datatype ctx_error = Canceled | DeadlineExceeded | OtherCtxError string

text \<open>What a request leaves behind: the readers and the destination of the caller, the error
  output and the connection.\<close>

record 'w exchange =
  ex_stdin :: "stream option"
  ex_data :: "stream option"
  ex_stdout :: 'w
  ex_stderr :: bytes
  ex_conn :: Connection

definition Connection_exchange ::
  "('w \<Rightarrow> bytes \<Rightarrow> 'e option \<times> 'w) \<Rightarrow> Role \<Rightarrow> NameValuePair list \<Rightarrow>
     'w exchange \<Rightarrow> ('e conn_error + Header) \<times> 'w exchange" where
  "Connection_exchange wr role params x =
     (let c = ex_conn x in
      case writeRequest role params (ex_stdin x) (ex_data x) 1 (conn_out c) of
        (Some e, si, da, w) \<Rightarrow>
          (Inl e, x\<lparr>ex_stdin := si, ex_data := da, ex_conn := c\<lparr>conn_out := w\<rparr>\<rparr>)
      | (None, si, da, w) \<Rightarrow>
          (case readResponse wr (conn_in c) (start_response (conn_values c) (ex_stdout x) (ex_stderr x)) of
             (res, st, rd) \<Rightarrow> (res,
               \<lparr>ex_stdin = si, ex_data = da, ex_stdout = res_stdout st, ex_stderr = res_stderr st,
                ex_conn = c\<lparr>conn_out := w, conn_in := rd, conn_values := res_values st\<rparr>\<rparr>)))"

definition ctx_conn_error :: "ctx_error \<Rightarrow> 'e conn_error" where
  "ctx_conn_error e = (case e of
     Canceled \<Rightarrow> ErrRequestCancelled
   | DeadlineExceeded \<Rightarrow> ErrRequestTimeout
   | OtherCtxError m \<Rightarrow> ContextError m)"

text \<open>
  The goroutine that a done context interrupts sees its reads or writes fail from some
  point on, which is a \<^typ>\<open>reader\<close> and a \<^typ>\<open>writer\<close> that end there.
\<close>

definition Connection_SendRequest ::
  "ctx_error option \<Rightarrow> ('w \<Rightarrow> bytes \<Rightarrow> 'e option \<times> 'w) \<Rightarrow> Role \<Rightarrow> NameValuePair list \<Rightarrow>
     'w exchange \<Rightarrow> ('e conn_error + Header) \<times> 'w exchange" where
  "Connection_SendRequest ctx wr role params x =
     (case Connection_exchange wr role params x of
        (res, x') \<Rightarrow> (case ctx of
          None \<Rightarrow> (res, x')
        | Some e \<Rightarrow> (Inl (ctx_conn_error e), x'\<lparr>ex_conn := Connection_Close (ex_conn x')\<rparr>)))"

section \<open>What is written can be read\<close>

text \<open>Reading records until the connection has no more: the records and the final error.\<close>

function read_all :: "reader \<Rightarrow> Record list \<times> fcgi_error" where
  "read_all rd = (case Record_Read rd of
     Inl e \<Rightarrow> ([], e)
   | Inr (r, rd') \<Rightarrow> (case read_all rd' of (rs, e) \<Rightarrow> (r # rs, e)))"
  by pat_completeness auto
termination
  by (relation "measure (\<lambda>rd. length (rdata rd))") (auto dest: Record_Read_shorter)

declare read_all.simps [simp del]

definition delivers :: "writer \<Rightarrow> writer \<Rightarrow> Record list \<Rightarrow> bool" where
  "delivers w w' rs \<longleftrightarrow> room w' = None \<and> (\<exists>bs. sent w' = sent w @ bs \<and>
     (\<forall>rest e. read_all \<lparr>rdata = bs @ rest, rerr = e\<rparr> =
        (case read_all \<lparr>rdata = rest, rerr = e\<rparr> of (rs', err) \<Rightarrow> (rs @ rs', err))))"

lemma delivers_refl: "room w = None \<Longrightarrow> delivers w w []"
  by (auto simp: delivers_def)

lemma delivers_trans:
  assumes "delivers w w' rs" "delivers w' w'' rs'"
  shows "delivers w w'' (rs @ rs')"
proof -
  obtain bs where bs: "sent w' = sent w @ bs"
    "\<And>rest e. read_all \<lparr>rdata = bs @ rest, rerr = e\<rparr> =
      (case read_all \<lparr>rdata = rest, rerr = e\<rparr> of (rs', err) \<Rightarrow> (rs @ rs', err))"
    using assms(1) by (auto simp: delivers_def)
  obtain bs' where bs': "sent w'' = sent w' @ bs'"
    "\<And>rest e. read_all \<lparr>rdata = bs' @ rest, rerr = e\<rparr> =
      (case read_all \<lparr>rdata = rest, rerr = e\<rparr> of (rs'', err) \<Rightarrow> (rs' @ rs'', err))"
    using assms(2) by (auto simp: delivers_def)
  have "sent w'' = sent w @ (bs @ bs')" using bs(1) bs'(1) by simp
  moreover have "read_all \<lparr>rdata = (bs @ bs') @ rest, rerr = e\<rparr> =
      (case read_all \<lparr>rdata = rest, rerr = e\<rparr> of (rs'', err) \<Rightarrow> ((rs @ rs') @ rs'', err))" for rest e
    using bs(2) [of "bs' @ rest" e] bs'(2) [of rest e] by (simp split: prod.splits)
  ultimately show ?thesis using assms(2) unfolding delivers_def by blast
qed

text \<open>One record, whose body may be nil: a nil body is read as no data.\<close>

lemma writeRecord_delivers:
  assumes "room w = None" "DiscreteBody_Encode body = Inr bs" "length bs \<le> MaxUint16"
    "Body_Decode t bs = Inr body'"
  shows "\<exists>w'. writeRecord t i body w = (None, w') \<and>
    delivers w w' [\<lparr>Version = 1, RecType = t, RequestId = i, RecBody = body'\<rparr>]"
proof -
  let ?frame = "[1, RecordType_Encode t] @ PutUint16 i @ PutUint16 (word_of_nat (length bs)) @ [0, 0] @ bs"
  have "writeRecord t i body w = (None, w\<lparr>sent := sent w @ ?frame\<rparr>)"
    using assms(1-3) by (simp add: writeRecord_def Record_Write_def Record_bytes_def)
  moreover have "delivers w (w\<lparr>sent := sent w @ ?frame\<rparr>)
      [\<lparr>Version = 1, RecType = t, RequestId = i, RecBody = body'\<rparr>]"
    using Record_Read_frame [OF assms(3,4)] assms(1)
    unfolding delivers_def
    by (intro conjI exI [of _ ?frame] allI; (subst read_all.simps)?; simp)
  ultimately show ?thesis by blast
qed

fun stream_type :: "RecordType \<Rightarrow> bool" where
  "stream_type RecordTypeParams = True"
| "stream_type RecordTypeStdin = True"
| "stream_type RecordTypeStdout = True"
| "stream_type RecordTypeStderr = True"
| "stream_type RecordTypeData = True"
| "stream_type _ = False"

lemma Body_Decode_stream: "stream_type t \<Longrightarrow> Body_Decode t bs = Inr (Data bs)"
  by (cases t) simp_all

text \<open>A stream as the protocol sends it: one record per chunk, then an empty record.\<close>

definition stream_records :: "RecordType \<Rightarrow> u16 \<Rightarrow> bytes list \<Rightarrow> Record list" where
  "stream_records t i chunks =
     map (\<lambda>bs. \<lparr>Version = 1, RecType = t, RequestId = i, RecBody = Data bs\<rparr>) (chunks @ [[]])"

definition clean_stream :: "stream \<Rightarrow> bool" where
  "clean_stream st \<longleftrightarrow> list_all (\<lambda>(bs, err). err = None \<and> length bs \<le> MaxUint16) st"

lemma clean_stream_Nil [simp]: "clean_stream []"
  by (simp add: clean_stream_def)

lemma writeStream_delivers:
  assumes "stream_type t" "clean_stream st" "room w = None"
  shows "\<exists>w'. (writeStream t i st w :: 'e conn_error option \<times> stream \<times> writer) = (None, [], w') \<and>
    delivers w w' (stream_records t i (map fst st))"
  using assms(2,3)
proof (induction st arbitrary: w)
  case Nil
  obtain w' where "writeRecord t i NoBody w = (None, w')"
    "delivers w w' [\<lparr>Version = 1, RecType = t, RequestId = i, RecBody = Data []\<rparr>]"
    using writeRecord_delivers [of w NoBody "[]" t "Data []" i] Body_Decode_stream [OF assms(1)] Nil
    by auto
  then show ?case by (simp add: end_stream_def stream_records_def)
next
  case (Cons x st)
  obtain bs where x: "x = (bs, None)" "length bs \<le> MaxUint16"
    using Cons.prems by (cases x) (auto simp: clean_stream_def)
  obtain w1 where w1: "writeRecord t i (Data bs) w = (None, w1)"
    "delivers w w1 [\<lparr>Version = 1, RecType = t, RequestId = i, RecBody = Data bs\<rparr>]"
    using writeRecord_delivers [of w "Data bs" bs t "Data bs" i] Body_Decode_stream [OF assms(1)]
      Cons.prems x by auto
  then have "room w1 = None" by (simp add: delivers_def)
  then obtain w' where w': "(writeStream t i st w1 :: 'e conn_error option \<times> stream \<times> writer) = (None, [], w')"
    "delivers w1 w' (stream_records t i (map fst st))"
    using Cons by (auto simp: clean_stream_def)
  then have "delivers w w' (stream_records t i (map fst (x # st)))"
    using delivers_trans [OF w1(2) w'(2)] x by (simp add: stream_records_def)
  with w1 w' x show ?case by auto
qed

lemma bytes_reader_Nil [simp]: "bytes_reader [] = []"
  by (simp add: bytes_reader.simps)

lemma length_BeginRequestBody_Encode [simp]: "length (BeginRequestBody_Encode b) = 8"
  by (simp add: BeginRequestBody_Encode_def PutUint16_def)

lemma bytes_reader_content: "concat (map fst (bytes_reader d)) = d"
proof (induction d rule: bytes_reader.induct)
  case (1 d)
  then show ?case by (cases "d = []") (simp_all add: bytes_reader.simps [of d])
qed

lemma bytes_reader_clean: "clean_stream (bytes_reader d)"
proof (induction d rule: bytes_reader.induct)
  case (1 d)
  then show ?case
    by (cases "d = []")
      (simp_all add: bytes_reader.simps [of d] clean_stream_def bufSize_def MaxUint16_def)
qed

text \<open>
  The records of a request, as the FastCGI specification wants them for a role: the
  beginning of the request, the parameters, then the input and data streams the role has.
\<close>

definition request_records ::
  "Role \<Rightarrow> bytes \<Rightarrow> stream option \<Rightarrow> stream option \<Rightarrow> u16 \<Rightarrow> Record list" where
  "request_records role paramData stdin data i =
     \<lparr>Version = 1, RecType = RecordTypeBeginRequest, RequestId = i,
      RecBody = BeginRequest \<lparr>BeginRole = role, KeepConnection = True\<rparr>\<rparr> #
     stream_records RecordTypeParams i (map fst (bytes_reader paramData)) @
     (case stdin of Some st \<Rightarrow> stream_records RecordTypeStdin i (map fst st)
      | None \<Rightarrow> if role = RoleAuthorizer then [] else stream_records RecordTypeStdin i []) @
     (case data of Some st \<Rightarrow> stream_records RecordTypeData i (map fst st)
      | None \<Rightarrow> if role = RoleFilter then stream_records RecordTypeData i [] else [])"

lemma optional_stream_delivers:
  assumes "stream_type t" "pred_option clean_stream st" "room w = None"
  shows "\<exists>st' w'. (write_optional t i st w :: 'e conn_error option \<times> stream option \<times> writer) = (None, st', w') \<and>
    delivers w w' (case st of None \<Rightarrow> [] | Some s \<Rightarrow> stream_records t i (map fst s)) \<and>
    st' = map_option (\<lambda>_. []) st"
proof (cases st)
  case None
  then show ?thesis using delivers_refl [OF assms(3)] by (simp add: write_optional_def)
next
  case (Some s)
  then obtain w' where "(writeStream t i s w :: 'e conn_error option \<times> stream \<times> writer) = (None, [], w')"
    "delivers w w' (stream_records t i (map fst s))"
    using writeStream_delivers [OF assms(1) _ assms(3), of s i] assms(2) by auto
  with Some show ?thesis by (simp add: write_optional_def)
qed

lemma writeRequest_delivers:
  fixes w :: writer
  assumes params: "NameValuePairs_Encode params = Inr paramData"
    and stdin: "pred_option clean_stream stdin" and data: "pred_option clean_stream data"
    and w: "room w = None"
  shows "\<exists>w'. (writeRequest role params stdin data i w
        :: 'e conn_error option \<times> stream option \<times> stream option \<times> writer) =
      (None, map_option (\<lambda>_. []) stdin, map_option (\<lambda>_. []) data, w') \<and>
    delivers w w' (request_records role paramData stdin data i)"
proof -
  let ?b = "\<lparr>BeginRole = role, KeepConnection = True\<rparr>"
  let ?stdin = "if (role = RoleResponder \<or> role = RoleFilter) \<and> stdin = None
    then Some (bytes_reader []) else stdin"
  let ?data = "if role = RoleFilter \<and> data = None then Some (bytes_reader []) else data"
  have clean: "pred_option clean_stream ?stdin" "pred_option clean_stream ?data"
    using stdin data bytes_reader_clean by auto
  obtain w1 where w1: "writeRecord RecordTypeBeginRequest i (BeginRequest ?b) w = (None, w1)"
    "delivers w w1 [\<lparr>Version = 1, RecType = RecordTypeBeginRequest, RequestId = i, RecBody = BeginRequest ?b\<rparr>]"
    using writeRecord_delivers [of w "BeginRequest ?b" "BeginRequestBody_Encode ?b"
        RecordTypeBeginRequest "BeginRequest ?b" i] w
    by (auto simp: codec_simps MaxUint16_def)
  obtain w2 where w2: "(writeStream RecordTypeParams i (bytes_reader paramData) w1
      :: 'e conn_error option \<times> stream \<times> writer) = (None, [], w2)"
    "delivers w1 w2 (stream_records RecordTypeParams i (map fst (bytes_reader paramData)))"
    using writeStream_delivers [OF _ bytes_reader_clean, of RecordTypeParams w1 i paramData] w1
    by (auto simp: delivers_def)
  obtain w3 where w3: "(write_optional RecordTypeStdin i ?stdin w2
      :: 'e conn_error option \<times> stream option \<times> writer) = (None, map_option (\<lambda>_. []) ?stdin, w3)"
    "delivers w2 w3 (case ?stdin of None \<Rightarrow> [] | Some s \<Rightarrow> stream_records RecordTypeStdin i (map fst s))"
    using optional_stream_delivers [OF _ clean(1), of RecordTypeStdin w2 i] w2 by (auto simp: delivers_def)
  obtain w4 where w4: "(write_optional RecordTypeData i ?data w3
      :: 'e conn_error option \<times> stream option \<times> writer) = (None, map_option (\<lambda>_. []) ?data, w4)"
    "delivers w3 w4 (case ?data of None \<Rightarrow> [] | Some s \<Rightarrow> stream_records RecordTypeData i (map fst s))"
    using optional_stream_delivers [OF _ clean(2), of RecordTypeData w3 i] w3 by (auto simp: delivers_def)
  have "(writeRequest role params stdin data i w
      :: 'e conn_error option \<times> stream option \<times> stream option \<times> writer) =
      (None, map_option (\<lambda>_. []) stdin, map_option (\<lambda>_. []) data, w4)"
    unfolding writeRequest_def Let_def using w1(1) w2(1) w3(1) w4(1) params by auto
  moreover have "delivers w w4 (request_records role paramData stdin data i)"
    using delivers_trans [OF delivers_trans [OF delivers_trans [OF w1(2) w2(2)] w3(2)] w4(2)]
    by (cases role; cases stdin; cases data)
      (simp_all add: request_records_def)
  ultimately show ?thesis by blast
qed

section \<open>The destination of the response\<close>

text \<open>
  What the connection relies on in the writer it copies the body to: a successful write
  appends its data to the content and keeps the writer's invariant. A \<open>total_sink\<close> never
  fails, as a \<open>bytes.Buffer\<close> never does.
\<close>

locale byte_sink =
  fixes wr :: "'w \<Rightarrow> bytes \<Rightarrow> 'e option \<times> 'w"
    and content :: "'w \<Rightarrow> bytes"
    and sink_inv :: "'w \<Rightarrow> bool"
  assumes write_appends: "\<lbrakk>sink_inv w; length bs \<le> MaxUint16; wr w bs = (None, w')\<rbrakk> \<Longrightarrow>
      content w' = content w @ bs"
    and write_inv: "\<lbrakk>sink_inv w; length bs \<le> MaxUint16; wr w bs = (None, w')\<rbrakk> \<Longrightarrow> sink_inv w'"

locale total_sink = byte_sink +
  assumes write_succeeds: "sink_inv w \<Longrightarrow> \<exists>w'. wr w bs = (None, w')"

text \<open>Output records of a response, and what a list of them carries on each stream.\<close>

datatype out_rec = Stdout bytes | Stderr bytes

fun output_record :: "u16 \<Rightarrow> out_rec \<Rightarrow> Record" where
  "output_record i (Stdout bs) = \<lparr>Version = 1, RecType = RecordTypeStdout, RequestId = i, RecBody = Data bs\<rparr>"
| "output_record i (Stderr bs) = \<lparr>Version = 1, RecType = RecordTypeStderr, RequestId = i, RecBody = Data bs\<rparr>"

fun stdout_of :: "out_rec list \<Rightarrow> bytes" where
  "stdout_of [] = []"
| "stdout_of (Stdout bs # os) = bs @ stdout_of os"
| "stdout_of (Stderr bs # os) = stdout_of os"

fun stderr_of :: "out_rec list \<Rightarrow> bytes" where
  "stderr_of [] = []"
| "stderr_of (Stdout bs # os) = stderr_of os"
| "stderr_of (Stderr bs # os) = bs @ stderr_of os"

fun output_fits :: "out_rec \<Rightarrow> bool" where
  "output_fits (Stdout bs) = (length bs \<le> MaxUint16)"
| "output_fits (Stderr bs) = (length bs \<le> MaxUint16)"

definition frame :: "Record \<Rightarrow> bytes" where
  "frame r = (case Record_bytes r of Inr bs \<Rightarrow> bs | Inl _ \<Rightarrow> [])"

fun output_frames :: "u16 \<Rightarrow> out_rec list \<Rightarrow> bytes" where
  "output_frames i [] = []"
| "output_frames i (out # outs) = frame (output_record i out) @ output_frames i outs"

definition end_record :: "u16 \<Rightarrow> u32 \<Rightarrow> ProtocolStatus \<Rightarrow> Record" where
  "end_record i app st = \<lparr>Version = 1, RecType = RecordTypeEndRequest, RequestId = i,
     RecBody = EndRequest \<lparr>AppStatus = app, EndProtocolStatus = st\<rparr>\<rparr>"

lemma Record_Read_output:
  assumes "output_fits out"
  shows "Record_Read \<lparr>rdata = frame (output_record i out) @ rest, rerr = e\<rparr> =
    Inr (output_record i out, \<lparr>rdata = rest, rerr = e\<rparr>)"
proof -
  have "record_ok (output_record i out)"
    using assms by (cases out) (simp_all add: record_ok_def)
  moreover obtain bs where "Record_bytes (output_record i out) = Inr bs"
    by (cases out) (simp_all add: Record_bytes_def)
  ultimately show ?thesis by (simp add: Record_Read_bytes frame_def)
qed

lemma Record_Read_end:
  "Record_Read \<lparr>rdata = frame (end_record i app ps) @ rest, rerr = e\<rparr> =
    Inr (end_record i app ps, \<lparr>rdata = rest, rerr = e\<rparr>)"
proof -
  obtain bs where "Record_bytes (end_record i app ps) = Inr bs"
    by (simp add: Record_bytes_def end_record_def EndRequestBody_Encode_def PutUint32_def MaxUint16_def)
  then show ?thesis
    using Record_Read_bytes [of "end_record i app ps"]
    by (simp add: frame_def record_ok_def end_record_def)
qed

lemma readResponse_output:
  "output_fits out \<Longrightarrow>
    readResponse wr \<lparr>rdata = frame (output_record i out) @ rest, rerr = e\<rparr> st =
      (case readResponse_record wr (RecType (output_record i out)) (RecBody (output_record i out)) st of
         Continue st' \<Rightarrow> readResponse wr \<lparr>rdata = rest, rerr = e\<rparr> st'
       | Finished st' \<Rightarrow> (Inr (res_header st'), st', \<lparr>rdata = rest, rerr = e\<rparr>)
       | Failed err st' \<Rightarrow> (Inl err, st', \<lparr>rdata = rest, rerr = e\<rparr>))"
  by (subst readResponse.simps) (simp add: Record_Read_output)

lemma readResponse_stdout:
  "length d \<le> MaxUint16 \<Longrightarrow>
    readResponse wr \<lparr>rdata = frame (output_record i (Stdout d)) @ rest, rerr = e\<rparr> st =
      (case readResponse_record wr RecordTypeStdout (Data d) st of
         Continue st' \<Rightarrow> readResponse wr \<lparr>rdata = rest, rerr = e\<rparr> st'
       | Finished st' \<Rightarrow> (Inr (res_header st'), st', \<lparr>rdata = rest, rerr = e\<rparr>)
       | Failed err st' \<Rightarrow> (Inl err, st', \<lparr>rdata = rest, rerr = e\<rparr>))"
  using readResponse_output [of "Stdout d" wr i rest e st] by simp

lemma readResponse_end:
  "readResponse wr \<lparr>rdata = frame (end_record i app ps) @ rest, rerr = e\<rparr> st =
    ((case end_request_error \<lparr>AppStatus = app, EndProtocolStatus = ps\<rparr> st of
        Some err \<Rightarrow> Inl err | None \<Rightarrow> Inr (res_header st)), st, \<lparr>rdata = rest, rerr = e\<rparr>)"
  by (subst readResponse.simps) (simp add: Record_Read_end, simp add: end_record_def split: option.split)

context byte_sink begin

text \<open>A write that the destination refuses.\<close>

definition refuses :: "'e \<Rightarrow> bool" where
  "refuses err \<longleftrightarrow> (\<exists>w bs w'. sink_inv w \<and> wr w bs = (Some err, w'))"

text \<open>Once the header is complete, the response body and the error output grow by what the
  records carry, unless the destination refuses a part of it.\<close>

lemma outputs_stored:
  assumes "list_all output_fits os" "headerRead st" "sink_inv (res_stdout st)"
  shows "(\<exists>st'. (\<forall>rest. readResponse wr \<lparr>rdata = output_frames i os @ rest, rerr = e\<rparr> st =
        readResponse wr \<lparr>rdata = rest, rerr = e\<rparr> st') \<and>
      headerRead st' \<and> res_header st' = res_header st \<and> res_values st' = res_values st \<and>
      sink_inv (res_stdout st') \<and> content (res_stdout st') = content (res_stdout st) @ stdout_of os \<and>
      res_stderr st' = res_stderr st @ stderr_of os) \<or>
    (\<exists>err. refuses err \<and>
      (\<forall>rest. fst (readResponse wr \<lparr>rdata = output_frames i os @ rest, rerr = e\<rparr> st) = Inl (CannotWriteStdout err)))"
  using assms
proof (induction os arbitrary: st)
  case Nil
  then show ?case by (intro disjI1 exI [of _ st]) simp
next
  case (Cons out os)
  let ?step = "readResponse_record wr (RecType (output_record i out)) (RecBody (output_record i out)) st"
  have fits: "output_fits out" using Cons.prems by simp
  consider (fail) err w where "refuses err" "?step = Failed (CannotWriteStdout err) (st\<lparr>res_stdout := w\<rparr>)"
    | (ok) st1 where "?step = Continue st1" "headerRead st1" "res_header st1 = res_header st"
      "res_values st1 = res_values st" "sink_inv (res_stdout st1)"
      "content (res_stdout st1) = content (res_stdout st) @ stdout_of [out]"
      "res_stderr st1 = res_stderr st @ stderr_of [out]"
  proof (cases out)
    case (Stdout bs)
    obtain r w where w: "wr (res_stdout st) bs = (r, w)" by fastforce
    show ?thesis
    proof (cases r)
      case None
      then have "sink_inv w" "content w = content (res_stdout st) @ bs"
        using Stdout w Cons.prems write_appends [of "res_stdout st" bs w] write_inv [of "res_stdout st" bs w]
        by auto
      then show ?thesis
        using that(2) [of "st\<lparr>res_stdout := w\<rparr>"] Stdout w Cons.prems None by (simp add: write_stdout_def)
    next
      case (Some err)
      then show ?thesis
        using that(1) [of err w] Stdout w Cons.prems by (auto simp: write_stdout_def refuses_def)
    qed
  next
    case (Stderr bs)
    then show ?thesis
      using that(2) [of "st\<lparr>res_stderr := res_stderr st @ bs\<rparr>"] Cons.prems by simp
  qed
  then show ?case
  proof cases
    case fail
    have "fst (readResponse wr \<lparr>rdata = output_frames i (out # os) @ rest, rerr = e\<rparr> st) =
        Inl (CannotWriteStdout err)" for rest
      using readResponse_output [OF fits, of wr i "output_frames i os @ rest" e st] fail(2) by simp
    with fail(1) show ?thesis by blast
  next
    case ok
    have step: "readResponse wr \<lparr>rdata = output_frames i (out # os) @ rest, rerr = e\<rparr> st =
        readResponse wr \<lparr>rdata = output_frames i os @ rest, rerr = e\<rparr> st1" for rest
      using readResponse_output [OF fits, of wr i "output_frames i os @ rest" e st] ok(1) by simp
    have "stdout_of (out # os) = stdout_of [out] @ stdout_of os"
      "stderr_of (out # os) = stderr_of [out] @ stderr_of os" by (cases out; simp)+
    then show ?thesis using Cons.IH [of st1] Cons.prems(1) ok(2-7) unfolding step by simp
  qed
qed

lemma response_stored:
  assumes hdr: "Header_Parse empty_Header d = Inr (HeaderEnd body, h)" "length d \<le> MaxUint16"
    and os: "list_all output_fits os" and w: "sink_inv w"
    and res: "readResponse wr \<lparr>rdata = frame (output_record i (Stdout d)) @ output_frames i os @
        frame (end_record i 0 ProtocolStatusRequestComplete) @ rest, rerr = e\<rparr>
        (start_response vs w err) = (r, st', rd')"
  shows "r = Inr h \<and> rd' = \<lparr>rdata = rest, rerr = e\<rparr> \<and> sink_inv (res_stdout st') \<and>
      content (res_stdout st') = content w @ body @ stdout_of os \<and>
      res_stderr st' = err @ stderr_of os \<or>
    (\<exists>x. r = Inl (CannotWriteStdout x) \<and> refuses x)"
proof -
  have body: "length body \<le> MaxUint16"
    using Header_loop_rest [of "[]" d body h] hdr by (simp add: Header_Parse_def empty_Header_def)
  let ?more = "output_frames i os @ frame (end_record i 0 ProtocolStatusRequestComplete) @ rest"
  let ?st1 = "\<lambda>w1. (start_response vs w err)\<lparr>res_header := h, headerRead := True, res_stdout := w1\<rparr>"
  obtain x w1 where w1: "wr w body = (x, w1)" by fastforce
  note first = readResponse_output [of "Stdout d" wr i ?more e "start_response vs w err"]
  show ?thesis
  proof (cases x)
    case (Some y)
    then have "refuses y" using w w1 by (auto simp: refuses_def)
    then show ?thesis using first hdr res w1 Some
      by (auto simp: start_response_def write_stdout_def)
  next
    case None
    have inv: "sink_inv w1" "content w1 = content w @ body" using write_appends write_inv w w1 body None by blast+
    have step: "readResponse wr \<lparr>rdata = ?more, rerr = e\<rparr> (?st1 w1) = (r, st', rd')"
      using first hdr res w1 None by (simp add: start_response_def write_stdout_def)
    have "headerRead (?st1 w1)" "sink_inv (res_stdout (?st1 w1))" using inv(1) by simp_all
    from outputs_stored [OF os this, of i e] show ?thesis
    proof (elim disjE exE conjE)
      fix st1 assume st1: "\<forall>rest. readResponse wr \<lparr>rdata = output_frames i os @ rest, rerr = e\<rparr> (?st1 w1) =
          readResponse wr \<lparr>rdata = rest, rerr = e\<rparr> st1"
        "headerRead st1" "res_header st1 = res_header (?st1 w1)" "sink_inv (res_stdout st1)"
        "content (res_stdout st1) = content (res_stdout (?st1 w1)) @ stdout_of os"
        "res_stderr st1 = res_stderr (?st1 w1) @ stderr_of os"
      then show ?thesis using step inv(2)
        by (auto simp: readResponse_end end_request_error_def start_response_def)
    next
      fix y assume "refuses y" "\<forall>rest. fst (readResponse wr \<lparr>rdata = output_frames i os @ rest, rerr = e\<rparr> (?st1 w1)) =
          Inl (CannotWriteStdout y)"
      then show ?thesis using step by (metis fst_conv)
    qed
  qed
qed

end

context total_sink begin

lemma response_copied:
  assumes "Header_Parse empty_Header d = Inr (HeaderEnd body, h)" "length d \<le> MaxUint16"
    "list_all output_fits os" "sink_inv w"
  shows "\<exists>st'. readResponse wr \<lparr>rdata = frame (output_record i (Stdout d)) @
        output_frames i os @
        frame (end_record i 0 ProtocolStatusRequestComplete) @ rest, rerr = e\<rparr>
        (start_response vs w err) = (Inr h, st', \<lparr>rdata = rest, rerr = e\<rparr>) \<and>
      content (res_stdout st') = content w @ body @ stdout_of os \<and>
      res_stderr st' = err @ stderr_of os"
proof -
  have "\<not> refuses x" for x unfolding refuses_def using write_succeeds by (metis option.distinct(1) prod.inject)
  then show ?thesis using response_stored [OF assms] by (metis prod.exhaust)
qed

end

text \<open>\<open>bytes.Buffer\<close>, the destination the command line client uses.\<close>

definition Buffer_Write :: "bytes \<Rightarrow> bytes \<Rightarrow> io_error option \<times> bytes" where
  "Buffer_Write buf bs = (None, buf @ bs)"

interpretation buffer: total_sink Buffer_Write "\<lambda>buf. buf" "\<lambda>buf. True"
  by unfold_locales (auto simp: Buffer_Write_def)

lemma readResponse_success:
  "readResponse wr rd st = (Inr h, st', rd') \<Longrightarrow>
    headerRead st' \<and> h = res_header st' \<and> length (rdata rd') + 8 \<le> length (rdata rd)"
proof (induction wr rd st rule: readResponse.induct)
  case (1 wr rd st)
  then obtain r rd1 where r: "Record_Read rd = Inr (r, rd1)"
    by (cases "Record_Read rd") (auto simp: readResponse.simps [of wr rd])
  then have shorter: "length (rdata rd1) + 8 \<le> length (rdata rd)" by (rule Record_Read_shorter)
  show ?case
  proof (cases "readResponse_record wr (RecType r) (RecBody r) st")
    case (Continue st1)
    then show ?thesis using 1 r shorter by (fastforce simp: readResponse.simps [of wr rd])
  next
    case (Finished st1)
    then have "headerRead st1"
      by (auto elim!: readResponse_record.elims
          simp: end_request_error_def write_stdout_def split: if_splits option.splits sum.splits prod.splits
            parse_result.splits)
    then show ?thesis using "1.prems" Finished r shorter by (auto simp: readResponse.simps [of wr rd])
  next
    case (Failed e st1)
    then show ?thesis using 1 r by (simp add: readResponse.simps [of wr rd])
  qed
qed

section \<open>Properties\<close>

text \<open>C24: For a connection that takes all the data, \<open>writeRequest\<close> succeeds, and the peer that
  reads the bytes sent gets exactly the records the protocol wants for the role: the
  beginning of the request, the parameter stream carrying the encoded parameters, and the
  standard input and data streams the role has, each ended by an empty record.\<close>

theorem write_request_records:
  assumes "NameValuePairs_Encode params = Inr paramData" "room w = None"
    "pred_option clean_stream stdin" "pred_option clean_stream data"
  shows "\<exists>w' bs. (writeRequest role params stdin data i w :: io_error conn_error option \<times> stream option \<times> stream option \<times> writer) =
      (None, map_option (\<lambda>_. []) stdin, map_option (\<lambda>_. []) data, w') \<and>
    sent w' = sent w @ bs \<and>
    read_all \<lparr>rdata = bs, rerr = EOF\<rparr> = (request_records role paramData stdin data i, CannotReadHeader EOF) \<and>
    concat (map fst (bytes_reader paramData)) = paramData"
proof -
  obtain w' where w': "(writeRequest role params stdin data i w :: io_error conn_error option \<times> stream option \<times> stream option \<times> writer) =
      (None, map_option (\<lambda>_. []) stdin, map_option (\<lambda>_. []) data, w')"
    "delivers w w' (request_records role paramData stdin data i)"
    using writeRequest_delivers [OF assms(1,3,4,2), of role i] by blast
  have "read_all \<lparr>rdata = [], rerr = EOF\<rparr> = ([], CannotReadHeader EOF)"
    by (subst read_all.simps) (simp add: Record_Read_def ReadFull_def)
  moreover obtain bs where bs: "sent w' = sent w @ bs"
    "\<And>rest e. read_all \<lparr>rdata = bs @ rest, rerr = e\<rparr> = (case read_all \<lparr>rdata = rest, rerr = e\<rparr> of
      (rs', err) \<Rightarrow> (request_records role paramData stdin data i @ rs', err))"
    using w'(2) unfolding delivers_def by blast
  ultimately have "read_all \<lparr>rdata = bs, rerr = EOF\<rparr> =
      (request_records role paramData stdin data i, CannotReadHeader EOF)"
    using bs(2) [of "[]" EOF] by simp
  with w'(1) bs(1) show ?thesis using bytes_reader_content by blast
qed

theorem write_request_records_witness:
  "\<exists>w' bs. (writeRequest RoleResponder [\<lparr>Name = ''A'', Value = ''b''\<rparr>] (Some [([104, 105], None)]) None 1
      \<lparr>sent = [], room = None, werr = EOF\<rparr> :: io_error conn_error option \<times> stream option \<times> stream option \<times> writer) =
      (None, Some [], None, w') \<and>
    sent w' = [] @ bs \<and>
    read_all \<lparr>rdata = bs, rerr = EOF\<rparr> =
      (request_records RoleResponder [1, 1, 65, 98] (Some [([104, 105], None)]) None 1, CannotReadHeader EOF)"
proof -
  have enc: "NameValuePairs_Encode [\<lparr>Name = ''A'', Value = ''b''\<rparr>] = Inr [1, 1, 65, 98]"
    by (simp add: NameValuePair_Encode_def writeLength_def MaxUint32_def bytes_of_def)
  have clean: "pred_option clean_stream (Some [([104, 105], None)])"
    "pred_option clean_stream (None :: stream option)"
    by (simp_all add: clean_stream_def MaxUint16_def)
  show ?thesis
    using write_request_records [OF enc _ clean, of "\<lparr>sent = [], room = None, werr = EOF\<rparr>" RoleResponder 1]
    by auto
qed

text \<open>C25: When the header of the response is complete in the first output record, the request
  ends with the parsed header, the body written is exactly what follows the header in all
  the standard output records, and the error output is collected apart, however the two
  kinds of records are interleaved.\<close>

theorem response_body_copied:
  assumes "Header_Parse empty_Header d = Inr (HeaderEnd body, h)" "length d \<le> MaxUint16"
    "list_all output_fits os"
  shows "\<exists>st'. readResponse Buffer_Write \<lparr>rdata = frame (output_record i (Stdout d)) @
        output_frames i os @ frame (end_record i 0 ProtocolStatusRequestComplete) @ rest, rerr = e\<rparr>
        (start_response vs buf err) = (Inr h, st', \<lparr>rdata = rest, rerr = e\<rparr>) \<and>
      res_stdout st' = buf @ body @ stdout_of os \<and> res_stderr st' = err @ stderr_of os"
  using buffer.response_copied [OF assms(1,2,3) TrueI] by blast

theorem response_body_copied_witness:
  "\<exists>st'. readResponse Buffer_Write \<lparr>rdata = frame (output_record 1 (Stdout [65, 58, 66, 10, 10, 104])) @
        output_frames 1 [Stderr [33], Stdout [105]] @
        frame (end_record 1 0 ProtocolStatusRequestComplete) @ [7], rerr = EOF\<rparr>
        (start_response [] [] []) =
          (Inr \<lparr>Fields = [\<lparr>FieldName = ''A'', FieldValue = ''B''\<rparr>], hdata = []\<rparr>, st', \<lparr>rdata = [7], rerr = EOF\<rparr>) \<and>
      res_stdout st' = [104, 105] \<and> res_stderr st' = [33]"
proof -
  have hdr: "Header_Parse empty_Header [65, 58, 66, 10, 10, 104] =
      Inr (HeaderEnd [104], \<lparr>Fields = [\<lparr>FieldName = ''A'', FieldValue = ''B''\<rparr>], hdata = []\<rparr>)"
    by code_simp
  show ?thesis
    using response_body_copied [OF hdr, of "[Stderr [33], Stdout [105]]" 1 "[7]" EOF "[]" "[]" "[]"]
    by (simp add: MaxUint16_def)
qed

text \<open>When the header spans two output records, the bytes of the first record, which are
  header bytes only, are copied to the response body in front of the true body.\<close>

theorem split_header_leaks:
  assumes "Header_Parse empty_Header d1 = Inr (NeedMore, h1)" "Header_Parse h1 d2 = Inr (HeaderEnd body, h)"
    "length d1 \<le> MaxUint16" "length d2 \<le> MaxUint16"
  shows "\<exists>st'. readResponse Buffer_Write \<lparr>rdata = output_frames i [Stdout d1, Stdout d2] @
        frame (end_record i 0 ProtocolStatusRequestComplete) @ rest, rerr = e\<rparr>
        (start_response vs buf err) = (Inr h, st', \<lparr>rdata = rest, rerr = e\<rparr>) \<and>
      res_stdout st' = buf @ d1 @ body"
  using assms
  by (simp add: readResponse_stdout readResponse_end start_response_def write_stdout_def
      Buffer_Write_def end_request_error_def del: output_record.simps)

theorem split_header_leaks_witness:
  "\<exists>st'. readResponse Buffer_Write \<lparr>rdata = output_frames 1 [Stdout [65, 58], Stdout [66, 10, 10, 104]] @
        frame (end_record 1 0 ProtocolStatusRequestComplete) @ [], rerr = EOF\<rparr>
        (start_response [] [] []) =
          (Inr \<lparr>Fields = [\<lparr>FieldName = ''A'', FieldValue = ''B''\<rparr>], hdata = []\<rparr>, st', \<lparr>rdata = [], rerr = EOF\<rparr>) \<and>
      res_stdout st' = [65, 58, 104]"
proof -
  have p1: "Header_Parse empty_Header [65, 58] = Inr (NeedMore, \<lparr>Fields = [], hdata = [65, 58]\<rparr>)"
    by code_simp
  have p2: "Header_Parse \<lparr>Fields = [], hdata = [65, 58]\<rparr> [66, 10, 10, 104] =
      Inr (HeaderEnd [104], \<lparr>Fields = [\<lparr>FieldName = ''A'', FieldValue = ''B''\<rparr>], hdata = []\<rparr>)"
    by code_simp
  show ?thesis
    using split_header_leaks [OF p1 p2, of 1 "[]" EOF "[]" "[]" "[]"] by (simp add: MaxUint16_def)
qed

text \<open>The response is read successfully only after a complete header: whatever the server
  sends, a successful result is the header parsed so far, the header is complete, and the
  loop has consumed at least one record.\<close>

theorem response_needs_header:
  assumes "readResponse wr rd (start_response vs w err) = (Inr h, st', rd')"
  shows "headerRead st' \<and> h = res_header st' \<and> length (rdata rd') + 8 \<le> length (rdata rd)"
  using readResponse_success [OF assms] .

theorem response_needs_header_witness:
  "\<exists>st' rd'. readResponse Buffer_Write \<lparr>rdata = output_frames 1 [Stdout [65, 58, 66, 10, 10, 104]] @
        frame (end_record 1 0 ProtocolStatusRequestComplete), rerr = EOF\<rparr> (start_response [] [] []) =
      (Inr \<lparr>Fields = [\<lparr>FieldName = ''A'', FieldValue = ''B''\<rparr>], hdata = []\<rparr>, st', rd') \<and> headerRead st'"
proof -
  have hdr: "Header_Parse empty_Header [65, 58, 66, 10, 10, 104] =
      Inr (HeaderEnd [104], \<lparr>Fields = [\<lparr>FieldName = ''A'', FieldValue = ''B''\<rparr>], hdata = []\<rparr>)"
    by code_simp
  obtain st' where st': "readResponse Buffer_Write \<lparr>rdata = output_frames 1 [Stdout [65, 58, 66, 10, 10, 104]] @
        frame (end_record 1 0 ProtocolStatusRequestComplete), rerr = EOF\<rparr> (start_response [] [] []) =
      (Inr \<lparr>Fields = [\<lparr>FieldName = ''A'', FieldValue = ''B''\<rparr>], hdata = []\<rparr>, st', \<lparr>rdata = [], rerr = EOF\<rparr>)"
    using buffer.response_copied [OF hdr, where os = "[]" and w = "[]" and i = 1 and rest = "[]"
        and e = EOF and vs = "[]" and err = "[]"] by (auto simp: MaxUint16_def)
  then show ?thesis using response_needs_header [OF st'] by blast
qed

text \<open>The outcome of a request whose end has been received: an overloaded server and a
  server that cannot multiplex are reported as overloaded, an unknown role and a failed
  application as errors of their own, and the end without a header is an error too; only
  a complete request with application status 0 succeeds.\<close>

theorem end_request_outcome:
  "fst (readResponse wr \<lparr>rdata = frame (end_record i app ps) @ rest, rerr = e\<rparr> st) =
    (case ps of
       ProtocolStatusCannotMultiplexConnection \<Rightarrow> Inl ErrServerOverloaded
     | ProtocolStatusOverloaded \<Rightarrow> Inl ErrServerOverloaded
     | ProtocolStatusUnknownRole \<Rightarrow> Inl UnknownRequestRole
     | ProtocolStatusRequestComplete \<Rightarrow>
         if app \<noteq> 0 then Inl (AppError app (string_of (res_stderr st)))
         else if headerRead st then Inr (res_header st)
         else Inl EndedWithoutResponse)"
  by (cases ps) (simp_all add: readResponse_end end_request_error_def)

end
