(* ===== verification/Ownership.thy ===== *)
theory Ownership
  imports "HOL-Library.Multiset"
begin

text \<open>
  What a pool of connections promises, without its data structures: a connection is idle or is
  owned by one goroutine, which may give it back, pass it on or drop it. The two pools of the
  program (\<open>src/pkg/fastcgi/client.go\<close>, \<open>src/pkg/httputils/client.go\<close>) implement this specification;
  the locale \<open>owning_pool\<close> says what that means and what follows from it.
\<close>

section \<open>The specification\<close>

text \<open>The idle connections, the connection of each goroutine, and the number of the next new connection.\<close>

record own_state =
  own_idle :: "nat multiset"
  own_by :: "nat \<Rightarrow> nat option"
  own_next :: nat

definition own_start :: own_state where
  "own_start = \<lparr>own_idle = {#}, own_by = \<lambda>_. None, own_next = 0\<rparr>"

inductive own_step :: "own_state \<Rightarrow> own_state \<Rightarrow> bool" where
  own_takes: "\<lbrakk>own_by s t = None; i \<in># own_idle s\<rbrakk> \<Longrightarrow>
    own_step s (s\<lparr>own_idle := own_idle s - {#i#}, own_by := (own_by s)(t := Some i)\<rparr>)"
| own_creates: "own_by s t = None \<Longrightarrow>
    own_step s (s\<lparr>own_by := (own_by s)(t := Some (own_next s)), own_next := Suc (own_next s)\<rparr>)"
| own_returns: "own_by s t = Some i \<Longrightarrow>
    own_step s (s\<lparr>own_idle := add_mset i (own_idle s), own_by := (own_by s)(t := None)\<rparr>)"
| own_passes: "\<lbrakk>own_by s t = Some i; own_by s u = None\<rbrakk> \<Longrightarrow>
    own_step s (s\<lparr>own_by := (own_by s)(t := None, u := Some i)\<rparr>)"
| own_drops: "own_by s t = Some i \<Longrightarrow> own_step s (s\<lparr>own_by := (own_by s)(t := None)\<rparr>)"
| own_discards: "idle \<subseteq># own_idle s \<Longrightarrow> own_step s (s\<lparr>own_idle := idle\<rparr>)"

definition own_ok :: "own_state \<Rightarrow> bool" where
  "own_ok s \<longleftrightarrow>
     (\<forall>t u i. own_by s t = Some i \<and> own_by s u = Some i \<longrightarrow> t = u) \<and>
     (\<forall>t i. own_by s t = Some i \<longrightarrow> i \<notin># own_idle s \<and> i < own_next s) \<and>
     (\<forall>i. i \<in># own_idle s \<longrightarrow> i < own_next s \<and> count (own_idle s) i = 1)"

lemma own_ok_start: "own_ok own_start"
  by (simp add: own_ok_def own_start_def)

lemma own_okD:
  assumes "own_ok s" "own_by s t = Some i"
  shows "i \<notin># own_idle s" "i < own_next s" "own_by s u = Some i \<longleftrightarrow> u = t"
  using assms unfolding own_ok_def by blast+

lemma own_ok_idle: "own_ok s \<Longrightarrow> i \<in># own_idle s \<Longrightarrow> i < own_next s \<and> count (own_idle s) i = 1"
  unfolding own_ok_def by blast

lemma own_ok_discard: "own_ok s \<Longrightarrow> idle \<subseteq># own_idle s \<Longrightarrow> own_ok (s\<lparr>own_idle := idle\<rparr>)"
proof -
  assume ok: "own_ok s" and le: "idle \<subseteq># own_idle s"
  have "count idle i = 1" if "i \<in># idle" for i
  proof -
    have "count idle i \<le> 1"
      using mset_subset_eq_count [OF le, of i] own_ok_idle [OF ok mset_subset_eqD [OF le that]] by simp
    then show ?thesis using that count_greater_zero_iff [of idle i] by linarith
  qed
  moreover have "i \<notin># idle" if "own_by s t = Some i" for t i
    using own_okD(1) [OF ok that] mset_subset_eqD [OF le] by blast
  ultimately show ?thesis using ok mset_subset_eqD [OF le] unfolding own_ok_def by simp
qed

lemma own_step_ok: "own_step s s' \<Longrightarrow> own_ok s \<Longrightarrow> own_ok s'"
proof (induction rule: own_step.induct)
  case (own_takes s t i)
  have "i \<notin># own_idle s - {#i#}" using own_ok_idle [OF own_takes(3,2)] by (simp add: count_eq_zero_iff [symmetric])
  moreover have "own_ok (s\<lparr>own_idle := own_idle s - {#i#}\<rparr>)" by (rule own_ok_discard [OF own_takes(3)]) simp
  moreover have "own_by s u \<noteq> Some i" for u using own_okD(1) [OF own_takes(3), of u i] own_takes(2) by blast
  ultimately show ?case using own_ok_idle [OF own_takes(3,2)] unfolding own_ok_def by (auto split: if_splits)
next
  case (own_creates s t)
  then show ?case unfolding own_ok_def by (fastforce split: if_splits)
next
  case (own_returns s t i)
  note o = own_okD [OF own_returns(2,1)]
  show ?case using own_returns(2) o unfolding own_ok_def by (auto simp: not_in_iff split: if_splits)
next
  case (own_passes s t i u)
  note o = own_okD [OF own_passes(3,1)]
  show ?case using own_passes(3) o unfolding own_ok_def by (auto split: if_splits)
next
  case (own_drops s t i)
  then show ?case unfolding own_ok_def by (auto split: if_splits)
next
  case (own_discards idle s)
  then show ?case using own_ok_discard by blast
qed

lemma own_steps_ok: "own_step\<^sup>*\<^sup>* s s' \<Longrightarrow> own_ok s \<Longrightarrow> own_ok s'"
  by (induction rule: rtranclp_induct) (auto intro: own_step_ok)

text \<open>The steps by what they do to the three parts, for the proofs that an operation is one of them.\<close>

lemma own_takesI:
  assumes "own_by a t = None" "own_idle a = add_mset i (own_idle b)" "own_by b = (own_by a)(t := Some i)"
    "own_next b = own_next a"
  shows "own_step\<^sup>*\<^sup>* a b"
proof -
  have "own_step a (a\<lparr>own_idle := own_idle a - {#i#}, own_by := (own_by a)(t := Some i)\<rparr>)"
    using assms(1,2) by (intro own_takes) simp_all
  moreover have "a\<lparr>own_idle := own_idle a - {#i#}, own_by := (own_by a)(t := Some i)\<rparr> = b" using assms by simp
  ultimately show ?thesis by simp
qed

lemma own_createsI:
  assumes "own_by a t = None" "own_idle b = own_idle a" "own_by b = (own_by a)(t := Some (own_next a))"
    "own_next b = Suc (own_next a)"
  shows "own_step\<^sup>*\<^sup>* a b"
proof -
  have "a\<lparr>own_by := (own_by a)(t := Some (own_next a)), own_next := Suc (own_next a)\<rparr> = b" using assms by simp
  then show ?thesis using own_creates [OF assms(1)] by simp
qed

lemma own_returnsI:
  assumes "own_by a t = Some i" "own_idle b = add_mset i (own_idle a)" "own_by b = (own_by a)(t := None)"
    "own_next b = own_next a"
  shows "own_step\<^sup>*\<^sup>* a b"
proof -
  have "a\<lparr>own_idle := add_mset i (own_idle a), own_by := (own_by a)(t := None)\<rparr> = b" using assms by simp
  then show ?thesis using own_returns [OF assms(1)] by simp
qed

lemma own_passesI:
  assumes "own_by a t = Some i" "own_by a u = None" "own_idle b = own_idle a"
    "own_by b = (own_by a)(t := None, u := Some i)" "own_next b = own_next a"
  shows "own_step\<^sup>*\<^sup>* a b"
proof -
  have "a\<lparr>own_by := (own_by a)(t := None, u := Some i)\<rparr> = b" using assms by simp
  then show ?thesis using own_passes [OF assms(1,2)] by simp
qed

text \<open>A goroutine keeps what it has or drops it; it may have nothing.\<close>

lemma own_keepsI:
  assumes "own_idle b = own_idle a" "own_by b = (own_by a)(t := x)" "x = own_by a t \<or> x = None"
    "own_next b = own_next a"
  shows "own_step\<^sup>*\<^sup>* a b"
proof (cases "x = own_by a t")
  case True
  then have "a = b" using assms by simp
  then show ?thesis by simp
next
  case False
  then obtain i where "own_by a t = Some i" using assms(3) by (cases "own_by a t") simp_all
  moreover have "a\<lparr>own_by := (own_by a)(t := None)\<rparr> = b" using False assms by simp
  ultimately show ?thesis using own_drops by fastforce
qed

lemma own_discardsI:
  assumes "own_idle b \<subseteq># own_idle a" "own_by b = own_by a" "own_next b = own_next a"
  shows "own_step\<^sup>*\<^sup>* a b"
proof -
  have "a\<lparr>own_idle := own_idle b\<rparr> = b" using assms by simp
  then show ?thesis using own_discards [OF assms(1)] by simp
qed

section \<open>Implementations\<close>

locale owning_pool =
  fixes step :: "'s \<Rightarrow> 's \<Rightarrow> bool" and abstraction :: "'s \<Rightarrow> own_state"
  assumes simulates: "\<lbrakk>step s s'; own_ok (abstraction s)\<rbrakk> \<Longrightarrow> own_step\<^sup>*\<^sup>* (abstraction s) (abstraction s')"
begin

lemma step_ok: "step s s' \<Longrightarrow> own_ok (abstraction s) \<Longrightarrow> own_ok (abstraction s')"
  using simulates own_steps_ok by blast

lemma reachable:
  assumes "step\<^sup>*\<^sup>* s0 s" "own_ok (abstraction s0)"
  shows "own_step\<^sup>*\<^sup>* (abstraction s0) (abstraction s) \<and> own_ok (abstraction s)"
  using assms(1)
proof (induction rule: rtranclp_induct)
  case base
  then show ?case using assms(2) by simp
next
  case (step s s')
  then show ?case using simulates [OF step(2)] step_ok [OF step(2)] by (meson rtranclp_trans)
qed

lemma refines:
  assumes "step\<^sup>*\<^sup>* s0 s" "abstraction s0 = own_start"
  shows "own_step\<^sup>*\<^sup>* own_start (abstraction s)"
  using reachable [OF assms(1)] assms(2) own_ok_start by simp

lemma exclusive:
  assumes "step\<^sup>*\<^sup>* s0 s" "own_ok (abstraction s0)" "own_by (abstraction s) t = Some i"
  shows "i \<notin># own_idle (abstraction s) \<and> (\<forall>u. own_by (abstraction s) u = Some i \<longleftrightarrow> u = t)"
  using own_okD [OF conjunct2 [OF reachable [OF assms(1,2)]] assms(3)] by blast

end

end
