(* ===== verification/FastCGI_Client.thy ===== *)
theory FastCGI_Client
  imports FastCGI_Connection Ownership
begin

text \<open>
  The connection pool of the FastCGI client, \<open>src/pkg/fastcgi/client.go\<close>. A connection is a
  number, its content is in the store of the client. The two maps of the pool are lists
  without duplicates. \<open>Close\<close> sets the maps to nil and closes the channel: from then on a
  write to a map and a send on the channel panic, which is the result \<open>None\<close> here.

  The operations are given by critical section: \<open>acquireConnection\<close> has two (looking for a
  connection, and registering the one that has been created), \<open>releaseConnection\<close> has two
  as well (forgetting the connection, and putting it back). The channel \<open>releasedConns\<close> has
  no buffer, and both its ends use it in a \<open>select\<close> with a default case: neither end ever
  waits for the other, so no connection ever goes through it, and a receive succeeds only
  once the channel is closed, with a nil connection.
\<close>

section \<open>The pool\<close>

record Client =
  MaxConnections :: "int option"
  usedConns :: "nat list"
  idleConns :: "nat list"
  poolClosed :: bool
  store :: "nat \<Rightarrow> Connection"
  nextConn :: nat

definition no_conn :: Connection where
  "no_conn = \<lparr>conn_in = \<lparr>rdata = [], rerr = EOF\<rparr>, conn_out = \<lparr>sent = [], room = Some 0, werr = ErrClosed\<rparr>,
     conn_open = False, conn_values = []\<rparr>"

definition NewClient :: "int option \<Rightarrow> Client" where
  "NewClient maxConns = \<lparr>MaxConnections = maxConns, usedConns = [], idleConns = [],
     poolClosed = False, store = (\<lambda>_. no_conn), nextConn = 0\<rparr>"

definition update_conn :: "nat \<Rightarrow> Connection \<Rightarrow> Client \<Rightarrow> Client" where
  "update_conn i conn c = c\<lparr>store := (store c)(i := conn)\<rparr>"

fun close_conns :: "nat list \<Rightarrow> Client \<Rightarrow> Client" where
  "close_conns [] c = c"
| "close_conns (i # is) c = close_conns is (update_conn i (Connection_Close (store c i)) c)"

definition Client_Close :: "Client \<Rightarrow> Client option" where
  "Client_Close c =
     (if poolClosed c then None
      else Some ((close_conns (idleConns c) (close_conns (usedConns c) c))
        \<lparr>usedConns := [], idleConns := [], poolClosed := True\<rparr>))"

datatype acquired = Acquired nat | AcquiredNil | LimitReached | MustDial

text \<open>
  The first critical section of \<open>acquireConnection\<close>. Go iterates over a map in any order:
  \<open>pick\<close> chooses the idle connection. When the channel is closed and the context is done,
  the \<open>select\<close> takes either case: \<open>ctxFirst\<close> says that it takes the context's.
\<close>

definition acquire_locked :: "nat \<Rightarrow> bool \<Rightarrow> Client \<Rightarrow> acquired \<times> Client" where
  "acquire_locked pick ctxFirst c =
     (if idleConns c \<noteq> [] then
        let conn = idleConns c ! (pick mod length (idleConns c))
        in (Acquired conn, c\<lparr>idleConns := removeAll conn (idleConns c),
                             usedConns := List.insert conn (usedConns c)\<rparr>)
      else if poolClosed c \<and> \<not> ctxFirst then (AcquiredNil, c)
      else case MaxConnections c of
             Some maxConns \<Rightarrow>
               if int (length (usedConns c) + length (idleConns c)) > maxConns
               then (LimitReached, c) else (MustDial, c)
           | None \<Rightarrow> (MustDial, c))"

text \<open>The second one, after \<open>NewConnection\<close> has returned \<open>conn\<close>.\<close>

definition acquire_register :: "Connection \<Rightarrow> Client \<Rightarrow> (nat \<times> Client) option" where
  "acquire_register conn c =
     (if poolClosed c then None
      else let i = nextConn c in
        Some (i, (update_conn i conn c)\<lparr>usedConns := List.insert i (usedConns c), nextConn := Suc i\<rparr>))"

definition release_delete :: "nat \<Rightarrow> Client \<Rightarrow> Client" where
  "release_delete i c = c\<lparr>usedConns := removeAll i (usedConns c)\<rparr>"

definition release_put :: "nat \<Rightarrow> Client \<Rightarrow> Client option" where
  "release_put i c =
     (if poolClosed c then None
      else Some (c\<lparr>idleConns := List.insert i (idleConns c)\<rparr>))"

definition releaseConnection :: "nat \<Rightarrow> Client \<Rightarrow> Client option" where
  "releaseConnection i c =
     (let c = release_delete i c
      in if \<not> conn_open (store c i) then Some c else release_put i c)"

section \<open>Requests\<close>

datatype 'e client_error =
    ErrConnectionLimitReached
  | CannotCreateConnection "'e conn_error"
  | RequestError "'e conn_error"

text \<open>
  What the outside decides in one attempt: the order of the idle connections, the outcome
  of dialing, whether the context is done and how the \<open>select\<close> treats it.
\<close>

record attempt =
  at_pick :: nat
  at_ctxFirst :: bool
  at_dial :: "io_error + (reader \<times> writer)"
  at_ctx :: "ctx_error option"

definition acquireConnection ::
  "attempt \<Rightarrow> Client \<Rightarrow> (('e client_error + nat option) \<times> Client) option" where
  "acquireConnection a c = (case acquire_locked (at_pick a) (at_ctxFirst a) c of
     (Acquired i, c) \<Rightarrow> Some (Inr (Some i), c)
   | (AcquiredNil, c) \<Rightarrow> Some (Inr None, c)
   | (LimitReached, c) \<Rightarrow> Some (Inl ErrConnectionLimitReached, c)
   | (MustDial, c) \<Rightarrow> (case NewConnection (at_dial a) of
       Inl e \<Rightarrow> Some (Inl (CannotCreateConnection e), c)
     | Inr conn \<Rightarrow> (case acquire_register conn c of
         None \<Rightarrow> None
       | Some (i, c) \<Rightarrow> Some (Inr (Some i), c))))"

text \<open>A nil connection is dereferenced by the caller: \<open>FetchValues\<close> and \<open>sendRequest\<close> panic.\<close>

definition FetchValues ::
  "attempt \<Rightarrow> Client \<Rightarrow> (('e client_error + NameValuePair list) \<times> Client) option" where
  "FetchValues a c = (case acquireConnection a c of
     None \<Rightarrow> None
   | Some (Inl e, c) \<Rightarrow> Some (Inl e, c)
   | Some (Inr None, c) \<Rightarrow> None
   | Some (Inr (Some i), c) \<Rightarrow>
       map_option (\<lambda>c'. (Inr (conn_values (store c i)), c')) (releaseConnection i c))"

text \<open>The caller's readers, its destination and its buffer for the error output.\<close>

record 'w request =
  rq_stdin :: "stream option"
  rq_data :: "stream option"
  rq_stdout :: 'w
  rq_stderr :: bytes

definition exchange_of :: "'w request \<Rightarrow> Connection \<Rightarrow> 'w exchange" where
  "exchange_of rq conn = \<lparr>ex_stdin = rq_stdin rq, ex_data = rq_data rq, ex_stdout = rq_stdout rq,
     ex_stderr = rq_stderr rq, ex_conn = conn\<rparr>"

definition request_of :: "'w exchange \<Rightarrow> 'w request" where
  "request_of x = \<lparr>rq_stdin = ex_stdin x, rq_data = ex_data x, rq_stdout = ex_stdout x,
     rq_stderr = ex_stderr x\<rparr>"

definition Client_sendRequest ::
  "('w \<Rightarrow> bytes \<Rightarrow> 'e option \<times> 'w) \<Rightarrow> Role \<Rightarrow> NameValuePair list \<Rightarrow> attempt \<Rightarrow> 'w request \<Rightarrow> Client \<Rightarrow>
     (('e client_error + Header) \<times> 'w request \<times> Client) option" where
  "Client_sendRequest wr role params a rq c = (case acquireConnection a c of
     None \<Rightarrow> None
   | Some (Inl e, c) \<Rightarrow> Some (Inl e, rq, c)
   | Some (Inr None, c) \<Rightarrow> None
   | Some (Inr (Some i), c) \<Rightarrow>
       (case Connection_SendRequest (at_ctx a) wr role params (exchange_of rq (store c i)) of
          (Inl e, x) \<Rightarrow>
            map_option (\<lambda>c'. (Inl (RequestError e), request_of x, c'))
              (releaseConnection i (update_conn i (Connection_Close (ex_conn x)) c))
        | (Inr h, x) \<Rightarrow>
            map_option (\<lambda>c'. (Inr h, request_of x, c'))
              (releaseConnection i (update_conn i (ex_conn x) c))))"

text \<open>
  \<open>isConnectionClosedWriteError\<close>: the network error at the end of the chain of wrapped
  errors, if there is one. \<open>NewConnection\<close> does not wrap the error of the dialer. \<open>sub\<close> is
  the cause of an error of the destination.
\<close>

fun fcgi_cause :: "fcgi_error \<Rightarrow> io_error option" where
  "fcgi_cause (CannotEncodeBody e) = fcgi_cause e"
| "fcgi_cause (WriteError e) = Some e"
| "fcgi_cause (CannotReadHeader e) = Some e"
| "fcgi_cause (CannotReadBody e) = Some e"
| "fcgi_cause (CannotDecodeBody e) = fcgi_cause e"
| "fcgi_cause _ = None"

fun conn_cause :: "('e \<Rightarrow> io_error option) \<Rightarrow> 'e conn_error \<Rightarrow> io_error option" where
  "conn_cause sub (CannotWriteRecord e) = fcgi_cause e"
| "conn_cause sub (CannotReadStream e) = Some e"
| "conn_cause sub (CannotEncodeParameters e) = fcgi_cause e"
| "conn_cause sub (CannotReadRecord e) = fcgi_cause e"
| "conn_cause sub (CannotWriteStdout e) = sub e"
| "conn_cause sub _ = None"

fun isConnectionClosedWriteError :: "('e \<Rightarrow> io_error option) \<Rightarrow> 'e client_error \<Rightarrow> bool" where
  "isConnectionClosedWriteError sub ErrConnectionLimitReached = False"
| "isConnectionClosedWriteError sub (CannotCreateConnection e) = (conn_cause sub e = Some (SyscallError EPIPE))"
| "isConnectionClosedWriteError sub (RequestError e) = (conn_cause sub e = Some (SyscallError EPIPE))"

definition Client_SendRequest ::
  "('e \<Rightarrow> io_error option) \<Rightarrow> ('w \<Rightarrow> bytes \<Rightarrow> 'e option \<times> 'w) \<Rightarrow> Role \<Rightarrow> NameValuePair list \<Rightarrow>
     attempt \<Rightarrow> attempt \<Rightarrow> 'w request \<Rightarrow> Client \<Rightarrow>
     (('e client_error + Header) \<times> 'w request \<times> Client) option" where
  "Client_SendRequest sub wr role params a1 a2 rq c =
     (case Client_sendRequest wr role params a1 rq c of
        None \<Rightarrow> None
      | Some (Inl e, rq1, c1) \<Rightarrow>
          if isConnectionClosedWriteError sub e
          then Client_sendRequest wr role params a2 rq1 c1
          else Some (Inl e, rq1, c1)
      | Some (Inr h, rq1, c1) \<Rightarrow> Some (Inr h, rq1, c1))"

section \<open>A pool between requests\<close>

text \<open>Between two requests of a client used by one thread, every connection of the pool is
  idle and open.\<close>

definition pool_quiet :: "Client \<Rightarrow> bool" where
  "pool_quiet c \<longleftrightarrow> \<not> poolClosed c \<and> usedConns c = [] \<and> distinct (idleConns c) \<and>
     (\<forall>i \<in> set (idleConns c). i < nextConn c \<and> conn_open (store c i))"

text \<open>While the request runs, the connection \<open>i\<close> is in use.\<close>

definition pool_holds :: "nat \<Rightarrow> Client \<Rightarrow> bool" where
  "pool_holds i c \<longleftrightarrow> \<not> poolClosed c \<and> usedConns c = [i] \<and> i \<notin> set (idleConns c) \<and>
     i < nextConn c \<and> distinct (idleConns c) \<and>
     (\<forall>j \<in> set (idleConns c). j < nextConn c \<and> conn_open (store c j))"

lemma NewClient_quiet: "pool_quiet (NewClient m)"
  by (simp add: pool_quiet_def NewClient_def)

lemma acquireConnection_holds:
  assumes "pool_quiet c"
  shows "\<exists>r c'. acquireConnection a c = Some (r, c') \<and>
    ((\<exists>e. r = Inl e \<and> c' = c) \<or> (\<exists>i. r = Inr (Some i) \<and> pool_holds i c'))"
proof (cases "idleConns c = []")
  case True
  then show ?thesis using assms
    by (auto simp: acquireConnection_def acquire_locked_def acquire_register_def pool_quiet_def
        pool_holds_def update_conn_def Let_def split: option.splits sum.splits)
next
  case False
  let ?i = "idleConns c ! (at_pick a mod length (idleConns c))"
  have "?i \<in> set (idleConns c)" using False by simp
  then show ?thesis using assms False
    by (auto simp: acquireConnection_def acquire_locked_def pool_quiet_def pool_holds_def
        Let_def distinct_removeAll)
qed

lemma releaseConnection_quiet:
  assumes "pool_holds i c"
  shows "\<exists>c'. releaseConnection i (update_conn i conn c) = Some c' \<and> pool_quiet c' \<and>
    set (idleConns c') = (if conn_open conn then insert i (set (idleConns c)) else set (idleConns c))"
  using assms
  by (auto simp: releaseConnection_def release_delete_def release_put_def update_conn_def
      pool_holds_def pool_quiet_def Let_def)

lemma Client_sendRequest_quiet:
  fixes wr :: "'w \<Rightarrow> bytes \<Rightarrow> 'e option \<times> 'w"
  assumes "pool_quiet c"
  shows "\<exists>r rq' c'. Client_sendRequest wr role params a rq c = Some (r, rq', c') \<and> pool_quiet c'"
proof -
  consider (err) e where "acquireConnection a c = Some (Inl (e :: 'e client_error), c)"
    | (ok) i c1 where "acquireConnection a c = Some (Inr (Some i) :: 'e client_error + nat option, c1)"
        "pool_holds i c1"
    using acquireConnection_holds [OF assms, of a] by blast
  then show ?thesis
  proof cases
    case err
    then show ?thesis using assms by (simp add: Client_sendRequest_def)
  next
    case ok
    obtain r x where x: "Connection_SendRequest (at_ctx a) wr role params (exchange_of rq (store c1 i)) = (r, x)"
      by fastforce
    obtain c2 where "releaseConnection i (update_conn i (Connection_Close (ex_conn x)) c1) = Some c2"
      "pool_quiet c2" using releaseConnection_quiet [OF ok(2)] by blast
    moreover obtain c3 where "releaseConnection i (update_conn i (ex_conn x) c1) = Some c3"
      "pool_quiet c3" using releaseConnection_quiet [OF ok(2)] by blast
    ultimately show ?thesis using ok(1) x by (cases r) (simp_all add: Client_sendRequest_def)
  qed
qed

section \<open>Concurrent clients\<close>

text \<open>
  The threads that use a client, each between two critical sections: outside, waiting for
  \<open>NewConnection\<close>, holding a connection for a request, or about to put it back.
\<close>

datatype thread = Outside | Dialing | Holding nat | Releasing nat

record pool_state =
  pool :: Client
  threads :: "nat \<Rightarrow> thread"

definition set_thread :: "nat \<Rightarrow> thread \<Rightarrow> Client \<Rightarrow> pool_state \<Rightarrow> pool_state" where
  "set_thread t st c s = \<lparr>pool = c, threads = (threads s)(t := st)\<rparr>"

inductive pool_step :: "pool_state \<Rightarrow> pool_state \<Rightarrow> bool" where
  step_idle: "\<lbrakk>threads s t = Outside; acquire_locked pick ctxFirst (pool s) = (Acquired i, c)\<rbrakk> \<Longrightarrow>
    pool_step s (set_thread t (Holding i) c s)"
| step_dial: "\<lbrakk>threads s t = Outside; acquire_locked pick ctxFirst (pool s) = (MustDial, c)\<rbrakk> \<Longrightarrow>
    pool_step s (set_thread t Dialing c s)"
| step_connected: "\<lbrakk>threads s t = Dialing; acquire_register conn (pool s) = Some (i, c)\<rbrakk> \<Longrightarrow>
    pool_step s (set_thread t (Holding i) c s)"
| step_no_connection: "threads s t = Dialing \<Longrightarrow> pool_step s (set_thread t Outside (pool s) s)"
| step_use: "threads s t = Holding i \<Longrightarrow>
    pool_step s (set_thread t (Holding i) (update_conn i conn (pool s)) s)"
| step_forget: "\<lbrakk>threads s t = Holding i; c = release_delete i (pool s)\<rbrakk> \<Longrightarrow>
    pool_step s (set_thread t (if conn_open (store c i) then Releasing i else Outside) c s)"
| step_put: "\<lbrakk>threads s t = Releasing i; release_put i (pool s) = Some c\<rbrakk> \<Longrightarrow>
    pool_step s (set_thread t Outside c s)"
| step_close: "Client_Close (pool s) = Some c \<Longrightarrow> pool_step s (s\<lparr>pool := c\<rparr>)"

definition pool_start :: "int option \<Rightarrow> pool_state" where
  "pool_start m = \<lparr>pool = NewClient m, threads = (\<lambda>_. Outside)\<rparr>"

definition has_conn :: "pool_state \<Rightarrow> nat \<Rightarrow> nat \<Rightarrow> bool" where
  "has_conn s t i \<longleftrightarrow> threads s t = Holding i \<or> threads s t = Releasing i"

definition holding :: "(nat \<Rightarrow> thread) \<Rightarrow> nat set" where
  "holding th = {i. \<exists>t. th t = Holding i}"

fun conn_of :: "thread \<Rightarrow> nat option" where
  "conn_of (Holding i) = Some i"
| "conn_of (Releasing i) = Some i"
| "conn_of _ = None"

text \<open>The pool implements the specification of ownership. A map has its keys once.\<close>

definition pool_abs :: "pool_state \<Rightarrow> own_state" where
  "pool_abs s = \<lparr>own_idle = mset_set (set (idleConns (pool s))), own_by = conn_of \<circ> threads s,
     own_next = nextConn (pool s)\<rparr>"

definition pool_inv :: "pool_state \<Rightarrow> bool" where
  "pool_inv s \<longleftrightarrow> own_ok (pool_abs s) \<and>
     (\<not> poolClosed (pool s) \<longrightarrow> set (usedConns (pool s)) = holding (threads s))"

lemma pool_abs_simps [simp]:
  "own_idle (pool_abs s) = mset_set (set (idleConns (pool s)))" "own_by (pool_abs s) = conn_of \<circ> threads s"
  "own_next (pool_abs s) = nextConn (pool s)"
  by (simp_all add: pool_abs_def)

lemma set_thread_simps [simp]:
  "pool (set_thread t st c s) = c" "threads (set_thread t st c s) = (threads s)(t := st)"
  by (simp_all add: set_thread_def)

lemma has_conn_of: "has_conn s t i \<longleftrightarrow> conn_of (threads s t) = Some i"
  by (cases "threads s t") (auto simp: has_conn_def)

lemma acquire_lockedD:
  assumes "acquire_locked pick ctxFirst c = (r, c')"
  shows "r = Acquired i \<Longrightarrow> i \<in> set (idleConns c) \<and>
      c' = c\<lparr>idleConns := removeAll i (idleConns c), usedConns := List.insert i (usedConns c)\<rparr>"
    "r = MustDial \<Longrightarrow> c' = c"
  using assms by (auto simp: acquire_locked_def Let_def split: if_splits option.splits)

lemma acquire_registerD:
  assumes "acquire_register conn c = Some (i, c')"
  shows "i = nextConn c \<and> \<not> poolClosed c \<and>
    c' = (update_conn i conn c)\<lparr>usedConns := List.insert i (usedConns c), nextConn := Suc i\<rparr>"
  using assms by (auto simp: acquire_register_def Let_def split: if_splits)

lemma update_conn_simps [simp]:
  "usedConns (update_conn i conn c) = usedConns c" "idleConns (update_conn i conn c) = idleConns c"
  "nextConn (update_conn i conn c) = nextConn c" "poolClosed (update_conn i conn c) = poolClosed c"
  by (simp_all add: update_conn_def)

lemma holding_take:
  "(\<And>j. th t \<noteq> Holding j) \<Longrightarrow> holding (th(t := Holding i)) = insert i (holding th)"
  by (force simp: holding_def)

lemma holding_none:
  assumes "\<And>j. th t \<noteq> Holding j" "\<And>j. st \<noteq> Holding j"
  shows "holding (th(t := st)) = holding th"
proof -
  have "(th(t := st)) u = Holding j \<longleftrightarrow> th u = Holding j" for u j using assms by simp
  then show ?thesis unfolding holding_def by presburger
qed

lemma holding_drop:
  assumes "th t = Holding i" "\<And>j. st \<noteq> Holding j" "\<And>t'. th t' = Holding i \<Longrightarrow> t' = t"
  shows "holding (th(t := st)) = holding th - {i}"
proof -
  have "(\<exists>u. (th(t := st)) u = Holding j) \<longleftrightarrow> (\<exists>u. th u = Holding j) \<and> j \<noteq> i" for j
    using assms by (metis fun_upd_other fun_upd_same thread.inject(1))
  then show ?thesis unfolding holding_def by blast
qed

lemma close_conns_simps [simp]:
  "usedConns (close_conns is c) = usedConns c" "idleConns (close_conns is c) = idleConns c"
  "nextConn (close_conns is c) = nextConn c" "poolClosed (close_conns is c) = poolClosed c"
  by (induction "is" arbitrary: c) auto

lemma pool_inv_start: "pool_inv (pool_start m)"
  by (simp add: pool_inv_def own_ok_def pool_start_def NewClient_def holding_def)

lemma pool_keeps:
  assumes "conn_of st = conn_of (threads s t) \<or> conn_of st = None"
    "idleConns c = idleConns (pool s)" "nextConn c = nextConn (pool s)"
  shows "own_step\<^sup>*\<^sup>* (pool_abs s) (pool_abs (set_thread t st c s))"
  using assms by (intro own_keepsI [where t = t and x = "conn_of st"]) (auto simp: fun_upd_comp)

text \<open>A connection that is put back is not idle yet: the pool may rely on the specification here.\<close>

lemma pool_step_owns: "pool_step s s' \<Longrightarrow> own_ok (pool_abs s) \<Longrightarrow> own_step\<^sup>*\<^sup>* (pool_abs s) (pool_abs s')"
proof (induction rule: pool_step.induct)
  case (step_idle s t pick ctxFirst i c)
  note c = acquire_lockedD(1) [OF step_idle(2) refl]
  have "mset_set (set (idleConns (pool s))) = add_mset i (mset_set (set (idleConns (pool s)) - {i}))"
    using c by (intro mset_set.remove) simp_all
  then show ?case using step_idle c by (intro own_takesI [where t = t and i = i]) (auto simp: fun_upd_comp)
next
  case (step_connected s t conn i c)
  then show ?case using acquire_registerD [OF step_connected(2)]
    by (intro own_createsI [where t = t]) (auto simp: fun_upd_comp)
next
  case (step_put s t i c)
  have "i \<notin> set (idleConns (pool s))" using own_okD(1) [OF step_put(3), of t i] step_put(1) by simp
  then show ?case using step_put
    by (intro own_returnsI [where t = t and i = i]) (auto simp: release_put_def fun_upd_comp split: if_splits)
next
  case (step_close s c)
  then show ?case by (intro own_discardsI) (auto simp: Client_Close_def split: if_splits)
next
  case (step_dial s t pick ctxFirst c)
  then show ?case using acquire_lockedD(2) [OF step_dial(2) refl] by (simp add: pool_keeps)
qed (auto intro!: pool_keeps simp: release_delete_def)

interpretation fastcgi_pool: owning_pool pool_step pool_abs
  by unfold_locales (rule pool_step_owns)

lemma pool_step_used:
  assumes "pool_step s s'" "pool_inv s" "\<not> poolClosed (pool s')"
  shows "set (usedConns (pool s')) = holding (threads s')"
  using assms
  supply fun_upd_apply [simp del]
proof (induction rule: pool_step.induct)
  case (step_idle s t pick ctxFirst i c)
  then have "holding ((threads s)(t := Holding i)) = insert i (holding (threads s))" by (intro holding_take) simp
  then show ?case using step_idle(3,4) acquire_lockedD(1) [OF step_idle(2) refl]
    by (simp add: pool_inv_def)
next
  case (step_dial s t pick ctxFirst c)
  then have "holding ((threads s)(t := Dialing)) = holding (threads s)" by (intro holding_none) simp_all
  then show ?case using step_dial(3,4) acquire_lockedD(2) [OF step_dial(2) refl] by (simp add: pool_inv_def)
next
  case (step_connected s t conn i c)
  then have "holding ((threads s)(t := Holding i)) = insert i (holding (threads s))" by (intro holding_take) simp
  then show ?case using step_connected(3,4) acquire_registerD [OF step_connected(2)] by (simp add: pool_inv_def)
next
  case (step_no_connection s t)
  then have "holding ((threads s)(t := Outside)) = holding (threads s)" by (intro holding_none) simp_all
  then show ?case using step_no_connection(2,3) by (simp add: pool_inv_def)
next
  case (step_use s t i conn)
  then have "(threads s)(t := Holding i) = threads s" by (simp add: fun_upd_idem)
  then show ?case using step_use(2,3) by (simp add: pool_inv_def)
next
  case (step_forget s t i c)
  have only: "u = t" if "threads s u = Holding i" for u
    using own_okD(3) [of "pool_abs s" t i u] step_forget(1,3) that by (simp add: pool_inv_def)
  have "holding ((threads s)(t := if conn_open (store c i) then Releasing i else Outside)) = holding (threads s) - {i}"
  proof (rule holding_drop)
    show "threads s t = Holding i" by (rule step_forget(1))
  qed (simp, rule only)
  moreover have "set (usedConns c) = set (usedConns (pool s)) - {i}" "poolClosed c = poolClosed (pool s)"
    unfolding step_forget(2) release_delete_def by simp_all
  ultimately show ?case using step_forget(3,4) by (simp only: pool_inv_def set_thread_simps simp_thms)
next
  case (step_put s t i c)
  then have "holding ((threads s)(t := Outside)) = holding (threads s)" by (intro holding_none) simp_all
  then show ?case using step_put(2,3,4) by (auto simp: pool_inv_def release_put_def split: if_splits)
next
  case (step_close s c)
  then show ?case by (auto simp: Client_Close_def split: if_splits)
qed

lemma pool_step_inv: "pool_step s s' \<Longrightarrow> pool_inv s \<Longrightarrow> pool_inv s'"
  using pool_step_used fastcgi_pool.step_ok unfolding pool_inv_def by blast

lemma pool_reachable_inv: "pool_step\<^sup>*\<^sup>* (pool_start m) s \<Longrightarrow> pool_inv s"
  by (induction rule: rtranclp_induct) (auto intro: pool_inv_start pool_step_inv)

section \<open>Properties\<close>

text \<open>C27: A connection of the pool serves one request at a time: in every state that any number of
  threads acquiring, using and releasing connections can reach, also while the client is
  being closed, no connection is held by two threads and none that is held is offered as idle.\<close>

theorem conn_exclusive:
  assumes "pool_step\<^sup>*\<^sup>* (pool_start m) s" "has_conn s t i"
  shows "i \<notin> set (idleConns (pool s)) \<and> (\<forall>t'. has_conn s t' i \<longleftrightarrow> t' = t)"
  using fastcgi_pool.exclusive [OF assms(1), of t i] assms(2) pool_inv_start [of m]
  by (auto simp: pool_inv_def has_conn_of)

theorem conn_exclusive_witness:
  "\<exists>s. pool_step\<^sup>*\<^sup>* (pool_start (Some 1)) s \<and> has_conn s 5 0 \<and>
     0 \<notin> set (idleConns (pool s)) \<and> \<not> has_conn s 6 0"
proof -
  let ?c = "NewClient (Some 1)"
  let ?s1 = "set_thread 5 Dialing ?c (pool_start (Some 1))"
  let ?c2 = "(update_conn 0 no_conn ?c)\<lparr>usedConns := [0], nextConn := 1\<rparr>"
  let ?s2 = "set_thread 5 (Holding 0) ?c2 ?s1"
  have "pool_step (pool_start (Some 1)) ?s1"
    by (rule step_dial [where pick = 0 and ctxFirst = False])
      (simp_all add: pool_start_def acquire_locked_def NewClient_def)
  moreover have "pool_step ?s1 ?s2"
    by (rule step_connected [where conn = no_conn])
      (simp_all add: pool_start_def acquire_register_def NewClient_def set_thread_def update_conn_def)
  ultimately have "pool_step\<^sup>*\<^sup>* (pool_start (Some 1)) ?s2" by simp
  moreover have "has_conn ?s2 5 0" by (simp add: has_conn_def set_thread_def)
  ultimately show ?thesis using conn_exclusive [of "Some 1" ?s2 5 0] by (metis num.inject(2) numeral_eq_iff num.distinct(3) num.distinct(5))
qed

lemma Client_SendRequest_quiet:
  assumes "pool_quiet c"
  shows "\<exists>res rq' c'. Client_SendRequest sub wr role params a1 a2 rq c = Some (res, rq', c') \<and> pool_quiet c'"
proof -
  obtain r1 rq1 c1 where 1: "Client_sendRequest wr role params a1 rq c = Some (r1, rq1, c1)" "pool_quiet c1"
    using Client_sendRequest_quiet [OF assms] by blast
  obtain r2 rq2 c2 where 2: "Client_sendRequest wr role params a2 rq1 c1 = Some (r2, rq2, c2)" "pool_quiet c2"
    using Client_sendRequest_quiet [OF 1(2)] by blast
  show ?thesis using 1 2 by (cases r1) (simp_all add: Client_SendRequest_def)
qed



text \<open>The limit is checked too late: a client that already has as many connections as
  \<open>MaxConnections\<close> allows still opens one more, and only then reports that the limit is
  reached.\<close>

theorem limit_exceeded_by_one:
  assumes "MaxConnections c = Some (int (length (usedConns c)))" "idleConns c = []"
    "\<not> poolClosed c" "nextConn c \<notin> set (usedConns c)"
    "NewConnection (at_dial a) = (Inr conn :: 'e conn_error + Connection)"
  shows "\<exists>c'. acquireConnection a c = Some (Inr (Some (nextConn c)) :: 'e client_error + nat option, c') \<and>
    MaxConnections c' = Some (int (length (usedConns c')) - 1) \<and>
    acquireConnection a c' = Some (Inl ErrConnectionLimitReached :: 'e client_error + nat option, c')"
  using assms
  by (simp add: acquireConnection_def acquire_locked_def acquire_register_def update_conn_def Let_def)

theorem limit_exceeded_by_one_witness:
  "\<exists>a c'. acquireConnection a (NewClient (Some 0)) =
      Some (Inr (Some 0) :: io_error client_error + nat option, c') \<and>
    MaxConnections c' = Some (int (length (usedConns c')) - 1)"
proof -
  let ?a = "\<lparr>at_pick = 0, at_ctxFirst = False,
    at_dial = Inr (\<lparr>rdata = [1, 10, 0, 0, 0, 0, 0, 0], rerr = EOF\<rparr>, \<lparr>sent = [], room = None, werr = EOF\<rparr>),
    at_ctx = None\<rparr>"
  have "\<exists>bs. GetValuesBody_Encode [''FCGI_MAX_CONNS'', ''FCGI_MAX_REQS'', ''FCGI_MPXS_CONNS''] = Inr bs \<and>
      length bs \<le> MaxUint16"
    by (simp add: GetValuesBody_Encode_def NameValuePair_Encode_def writeLength_def MaxUint32_def MaxUint16_def)
  moreover have "Record_Read \<lparr>rdata = [1, 10, 0, 0, 0, 0, 0, 0], rerr = EOF\<rparr> =
      Inr (\<lparr>Version = 1, RecType = RecordTypeGetValuesResult, RequestId = 0, RecBody = GetValuesResult []\<rparr>,
        \<lparr>rdata = [], rerr = EOF\<rparr>)"
    by code_simp
  ultimately obtain conn where conn: "NewConnection (at_dial ?a) = (Inr conn :: io_error conn_error + Connection)"
    by (auto simp: NewConnection_def fetchValues_def writeRecord_def Record_Write_def Record_bytes_def)
  have "nextConn (NewClient (Some 0)) = 0" by (simp add: NewClient_def)
  then show ?thesis
    using limit_exceeded_by_one [OF _ _ _ _ conn, of "NewClient (Some 0)"]
    by (simp add: NewClient_def) blast
qed

text \<open>A request that fails because the server has closed the connection is sent again, but the
  readers of the caller are not rewound: the second attempt sends only what the first one
  has left in them, so what was read for the first attempt is missing from the request body.\<close>

theorem retry_resumes_streams:
  assumes "pool_quiet c" "idleConns c = [k]" "at_ctx a1 = None"
    "writeRequest role params (rq_stdin rq) (rq_data rq) 1 (conn_out (store c k)) = (Some e, si, da, w)"
    "conn_cause sub e = Some (SyscallError EPIPE)"
  shows "\<exists>c1. pool_quiet c1 \<and> idleConns c1 = [] \<and>
    Client_SendRequest sub wr role params a1 a2 rq c =
      Client_sendRequest wr role params a2 (rq\<lparr>rq_stdin := si, rq_data := da\<rparr>) c1"
proof -
  let ?conn = "Connection_Close ((store c k)\<lparr>conn_out := w\<rparr>)"
  let ?c1 = "c\<lparr>idleConns := [], store := (store c)(k := ?conn)\<rparr>"
  have "acquireConnection a1 c = Some (Inr (Some k) :: 'a client_error + nat option,
      c\<lparr>idleConns := [], usedConns := [k]\<rparr>)"
    using assms(1,2) by (simp add: acquireConnection_def acquire_locked_def pool_quiet_def Let_def)
  then have "Client_sendRequest wr role params a1 rq c =
      Some (Inl (RequestError e), rq\<lparr>rq_stdin := si, rq_data := da\<rparr>, ?c1)"
    using assms
    by (cases rq) (simp add: Client_sendRequest_def Connection_SendRequest_def Connection_exchange_def
        exchange_of_def request_of_def Let_def releaseConnection_def release_delete_def update_conn_def
        Connection_Close_def pool_quiet_def)
  moreover have "pool_quiet ?c1" using assms(1) by (simp add: pool_quiet_def)
  ultimately show ?thesis using assms(5) by (intro exI [of _ ?c1]) (simp add: Client_SendRequest_def)
qed

text \<open>An idle connection whose peer has gone away after the parameters were sent.\<close>

definition broken_client :: Client where
  "broken_client = \<lparr>MaxConnections = None, usedConns = [], idleConns = [0], poolClosed = False,
     store = (\<lambda>_. \<lparr>conn_in = \<lparr>rdata = [], rerr = EOF\<rparr>,
       conn_out = \<lparr>sent = [], room = Some 24, werr = SyscallError EPIPE\<rparr>,
       conn_open = True, conn_values = []\<rparr>), nextConn = 1\<rparr>"

theorem retry_resumes_streams_witness:
  "\<exists>c1. pool_quiet c1 \<and> idleConns c1 = [] \<and>
    Client_SendRequest Some Buffer_Write RoleResponder []
      \<lparr>at_pick = 0, at_ctxFirst = False, at_dial = Inl EOF, at_ctx = None\<rparr>
      \<lparr>at_pick = 0, at_ctxFirst = False, at_dial = Inr (\<lparr>rdata = [], rerr = EOF\<rparr>, \<lparr>sent = [], room = None, werr = EOF\<rparr>),
        at_ctx = None\<rparr>
      \<lparr>rq_stdin = Some [([104, 105], None), ([106], None)], rq_data = None, rq_stdout = [], rq_stderr = []\<rparr>
      broken_client =
    Client_sendRequest Buffer_Write RoleResponder []
      \<lparr>at_pick = 0, at_ctxFirst = False, at_dial = Inr (\<lparr>rdata = [], rerr = EOF\<rparr>, \<lparr>sent = [], room = None, werr = EOF\<rparr>),
        at_ctx = None\<rparr>
      \<lparr>rq_stdin = Some [([106], None)], rq_data = None, rq_stdout = [], rq_stderr = []\<rparr> c1"
proof -
  let ?rq = "\<lparr>rq_stdin = Some [([104, 105], None), ([106], None)], rq_data = None, rq_stdout = [], rq_stderr = []\<rparr>
    :: bytes request"
  have zeros: "replicate 5 0 = [0, 0, 0, 0, 0 :: byte]" by (simp add: numeral_eq_Suc)
  have req: "writeRequest RoleResponder [] (rq_stdin ?rq) (rq_data ?rq) 1 (conn_out (store broken_client 0)) =
      (Some (CannotWriteRecord (WriteError (SyscallError EPIPE)) :: io_error conn_error), Some [([106], None)], None,
        \<lparr>sent = [1, 1, 0, 1, 0, 8, 0, 0, 0, 1, 1, 0, 0, 0, 0, 0, 1, 4, 0, 1, 0, 0, 0, 0],
          room = Some 0, werr = SyscallError EPIPE\<rparr>)"
    by (simp add: broken_client_def writeRequest_def write_optional_def writeRecord_def Record_Write_def
        Record_bytes_def BeginRequestBody_Encode_def PutUint16_def MaxUint16_def end_stream_def Write_conn_def
        zeros)
  show ?thesis
    using retry_resumes_streams [OF _ _ _ req, where sub = Some and wr = Buffer_Write]
    by (simp add: broken_client_def pool_quiet_def)
qed

end
