(* ===== verification/Spill_Buffer.thy ===== *)
theory Spill_Buffer
  imports FastCGI_Connection
begin

text \<open>
  The buffer that keeps a body in memory up to a size and in a file beyond it,
  \<open>src/pkg/boulevard/spill_buffer.go\<close>. The file is a \<^typ>\<open>writer\<close>: what it has taken and how
  much more the disk takes. The argument \<open>opn\<close> is the outcome of opening it: an error, or the
  room on the disk and the error once it is full; the file is always empty then, since it is
  truncated. The buffer is where the FastCGI action stores a response body.
\<close>

section \<open>The model\<close>

datatype spill_error = ErrSpillBufferFull | CannotOpenFile io_error | CannotWriteFile io_error
  | CannotCloseFile io_error | CannotDeleteFile io_error

record SpillBuffer =
  sb_buffer :: bytes
  sb_file :: "writer option"
  sb_size :: int
  sb_maxMemorySize :: int
  sb_maxBufferSize :: int

definition NewSpillBuffer :: "int \<Rightarrow> int \<Rightarrow> SpillBuffer" where
  "NewSpillBuffer maxMemorySize maxBufferSize = \<lparr>sb_buffer = [], sb_file = None, sb_size = 0,
     sb_maxMemorySize = maxMemorySize, sb_maxBufferSize = maxBufferSize\<rparr>"

definition SpillBuffer_Size :: "SpillBuffer \<Rightarrow> int" where
  "SpillBuffer_Size buf = sb_size buf"

text \<open>\<open>closed\<close> and \<open>removed\<close> are the outcomes of closing and deleting the file; a file that does
  not exist any more is not an error.\<close>

definition SpillBuffer_Close ::
  "io_error option \<Rightarrow> io_error option \<Rightarrow> SpillBuffer \<Rightarrow> spill_error option \<times> SpillBuffer" where
  "SpillBuffer_Close closed removed buf = (case sb_file buf of
     None \<Rightarrow> (None, buf)
   | Some _ \<Rightarrow> (case closed of
       Some e \<Rightarrow> (Some (CannotCloseFile e), buf)
     | None \<Rightarrow> (map_option CannotDeleteFile removed, buf\<lparr>sb_file := None\<rparr>)))"

definition SpillBuffer_Reader :: "io_error option \<Rightarrow> SpillBuffer \<Rightarrow> spill_error + bytes" where
  "SpillBuffer_Reader opened buf = (case sb_file buf of
     None \<Rightarrow> Inr (sb_buffer buf)
   | Some f \<Rightarrow> (case opened of
       Some e \<Rightarrow> Inl (CannotOpenFile e)
     | None \<Rightarrow> Inr (sent f)))"

text \<open>The end of \<open>Write\<close>: the data goes to the file.\<close>

definition write_file :: "SpillBuffer \<Rightarrow> writer \<Rightarrow> bytes \<Rightarrow> (spill_error option \<times> nat) \<times> SpillBuffer" where
  "write_file buf f data = (case Write_conn f data of
     (Some e, f') \<Rightarrow> ((Some (CannotWriteFile e), length (sent f') - length (sent f)), buf\<lparr>sb_file := Some f'\<rparr>)
   | (None, f') \<Rightarrow>
       ((None, length data), buf\<lparr>sb_file := Some f', sb_size := wrap64 (sb_size buf + int (length data))\<rparr>))"

definition SpillBuffer_Write ::
  "io_error + (nat option \<times> io_error) \<Rightarrow> SpillBuffer \<Rightarrow> bytes \<Rightarrow> (spill_error option \<times> nat) \<times> SpillBuffer" where
  "SpillBuffer_Write opn buf data =
     (if wrap64 (sb_size buf + int (length data)) > sb_maxBufferSize buf then ((Some ErrSpillBufferFull, 0), buf)
      else case sb_file buf of
        Some f \<Rightarrow> write_file buf f data
      | None \<Rightarrow>
          if wrap64 (int (length (sb_buffer buf)) + int (length data)) \<le> sb_maxMemorySize buf then
            ((None, length data), buf\<lparr>sb_buffer := sb_buffer buf @ data,
               sb_size := wrap64 (sb_size buf + int (length data))\<rparr>)
          else (case opn of
            Inl e \<Rightarrow> ((Some (CannotOpenFile e), 0), buf)
          | Inr (space, full) \<Rightarrow> (case Write_conn \<lparr>sent = [], room = space, werr = full\<rparr> (sb_buffer buf) of
              (Some e, f') \<Rightarrow> ((Some (CannotWriteFile e), 0), buf\<lparr>sb_file := Some f'\<rparr>)
            | (None, f') \<Rightarrow> write_file (buf\<lparr>sb_file := Some f', sb_buffer := []\<rparr>) f' data)))"

section \<open>The buffer as a bounded sequence of bytes\<close>

definition spill_content :: "SpillBuffer \<Rightarrow> bytes" where
  "spill_content buf = (case sb_file buf of None \<Rightarrow> sb_buffer buf | Some f \<Rightarrow> sent f)"

definition spill_ok :: "SpillBuffer \<Rightarrow> bool" where
  "spill_ok buf \<longleftrightarrow> sb_size buf = int (length (spill_content buf)) \<and> sb_size buf < 2 ^ 62 \<and>
     sb_maxBufferSize buf < 2 ^ 62 \<and> (sb_size buf = 0 \<or> sb_size buf \<le> sb_maxBufferSize buf) \<and>
     (sb_file buf = None \<longrightarrow> sb_size buf = 0 \<or> sb_size buf \<le> sb_maxMemorySize buf)"

lemma spill_wrap:
  "\<lbrakk>spill_ok buf; int (length data) < 2 ^ 62\<rbrakk> \<Longrightarrow>
    wrap64 (sb_size buf + int (length data)) = sb_size buf + int (length data)"
  by (simp add: spill_ok_def int64_def)

lemma NewSpillBuffer_ok: "mx < 2 ^ 62 \<Longrightarrow> spill_ok (NewSpillBuffer mm mx) \<and> spill_content (NewSpillBuffer mm mx) = []"
  by (simp add: spill_ok_def NewSpillBuffer_def spill_content_def)

text \<open>What a write promises in each outcome: a success appends the data and keeps the invariant,
  a full buffer is left as it was, and only the file can fail otherwise.\<close>

definition write_outcome :: "SpillBuffer \<Rightarrow> bytes \<Rightarrow> spill_error option \<times> nat \<Rightarrow> SpillBuffer \<Rightarrow> bool" where
  "write_outcome buf data r buf' \<longleftrightarrow> (case fst r of
     None \<Rightarrow> snd r = length data \<and> spill_content buf' = spill_content buf @ data \<and> spill_ok buf' \<and>
       sb_maxBufferSize buf' = sb_maxBufferSize buf \<and>
       int (length (spill_content buf) + length data) \<le> sb_maxBufferSize buf
   | Some ErrSpillBufferFull \<Rightarrow>
       buf' = buf \<and> int (length (spill_content buf) + length data) > sb_maxBufferSize buf
   | Some (CannotOpenFile _) \<Rightarrow> buf' = buf
   | Some (CannotWriteFile _) \<Rightarrow> sb_file buf' \<noteq> None
   | Some _ \<Rightarrow> False)"

lemma write_file_outcome:
  assumes "sb_file b = Some f" "sb_size b = int (length (sent f))" "spill_content buf = sent f"
    "sb_size b + int (length data) \<le> sb_maxBufferSize b" "sb_maxBufferSize b < 2 ^ 62"
    "sb_maxBufferSize b = sb_maxBufferSize buf" "write_file b f data = (r, buf')"
  shows "write_outcome buf data r buf'"
  using assms Write_conn_ok [of f data]
  by (auto simp: write_file_def spill_content_def spill_ok_def int64_def write_outcome_def
      split: prod.splits option.splits)

lemma SpillBuffer_Write_outcome:
  assumes ok: "spill_ok buf" and len: "int (length data) < 2 ^ 62"
    and wr: "SpillBuffer_Write opn buf data = (r, buf')"
  shows "write_outcome buf data r buf'"
proof -
  have size: "sb_size buf = int (length (spill_content buf))" and max: "sb_maxBufferSize buf < 2 ^ 62"
    using ok by (simp_all add: spill_ok_def)
  note wrap = spill_wrap [OF ok len]
  show ?thesis
  proof (cases "sb_size buf + int (length data) > sb_maxBufferSize buf")
    case True
    then show ?thesis using wr wrap size by (auto simp: SpillBuffer_Write_def write_outcome_def)
  next
    case fits: False
    show ?thesis
    proof (cases "sb_file buf")
      case (Some f)
      then show ?thesis using write_file_outcome [of buf f buf data r buf'] wr wrap size max fits
        by (simp add: SpillBuffer_Write_def spill_content_def)
    next
      case None
      then have c: "spill_content buf = sb_buffer buf" by (simp add: spill_content_def)
      show ?thesis
      proof (cases "sb_size buf + int (length data) \<le> sb_maxMemorySize buf")
        case True
        then show ?thesis using wr wrap size None c fits ok
          by (auto simp: SpillBuffer_Write_def write_outcome_def spill_content_def spill_ok_def)
      next
        case big: False
        show ?thesis
        proof (cases opn)
          case (Inl e)
          then show ?thesis using wr wrap size None c fits big
            by (auto simp: SpillBuffer_Write_def write_outcome_def)
        next
          case (Inr f)
          obtain e f' where f': "Write_conn \<lparr>sent = [], room = fst f, werr = snd f\<rparr> (sb_buffer buf) = (e, f')"
            by fastforce
          show ?thesis
          proof (cases e)
            case (Some x)
            then show ?thesis using wr wrap size None c fits big Inr f'
              by (cases f) (auto simp: SpillBuffer_Write_def write_outcome_def)
          next
            case e: None
            then have "sent f' = sb_buffer buf" using Write_conn_ok f' by fastforce
            then show ?thesis
              using write_file_outcome [of "buf\<lparr>sb_file := Some f', sb_buffer := []\<rparr>" f' buf data r buf']
                wr wrap size None c fits big Inr f' e max
              by (cases f) (simp add: SpillBuffer_Write_def)
          qed
        qed
      qed
    qed
  qed
qed

text \<open>The buffer as the destination of a response.\<close>

definition spill_write ::
  "io_error + (nat option \<times> io_error) \<Rightarrow> SpillBuffer \<Rightarrow> bytes \<Rightarrow> spill_error option \<times> SpillBuffer" where
  "spill_write opn buf data = (case SpillBuffer_Write opn buf data of ((err, n), buf') \<Rightarrow> (err, buf'))"

lemma spill_write_None:
  assumes "spill_ok buf" "length bs \<le> MaxUint16" "spill_write opn buf bs = (None, buf')"
  shows "spill_content buf' = spill_content buf @ bs \<and> spill_ok buf'"
proof -
  obtain n where "SpillBuffer_Write opn buf bs = ((None, n), buf')"
    using assms(3) by (auto simp: spill_write_def split: prod.splits)
  then show ?thesis
    using SpillBuffer_Write_outcome [OF assms(1), of bs opn] assms(2) by (simp add: write_outcome_def MaxUint16_def)
qed

interpretation spill: byte_sink "spill_write opn" spill_content spill_ok for opn
  by unfold_locales (use spill_write_None in blast)+

section \<open>Properties\<close>

text \<open>C30: A spill buffer is a sequence of bytes of bounded length, wherever it keeps them: a write
  that succeeds appends the data and keeps the content within the maximum size, also when it
  moves the content from memory to the file; a write that would exceed the maximum is refused
  and changes nothing; every other error comes from the file.\<close>

theorem spill_buffer_refines:
  assumes "spill_ok buf" "int (length data) < 2 ^ 62"
  shows "write_outcome buf data (fst (SpillBuffer_Write opn buf data)) (snd (SpillBuffer_Write opn buf data))"
  using SpillBuffer_Write_outcome [OF assms] by simp

theorem spill_buffer_refines_witness:
  "write_outcome (NewSpillBuffer 5 8) [1, 2, 3, 4, 5, 6] (None, 6)
     \<lparr>sb_buffer = [], sb_file = Some \<lparr>sent = [1, 2, 3, 4, 5, 6], room = None, werr = EOF\<rparr>, sb_size = 6,
      sb_maxMemorySize = 5, sb_maxBufferSize = 8\<rparr>"
proof -
  have ok: "spill_ok (NewSpillBuffer 5 8)" using NewSpillBuffer_ok [of 8 5] by simp
  have wr: "SpillBuffer_Write (Inr (None, EOF)) (NewSpillBuffer 5 8) [1, 2, 3, 4, 5, 6] =
      ((None, 6), \<lparr>sb_buffer = [], sb_file = Some \<lparr>sent = [1, 2, 3, 4, 5, 6], room = None, werr = EOF\<rparr>, sb_size = 6,
        sb_maxMemorySize = 5, sb_maxBufferSize = 8\<rparr>)"
    by (simp add: SpillBuffer_Write_def NewSpillBuffer_def write_file_def wrap64_def)
  show ?thesis
    using spill_buffer_refines [OF ok, of "[1, 2, 3, 4, 5, 6]" "Inr (None, EOF)"] unfolding wr by simp
qed

text \<open>A response whose header is in its first record is either stored completely in the spill
  buffer, whose size is then within its maximum, or fails with the error of the buffer.\<close>

theorem response_spilled:
  assumes "Header_Parse empty_Header d = Inr (HeaderEnd body, h)" "length d \<le> MaxUint16"
    "list_all output_fits os" "spill_ok buf"
    "readResponse (spill_write opn) \<lparr>rdata = frame (output_record i (Stdout d)) @ output_frames i os @
        frame (end_record i 0 ProtocolStatusRequestComplete) @ rest, rerr = e\<rparr>
        (start_response vs buf err) = (r, st', rd')"
  shows "r = Inr h \<and> SpillBuffer_Reader None (res_stdout st') = Inr (spill_content buf @ body @ stdout_of os) \<and>
      SpillBuffer_Size (res_stdout st') = int (length (spill_content buf @ body @ stdout_of os)) \<or>
    (\<exists>x. r = Inl (CannotWriteStdout x))"
proof -
  have "SpillBuffer_Reader None b = Inr (spill_content b)" for b
    by (simp add: SpillBuffer_Reader_def spill_content_def split: option.split)
  moreover have "spill_ok b \<Longrightarrow> SpillBuffer_Size b = int (length (spill_content b))" for b
    by (simp add: SpillBuffer_Size_def spill_ok_def)
  ultimately show ?thesis using spill.response_stored [OF assms] by auto
qed

theorem response_spilled_witness:
  "\<exists>r st' rd'. readResponse (spill_write (Inr (None, EOF))) \<lparr>rdata = frame (output_record 1 (Stdout [65, 58, 66, 10, 10, 104])) @
        output_frames 1 [Stdout [105]] @ frame (end_record 1 0 ProtocolStatusRequestComplete) @ [], rerr = EOF\<rparr>
        (start_response [] (NewSpillBuffer 1 8) []) = (r, st', rd') \<and>
     (SpillBuffer_Reader None (res_stdout st') = Inr [104, 105] \<or> (\<exists>x. r = Inl (CannotWriteStdout x)))"
proof -
  have hdr: "Header_Parse empty_Header [65, 58, 66, 10, 10, 104] =
      Inr (HeaderEnd [104], \<lparr>Fields = [\<lparr>FieldName = ''A'', FieldValue = ''B''\<rparr>], hdata = []\<rparr>)"
    by code_simp
  have new: "spill_ok (NewSpillBuffer 1 8)" "spill_content (NewSpillBuffer 1 8) = []"
    using NewSpillBuffer_ok [of 8 1] by simp_all
  obtain r st' rd' where res: "readResponse (spill_write (Inr (None, EOF)))
      \<lparr>rdata = frame (output_record 1 (Stdout [65, 58, 66, 10, 10, 104])) @
        output_frames 1 [Stdout [105]] @ frame (end_record 1 0 ProtocolStatusRequestComplete) @ [], rerr = EOF\<rparr>
        (start_response [] (NewSpillBuffer 1 8) []) = (r, st', rd')"
    by (metis prod.exhaust)
  have "list_all output_fits [Stdout [105]]" by (simp add: MaxUint16_def)
  from response_spilled [OF hdr _ this new(1) res] show ?thesis
    using res new(2) by (auto simp: MaxUint16_def)
qed

end
