(* ===== verification/Fastcgi_Action.thy ===== *)
theory Fastcgi_Action
  imports FastCGI_Client Spill_Buffer Http_Auth Clean_Path "HOL-Library.AList"
begin

text \<open>
  The action that passes a request to a FastCGI application:
  \<open>src/pkg/protocols/http/action_fastcgi.go\<close>. The bodies of the request and of the response go
  through spill buffers, and the exchange is that of the FastCGI client. A compiled regular
  expression is its \<open>FindString\<close>, the empty string for no match. \<open>fcgi_world\<close> holds what the
  outside decides while a request is handled: opening the two files, the attempts of the
  client, and the order in which Go iterates over the map of parameters.
\<close>

section \<open>The model\<close>

record FastCGIActionCfg =
  fc_Parameters :: "(string \<times> string) list"
  fc_Path :: string
  fc_DefaultScript :: string
  fc_ScriptRegexp :: string
  fc_TemporaryDirectory :: string
  fc_RequestBodyMemoryBufferSize :: "int option"
  fc_MaxRequestBodySize :: "int option"
  fc_ResponseBodyMemoryBufferSize :: "int option"
  fc_MaxResponseBodySize :: "int option"
  fc_RequestTimeout :: "int option"

record FastCGIAction =
  fa_Cfg :: FastCGIActionCfg
  fa_scriptRE :: "(string \<Rightarrow> string) option"
  fa_tmpDirPath :: string
  fa_reqBodyMemBufSize :: int
  fa_maxReqBodySize :: int
  fa_resBodyMemBufSize :: int
  fa_maxResBodySize :: int
  fa_requestTimeout :: int

datatype fcgi_action_error = ScriptNotAbsolute | CannotParseScriptRegexp | CannotCreateTemporaryDirectory

text \<open>The text that is compiled: anchored at the start of the path.\<close>

definition script_regexp :: "string \<Rightarrow> fcgi_action_error + string" where
  "script_regexp s =
     (if hd s \<noteq> CHR ''^'' \<and> hd s \<noteq> CHR ''/'' then Inl ScriptNotAbsolute
      else Inr (if hd s \<noteq> CHR ''^'' then ''^'' @ s else s))"

definition compile_script ::
  "(string \<Rightarrow> (string \<Rightarrow> string) option) \<Rightarrow> string \<Rightarrow> fcgi_action_error + (string \<Rightarrow> string) option" where
  "compile_script compile s =
     (if s = [] then Inr None
      else case script_regexp s of
             Inl e \<Rightarrow> Inl e
           | Inr s \<Rightarrow> (case compile s of None \<Rightarrow> Inl CannotParseScriptRegexp | Some re \<Rightarrow> Inr (Some re)))"

text \<open>\<open>mkdtemp\<close> is the directory that \<open>os.MkdirTemp\<close> creates, if it can. Durations are in
  nanoseconds.\<close>

definition NewFastCGIAction ::
  "(string \<Rightarrow> (string \<Rightarrow> string) option) \<Rightarrow> string option \<Rightarrow> FastCGIActionCfg \<Rightarrow>
     fcgi_action_error + FastCGIAction" where
  "NewFastCGIAction compile mkdtemp cfg = (case compile_script compile (fc_ScriptRegexp cfg) of
     Inl e \<Rightarrow> Inl e
   | Inr re \<Rightarrow>
       (case (if fc_TemporaryDirectory cfg = [] then mkdtemp else Some (fc_TemporaryDirectory cfg)) of
          None \<Rightarrow> Inl CannotCreateTemporaryDirectory
        | Some dir \<Rightarrow> Inr \<lparr>fa_Cfg = cfg, fa_scriptRE = re, fa_tmpDirPath = dir,
            fa_reqBodyMemBufSize = (case fc_RequestBodyMemoryBufferSize cfg of None \<Rightarrow> 128 * 1024 | Some n \<Rightarrow> n),
            fa_maxReqBodySize = (case fc_MaxRequestBodySize cfg of None \<Rightarrow> 4 * 1024 * 1024 | Some n \<Rightarrow> n),
            fa_resBodyMemBufSize = (case fc_ResponseBodyMemoryBufferSize cfg of None \<Rightarrow> 128 * 1024 | Some n \<Rightarrow> n),
            fa_maxResBodySize = (case fc_MaxResponseBodySize cfg of None \<Rightarrow> 4 * 1024 * 1024 | Some n \<Rightarrow> n),
            fa_requestTimeout = (case fc_RequestTimeout cfg of None \<Rightarrow> 10 * 10 ^ 9 | Some n \<Rightarrow> n)\<rparr>))"

text \<open>\<open>Stop\<close> closes the client and removes the directory of the buffers from the file system,
  a list of paths.\<close>

definition RemoveAll :: "string \<Rightarrow> string list \<Rightarrow> string list" where
  "RemoveAll dir fs = filter (\<lambda>f. f \<noteq> dir \<and> \<not> HasPrefix f (dir @ ''/'')) fs"

definition FastCGIAction_Stop :: "FastCGIAction \<Rightarrow> Client \<times> string list \<Rightarrow> (Client \<times> string list) option" where
  "FastCGIAction_Stop a s = (case s of (c, fs) \<Rightarrow>
     map_option (\<lambda>c. (c, RemoveAll (fa_tmpDirPath a) fs)) (Client_Close c))"

section \<open>The parameters of a request\<close>

text \<open>\<open>http.Request.BasicAuth\<close>, the user name only.\<close>

definition basic_auth_username :: "Request \<Rightarrow> string option" where
  "basic_auth_username req =
     (let auth = Get (ReqHeader req) ''Authorization'' in
      if length auth < 6 \<or> map lower_char (take 6 auth) \<noteq> ''basic '' then None
      else case DecodeString (drop 6 auth) of
             None \<Rightarrow> None
           | Some data \<Rightarrow> (case Cut (string_of data) CHR '':'' of
               (username, _, True) \<Rightarrow> Some username
             | (_, _, False) \<Rightarrow> None))"

text \<open>The script and the path information.\<close>

definition script_and_path :: "FastCGIAction \<Rightarrow> string \<Rightarrow> string \<times> string" where
  "script_and_path a subpath =
     (let subpath = (if subpath = [] then fc_DefaultScript (fa_Cfg a) else subpath) in
      case fa_scriptRE a of
        None \<Rightarrow> (subpath, ''/'')
      | Some FindString \<Rightarrow>
          let match = FindString (''/'' @ subpath) in
          if match = [] then (subpath, ''/'')
          else (TrimPrefix match ''/'', path_Join [''/'', TrimPrefix subpath match]))"

definition base_parameters ::
  "(string \<Rightarrow> string) \<Rightarrow> int \<Rightarrow> string \<Rightarrow> FastCGIAction \<Rightarrow> 'a RequestContext \<Rightarrow> int \<Rightarrow> (string \<times> string) list" where
  "base_parameters uni port build a ctx reqBodySize =
     (let req = ctx_Request ctx;
          (scriptName, pathInfo) = script_and_path a (ctx_Subpath ctx);
          basePath = (if fc_Path (fa_Cfg a) = [] then ''/'' else fc_Path (fa_Cfg a))
      in [(''CONTENT_LENGTH'', Itoa reqBodySize),
          (''CONTENT_TYPE'', Get (ReqHeader req) ''Content-Type''),
          (''GATEWAY_INTERFACE'', ''CGI/1.1''),
          (''PATH_INFO'', pathInfo),
          (''PATH_TRANSLATED'', path_Join [basePath, pathInfo]),
          (''QUERY_STRING'', UrlRawQuery req),
          (''REMOTE_ADDR'', IP_String (ctx_ClientAddress ctx)),
          (''REMOTE_HOST'', IP_String (ctx_ClientAddress ctx)),
          (''REQUEST_METHOD'', ToUpper uni (ReqMethod req)),
          (''SCRIPT_NAME'', scriptName),
          (''SERVER_NAME'', ctx_Host ctx),
          (''SERVER_PORT'', Itoa port),
          (''SERVER_PROTOCOL'', ReqProto req),
          (''SERVER_SOFTWARE'', ''boulevard/'' @ build),
          (''SCRIPT_FILENAME'', path_Join [basePath, scriptName])])"

definition auth_parameters :: "Request \<Rightarrow> (string \<times> string) list \<Rightarrow> (string \<times> string) list" where
  "auth_parameters req params =
     (let params = (case Cut (Get (ReqHeader req) ''Authorization'') CHR '' '' of
            (scheme, _, True) \<Rightarrow> AList.update ''AUTH_TYPE'' scheme params
          | (_, _, False) \<Rightarrow> params)
      in case basic_auth_username req of
           Some username \<Rightarrow> AList.update ''REMOTE_USER'' username params
         | None \<Rightarrow> params)"

definition header_parameter :: "(string \<Rightarrow> string) \<Rightarrow> string \<Rightarrow> string" where
  "header_parameter uni name = ''HTTP_'' @ ToUpper uni (map (\<lambda>c. if c = CHR ''-'' then CHR ''_'' else c) name)"

definition header_parameters :: "(string \<Rightarrow> string) \<Rightarrow> http_header \<Rightarrow> (string \<times> string) list \<Rightarrow> (string \<times> string) list" where
  "header_parameters uni h params =
     foldl (\<lambda>ps (name, vs). AList.update (header_parameter uni name) (Join vs '', '') ps) params h"

definition configured_parameters :: "(string \<times> string) list \<Rightarrow> (string \<times> string) list \<Rightarrow> (string \<times> string) list" where
  "configured_parameters cfg params = foldl (\<lambda>ps (name, v). AList.update name v ps) params cfg"

text \<open>The map \<open>params\<close>, and the pairs read off it in the order of an iteration.\<close>

definition parameter_map ::
  "(string \<Rightarrow> string) \<Rightarrow> int \<Rightarrow> string \<Rightarrow> FastCGIAction \<Rightarrow> 'a RequestContext \<Rightarrow> int \<Rightarrow> (string \<times> string) list" where
  "parameter_map uni port build a ctx reqBodySize =
     configured_parameters (fc_Parameters (fa_Cfg a))
       (header_parameters uni (ReqHeader (ctx_Request ctx))
         (auth_parameters (ctx_Request ctx) (base_parameters uni port build a ctx reqBodySize)))"

definition requestParameters ::
  "((string \<times> string) list \<Rightarrow> (string \<times> string) list) \<Rightarrow> (string \<Rightarrow> string) \<Rightarrow> int \<Rightarrow> string \<Rightarrow>
     FastCGIAction \<Rightarrow> 'a RequestContext \<Rightarrow> int \<Rightarrow> NameValuePair list" where
  "requestParameters order uni port build a ctx reqBodySize =
     map (\<lambda>(name, v). \<lparr>Name = name, Value = v\<rparr>) (order (parameter_map uni port build a ctx reqBodySize))"

section \<open>Handling a request\<close>

datatype copy_error = CopyWriteError spill_error | CopyReadError io_error

text \<open>\<open>io.Copy\<close> of the body into the buffer: data returned with an error is written first.\<close>

fun io_Copy ::
  "io_error + (nat option \<times> io_error) \<Rightarrow> SpillBuffer \<Rightarrow> stream \<Rightarrow> int \<Rightarrow> (copy_error option \<times> int) \<times> SpillBuffer" where
  "io_Copy opn buf [] n = ((None, n), buf)"
| "io_Copy opn buf ((data, err) # reads) n =
     (case (if data = [] then ((None, 0), buf) else SpillBuffer_Write opn buf data) of
        ((Some e, k), buf) \<Rightarrow> ((Some (CopyWriteError e), wrap64 (n + int k)), buf)
      | ((None, k), buf) \<Rightarrow>
          (case err of
             None \<Rightarrow> io_Copy opn buf reads (wrap64 (n + int k))
           | Some e \<Rightarrow> ((if e = EOF then None else Some (CopyReadError e), wrap64 (n + int k)), buf)))"

record fcgi_world =
  fw_reqOpen :: "io_error + (nat option \<times> io_error)"
  fw_reqRead :: "io_error option"
  fw_resOpen :: "io_error + (nat option \<times> io_error)"
  fw_resRead :: "io_error option"
  fw_attempt1 :: attempt
  fw_attempt2 :: attempt
  fw_order :: "(string \<times> string) list \<Rightarrow> (string \<times> string) list"
  fw_uni :: "string \<Rightarrow> string"
  fw_eqf :: "string \<Rightarrow> string \<Rightarrow> bool"
  fw_reason :: "int \<Rightarrow> string"
  fw_port :: int
  fw_build :: string

fun error_status :: "'e client_error \<Rightarrow> int" where
  "error_status (RequestError ErrServerOverloaded) = 503"
| "error_status (CannotCreateConnection ErrServerOverloaded) = 503"
| "error_status (RequestError ErrRequestTimeout) = 504"
| "error_status (CannotCreateConnection ErrRequestTimeout) = 504"
| "error_status _ = 500"

text \<open>After the exchange: the header, the length and the body of the response.\<close>

definition fcgi_reply ::
  "fcgi_world \<Rightarrow> Header \<Rightarrow> SpillBuffer \<Rightarrow> 'a RequestContext \<Rightarrow> 'a RequestContext outcome" where
  "fcgi_reply w resHeader resBodyBuf ctx = (case SpillBuffer_Reader (fw_resRead w) resBodyBuf of
     Inl _ \<Rightarrow> ReplyError (fw_reason w) 500 ctx
   | Inr body \<Rightarrow>
       let hh = CopyToHTTPHeader (fw_uni w) (Fields resHeader) (rw_header (ctx_Writer ctx));
           hh = SetField hh ''Content-Length'' (Itoa (SpillBuffer_Size resBodyBuf));
           ctx = ctx\<lparr>ctx_Writer := (ctx_Writer ctx)\<lparr>rw_header := hh\<rparr>\<rparr>
       in Reply (fst (Header_Status (fw_eqf w) resHeader)) (Some (string_of body)) ctx)"

text \<open>The exchange, once the body of the request is in its buffer.\<close>

definition fcgi_exchange ::
  "fcgi_world \<Rightarrow> FastCGIAction \<Rightarrow> bytes \<Rightarrow> int \<Rightarrow> 'a RequestContext \<times> Client \<Rightarrow> 'a RequestContext outcome \<times> Client" where
  "fcgi_exchange w a stdin reqBodySize s = (case s of (ctx, c) \<Rightarrow>
     (case Client_SendRequest (\<lambda>_. None) (spill_write (fw_resOpen w)) RoleResponder
         (requestParameters (fw_order w) (fw_uni w) (fw_port w) (fw_build w) a ctx reqBodySize)
         (fw_attempt1 w) (fw_attempt2 w)
         \<lparr>rq_stdin = Some (bytes_reader stdin), rq_data = None,
          rq_stdout = NewSpillBuffer (fa_resBodyMemBufSize a) (fa_maxResBodySize a), rq_stderr = []\<rparr> c of
        None \<Rightarrow> (Panicked ctx, c)
      | Some (Inl e, _, c) \<Rightarrow> (ReplyError (fw_reason w) (error_status e) ctx, c)
      | Some (Inr resHeader, rq, c) \<Rightarrow> (fcgi_reply w resHeader (rq_stdout rq) ctx, c)))"

definition FastCGIAction_HandleRequest ::
  "fcgi_world \<Rightarrow> FastCGIAction \<Rightarrow> stream \<Rightarrow> 'a RequestContext \<times> Client \<Rightarrow> 'a RequestContext outcome \<times> Client" where
  "FastCGIAction_HandleRequest w a reqBody s = (case s of (ctx, c) \<Rightarrow>
     (case io_Copy (fw_reqOpen w) (NewSpillBuffer (fa_reqBodyMemBufSize a) (fa_maxReqBodySize a)) reqBody 0 of
        ((Some _, _), _) \<Rightarrow> (ReplyError (fw_reason w) 500 ctx, c)
      | ((None, reqBodySize), reqBodyBuf) \<Rightarrow>
          (case SpillBuffer_Reader (fw_reqRead w) reqBodyBuf of
             Inl _ \<Rightarrow> (ReplyError (fw_reason w) 500 ctx, c)
           | Inr stdin \<Rightarrow> fcgi_exchange w a stdin reqBodySize (ctx, c))))"

section \<open>The buffered body\<close>

text \<open>What an \<open>io.Reader\<close> delivers before its end, if it ends without another error.\<close>

fun body_of :: "stream \<Rightarrow> bytes option" where
  "body_of [] = Some []"
| "body_of ((data, err) # reads) = (case err of
     None \<Rightarrow> map_option (\<lambda>rest. data @ rest) (body_of reads)
   | Some e \<Rightarrow> if e = EOF then Some data else None)"

lemma io_Copy_body:
  assumes "spill_ok buf" "list_all (\<lambda>(data, _). length data \<le> MaxUint16) reads"
    "io_Copy opn buf reads (int (length (spill_content buf))) = ((None, n), buf')"
  shows "\<exists>body. body_of reads = Some body \<and> spill_content buf' = spill_content buf @ body \<and>
    spill_ok buf' \<and> n = int (length (spill_content buf')) \<and> sb_maxBufferSize buf' = sb_maxBufferSize buf"
  using assms
proof (induction reads arbitrary: buf)
  case (Cons r reads)
  obtain data err where r: "r = (data, err)" by fastforce
  obtain e k b where wr: "(if data = [] then ((None, 0), buf) else SpillBuffer_Write opn buf data) = ((e, k), b)"
    by (metis prod.exhaust)
  have e: "e = None" using Cons.prems(3) wr r by (auto split: option.splits)
  have b: "spill_content b = spill_content buf @ data \<and> spill_ok b \<and> k = length data \<and>
      sb_maxBufferSize b = sb_maxBufferSize buf"
  proof (cases "data = []")
    case False
    then show ?thesis using SpillBuffer_Write_outcome [of buf data opn "(None, k)" b] Cons.prems(1,2) wr e r
      by (simp add: write_outcome_def MaxUint16_def)
  qed (use wr Cons.prems(1) in auto)
  have n: "wrap64 (int (length (spill_content buf)) + int k) = int (length (spill_content b))"
  proof -
    have e: "int (length (spill_content buf)) + int k = sb_size b" "sb_size b < 2 ^ 62" "sb_size b = int (length (spill_content b))"
      using b by (auto simp: spill_ok_def)
    have "int64 (sb_size b)" using e(2,3) by (simp add: int64_def)
    from wrap64_id [OF this] show ?thesis unfolding e(1) using e(3) by simp
  qed
  show ?case
  proof (cases err)
    case None
    then have "io_Copy opn b reads (int (length (spill_content b))) = ((None, n'), buf') \<longleftrightarrow>
        io_Copy opn buf (r # reads) (int (length (spill_content buf))) = ((None, n'), buf')" for n'
      using wr e n r by simp
    then show ?thesis using Cons.IH [of b] Cons.prems b None r by auto
  next
    case (Some x)
    then show ?thesis using Cons.prems(3) wr e n r b by (auto split: if_splits)
  qed
qed auto

lemma Reader_content: "SpillBuffer_Reader None buf = Inr (spill_content buf)"
  by (simp add: SpillBuffer_Reader_def spill_content_def split: option.split)

lemma Reader_Inr: "SpillBuffer_Reader opened buf = Inr bs \<Longrightarrow> bs = spill_content buf"
  by (auto simp: SpillBuffer_Reader_def spill_content_def split: option.splits)

section \<open>Lookups\<close>

lemma map_of_updates: "map_of (foldl (\<lambda>ps x. AList.update (f x) (g x) ps) ps xs) =
    map_of ps ++ map_of (rev (map (\<lambda>x. (f x, g x)) xs))"
  by (induction xs rule: rev_induct) (simp_all add: update_conv' map_add_def fun_eq_iff)

lemma distinct_updates_fold:
  "distinct (map fst ps) \<Longrightarrow> distinct (map fst (foldl (\<lambda>ps x. AList.update (f x) (g x) ps) ps xs))"
  by (induction xs rule: rev_induct) (simp_all add: distinct_update)

lemma map_of_configured: "map_of (configured_parameters cfg ps) = map_of ps ++ map_of (rev cfg)"
  using map_of_updates [of fst snd ps cfg] by (simp add: configured_parameters_def case_prod_beta')

lemma map_of_header_parameters: "map_of (header_parameters uni h ps) =
    map_of ps ++ map_of (rev (map (\<lambda>(name, vs). (header_parameter uni name, Join vs '', '')) h))"
  using map_of_updates [of "\<lambda>x. header_parameter uni (fst x)" "\<lambda>x. Join (snd x) '', ''" ps h]
  by (simp add: header_parameters_def case_prod_beta')

lemma header_parameter_prefix: "map_of (rev (map (\<lambda>(name, vs). (header_parameter uni name, g vs)) h)) n = Some v \<Longrightarrow>
    HasPrefix n ''HTTP_''"
  by (auto dest!: map_of_SomeD simp: header_parameter_def)

lemma distinct_parameter_map: "distinct (map fst (parameter_map uni port build a ctx len))"
proof -
  have "distinct (map fst (base_parameters uni port build a ctx len))"
    by (simp add: base_parameters_def case_prod_beta' Let_def)
  then have "distinct (map fst (auth_parameters (ctx_Request ctx) (base_parameters uni port build a ctx len)))"
    by (auto simp: auth_parameters_def Let_def distinct_update split: prod.split bool.split option.split)
  then show ?thesis
    by (simp add: parameter_map_def configured_parameters_def header_parameters_def case_prod_beta' distinct_updates_fold)
qed

section \<open>Properties\<close>



lemma HandleRequest_buffered:
  assumes "client_status ctx = None" "fa_maxReqBodySize a < 2 ^ 62"
    "list_all (\<lambda>(data, _). length data \<le> MaxUint16) reads"
  shows "(\<exists>ctx'. FastCGIAction_HandleRequest w a reads (ctx, c) = (Done ctx', c) \<and> client_status ctx' = Some 500) \<or>
    (\<exists>body. body_of reads = Some body \<and> (body = [] \<or> int (length body) \<le> fa_maxReqBodySize a) \<and>
      FastCGIAction_HandleRequest w a reads (ctx, c) = fcgi_exchange w a body (int (length body)) (ctx, c))"
proof -
  let ?new = "NewSpillBuffer (fa_reqBodyMemBufSize a) (fa_maxReqBodySize a)"
  have new: "spill_ok ?new" "spill_content ?new = []" using NewSpillBuffer_ok [OF assms(2)] by simp_all
  obtain e n buf where copy: "io_Copy (fw_reqOpen w) ?new reads 0 = ((e, n), buf)" by (metis prod.exhaust)
  obtain ctx' where err: "ReplyError (fw_reason w) 500 ctx = Done ctx'" "client_status ctx' = Some 500"
    using ReplyError2_sent [OF assms(1), of 500] by (force simp: ReplyError_def)
  show ?thesis
  proof (cases e)
    case (Some x)
    then show ?thesis using copy err by (simp add: FastCGIAction_HandleRequest_def)
  next
    case None
    then obtain body where body: "body_of reads = Some body" "spill_content buf = body" "spill_ok buf" "n = int (length body)" "sb_maxBufferSize buf = fa_maxReqBodySize a"
      using io_Copy_body [OF new(1) assms(3), of "fw_reqOpen w" n buf] copy new(2) by (auto simp: NewSpillBuffer_def)
    show ?thesis
    proof (cases "SpillBuffer_Reader (fw_reqRead w) buf")
      case (Inl x)
      then show ?thesis using copy None err by (simp add: FastCGIAction_HandleRequest_def)
    next
      case (Inr bs)
      moreover have "body = [] \<or> int (length body) \<le> fa_maxReqBodySize a"
        using body by (auto simp: spill_ok_def)
      ultimately show ?thesis using copy None body Reader_Inr [OF Inr]
        by (intro disjI2) (simp add: FastCGIAction_HandleRequest_def)
    qed
  qed
qed

text \<open>The body of a request is buffered first: either the answer is an internal error and the
  client has not been used, or the whole body was read, it fits in the maximal size, it is
  what the application gets on its standard input, and the length announced to the
  application is that of the body.\<close>

theorem fastcgi_body_buffered:
  assumes "client_status ctx = None" "fa_maxReqBodySize a < 2 ^ 62"
    "list_all (\<lambda>(data, _). length data \<le> MaxUint16) reads"
  shows "(\<exists>ctx'. FastCGIAction_HandleRequest w a reads (ctx, c) = (Done ctx', c) \<and> client_status ctx' = Some 500) \<or>
    (\<exists>body. body_of reads = Some body \<and> (body = [] \<or> int (length body) \<le> fa_maxReqBodySize a) \<and>
      FastCGIAction_HandleRequest w a reads (ctx, c) = fcgi_exchange w a body (int (length body)) (ctx, c))"
  by (rule HandleRequest_buffered [OF assms])

text \<open>The end of the action, when the buffer of the response can be read.\<close>

lemma fcgi_reply_body:
  assumes "client_status ctx = None" "spill_ok buf" "fw_resRead w = None"
    "fst (Header_Status (fw_eqf w) h) \<ge> 200" "room (rw_out (ctx_Writer ctx)) = None"
  shows "\<exists>ctx' hh. fcgi_reply w h buf ctx = Done ctx' \<and>
    rw_sent (ctx_Writer ctx') = Some (fst (Header_Status (fw_eqf w) h), hh) \<and>
    Values hh ''Content-Length'' = [Itoa (int (length (spill_content buf)))] \<and>
    sent (rw_out (ctx_Writer ctx')) = sent (rw_out (ctx_Writer ctx)) @ spill_content buf"
proof -
  have "fst (Header_Status (fw_eqf w) h) \<le> 999"
    by (auto simp: Header_Status_def Let_def split: option.splits prod.splits)
  moreover have "SpillBuffer_Size buf = int (length (spill_content buf))"
    using assms(2) by (simp add: SpillBuffer_Size_def spill_ok_def)
  moreover have "string_of bs = [] \<longleftrightarrow> bs = []" for bs by (simp add: string_of_def)
  ultimately show ?thesis using assms(1,3,4,5)
    by (cases "spill_content buf = []")
      (auto simp: fcgi_reply_def Reader_content Reply_def set_var_def ResponseWriter_WriteHeader_def
        net_WriteHeader_def client_status_def ResponseWriter_Write_def Let_def Values_def SetField_def)
qed

text \<open>The request over an idle connection: what the application gets, and what is stored of its answer.\<close>

lemma sendRequest_over_idle:
  assumes "pool_quiet c" "idleConns c = [k]" "at_ctx a1 = None" "NameValuePairs_Encode params = Inr pd"
    "room (conn_out (store c k)) = None"
    "conn_in (store c k) = \<lparr>rdata = frame (output_record i (Stdout d)) @ output_frames i os @
      frame (end_record i 0 ProtocolStatusRequestComplete) @ rest, rerr = e\<rparr>"
    "Header_Parse empty_Header d = Inr (HeaderEnd body, h)" "length d \<le> MaxUint16" "list_all output_fits os"
    "spill_ok new" "spill_content new = []"
  obtains (stored) buf se c' where
      "Client_sendRequest (spill_write resOpen) RoleResponder params a1
        \<lparr>rq_stdin = Some (bytes_reader stdin), rq_data = None, rq_stdout = new, rq_stderr = []\<rparr> c =
       Some (Inr h, \<lparr>rq_stdin = Some [], rq_data = None, rq_stdout = buf, rq_stderr = se\<rparr>, c')"
      "spill_ok buf" "spill_content buf = body @ stdout_of os"
      "delivers (conn_out (store c k)) (conn_out (store c' k))
        (request_records RoleResponder pd (Some (bytes_reader stdin)) None 1)"
  | (failed) x rq' c' where
      "Client_sendRequest (spill_write resOpen) RoleResponder params a1
        \<lparr>rq_stdin = Some (bytes_reader stdin), rq_data = None, rq_stdout = new, rq_stderr = []\<rparr> c =
       Some (Inl (RequestError (CannotWriteStdout x)), rq', c')"
      "delivers (conn_out (store c k)) (conn_out (store c' k))
        (request_records RoleResponder pd (Some (bytes_reader stdin)) None 1)"
proof -
  let ?rq = "\<lparr>rq_stdin = Some (bytes_reader stdin), rq_data = None, rq_stdout = new, rq_stderr = []\<rparr>"
  let ?wr = "spill_write resOpen" and ?cn = "store c k"
  obtain r st' rd' where res: "readResponse ?wr (conn_in ?cn) (start_response (conn_values ?cn) new []) = (r, st', rd')"
    by (metis prod.exhaust)
  obtain out where out: "(writeRequest RoleResponder params (Some (bytes_reader stdin)) None 1 (conn_out ?cn)
      :: spill_error conn_error option \<times> stream option \<times> stream option \<times> writer) = (None, Some [], None, out)"
    "delivers (conn_out ?cn) out (request_records RoleResponder pd (Some (bytes_reader stdin)) None 1)"
    using writeRequest_delivers [OF assms(4) _ _ assms(5), of "Some (bytes_reader stdin)" None RoleResponder 1]
      bytes_reader_clean by force
  from spill.response_stored [OF assms(7,8,9,10) res [unfolded assms(6)]]
  have r: "r = Inr h \<and> spill_ok (res_stdout st') \<and> spill_content (res_stdout st') = body @ stdout_of os \<or>
      (\<exists>x. r = Inl (CannotWriteStdout x))" using assms(11) by auto
  have acq: "acquireConnection a1 c = Some (Inr (Some k) :: spill_error client_error + nat option,
      c\<lparr>idleConns := [], usedConns := [k]\<rparr>)"
    using assms(1,2) by (simp add: acquireConnection_def acquire_locked_def pool_quiet_def Let_def)
  have conn: "Connection_SendRequest (at_ctx a1) ?wr RoleResponder params (exchange_of ?rq ?cn) =
      (r, \<lparr>ex_stdin = Some [], ex_data = None, ex_stdout = res_stdout st', ex_stderr = res_stderr st',
        ex_conn = ?cn\<lparr>conn_out := out, conn_in := rd', conn_values := res_values st'\<rparr>\<rparr>)"
    using assms(3) out(1) res
    by (simp add: Connection_SendRequest_def Connection_exchange_def exchange_of_def Let_def)
  note defs = Client_sendRequest_def acq request_of_def releaseConnection_def release_delete_def release_put_def update_conn_def
  from r show thesis
  proof
    assume r: "r = Inr h \<and> spill_ok (res_stdout st') \<and> spill_content (res_stdout st') = body @ stdout_of os"
    then show thesis using assms(1,2) conn out(2) stored by (simp add: defs pool_quiet_def)
  next
    assume "\<exists>x. r = Inl (CannotWriteStdout x)"
    then show thesis using conn out(2) failed by (auto simp: defs Connection_Close_def)
  qed
qed


lemma fcgi_reply_answers:
  assumes "client_status ctx = None" "fst (Header_Status (fw_eqf w) h) \<ge> 200"
  shows "\<exists>ctx' s. fcgi_reply w h buf ctx = Done ctx' \<and> client_status ctx' = Some s \<and> s \<ge> 200"
proof -
  have le: "fst (Header_Status (fw_eqf w) h) \<le> 999"
    by (auto simp: Header_Status_def Let_def split: option.splits prod.splits)
  show ?thesis
  proof (cases "SpillBuffer_Reader (fw_resRead w) buf")
    case (Inl e)
    then show ?thesis using ReplyError2_sent [OF assms(1), of 500] by (force simp: fcgi_reply_def ReplyError_def)
  next
    case (Inr bs)
    define hh where "hh = SetField (CopyToHTTPHeader (fw_uni w) (Fields h) (rw_header (ctx_Writer ctx))) ''Content-Length''
      (Itoa (SpillBuffer_Size buf))"
    have "client_status (ctx\<lparr>ctx_Writer := (ctx_Writer ctx)\<lparr>rw_header := hh\<rparr>\<rparr>) = None"
      using assms(1) by (simp add: client_status_def)
    from Reply_sent [OF this assms(2) le, of "Some (string_of bs)"] show ?thesis
      using Inr assms(2) by (auto simp: fcgi_reply_def Let_def hh_def)
  qed
qed

lemma error_status_cases: "error_status e \<in> {500, 503, 504}"
  by (cases e rule: error_status.cases) simp_all


text \<open>The path information is wrong: the expression of the scripts is matched against the path
  with its leading slash but the match is taken off the path without it, so nothing is taken
  off. A request for a script with more path after it gets the whole path, the script
  included, as its path information.\<close>

theorem path_info_keeps_script:
  assumes "fa_scriptRE a = Some re" "re (''/'' @ script @ extra) = ''/'' @ script" "script \<noteq> []" "hd script \<noteq> CHR ''/''"
  shows "script_and_path a (script @ extra) = (script, path_Join [''/'', script @ extra])"
proof -
  have "TrimPrefix (script @ extra) (''/'' @ script) = script @ extra"
    using assms(3,4) by (cases script) (auto simp: TrimPrefix_def)
  moreover have "TrimPrefix (''/'' @ script) ''/'' = script" by (rule TrimPrefix_append)
  ultimately show ?thesis using assms(1-3) by (simp add: script_and_path_def Let_def)
qed
section \<open>Witnesses\<close>

text \<open>A handler for scripts of one application.\<close>

definition example_cfg :: FastCGIActionCfg where
  "example_cfg = \<lparr>fc_Parameters = [(''A'', ''1'')], fc_Path = ''/srv'', fc_DefaultScript = ''i'', fc_ScriptRegexp = [],
     fc_TemporaryDirectory = ''/tmp'', fc_RequestBodyMemoryBufferSize = None, fc_MaxRequestBodySize = Some 4,
     fc_ResponseBodyMemoryBufferSize = None, fc_MaxResponseBodySize = Some 8, fc_RequestTimeout = None\<rparr>"

definition example_action :: FastCGIAction where
  "example_action = \<lparr>fa_Cfg = example_cfg, fa_scriptRE = None, fa_tmpDirPath = ''/tmp'', fa_reqBodyMemBufSize = 4,
     fa_maxReqBodySize = 4, fa_resBodyMemBufSize = 4, fa_maxResBodySize = 8, fa_requestTimeout = 1\<rparr>"

definition example_attempt :: attempt where
  "example_attempt = \<lparr>at_pick = 0, at_ctxFirst = False, at_dial = Inl EOF, at_ctx = None\<rparr>"

definition example_world :: fcgi_world where
  "example_world = \<lparr>fw_reqOpen = Inl EOF, fw_reqRead = None, fw_resOpen = Inl EOF, fw_resRead = None,
     fw_attempt1 = example_attempt, fw_attempt2 = example_attempt, fw_order = rev, fw_uni = (\<lambda>s. s),
     fw_eqf = (\<lambda>_ _. False), fw_reason = (\<lambda>_. ''r''), fw_port = 80, fw_build = ''b''\<rparr>"

definition example_request :: Request where
  "example_request = \<lparr>ReqMethod = ''GET'', UrlPath = ''/p'', UrlRawQuery = [], UrlHost = [], UrlText = ''/p'',
     ReqProto = ''HTTP/1.1'', ProtoMajor = 1, ProtoMinor = 1, ReqHeader = [], ReqHost = ''h'', RemoteAddr = ''1.2.3.4:5'',
     ReqTLS = False\<rparr>"

definition example_ctx :: "unit RequestContext" where
  "example_ctx = NewRequestContext (\<lambda>s. s) example_request \<lparr>sent = [], room = None, werr = EOF\<rparr>"

lemma example_simps [simp]:
  "client_status example_ctx = None" "room (rw_out (ctx_Writer example_ctx)) = None"
  "fa_maxReqBodySize example_action = 4" "fa_maxResBodySize example_action = 8"
  "ctx_Request example_ctx = example_request" "ReqHeader example_request = []"
  by (simp_all add: example_ctx_def client_status_def NewRequestContext_def NewResponseWriter_def example_action_def
      example_request_def)



theorem fastcgi_body_buffered_witness:
  "\<exists>ctx'. FastCGIAction_HandleRequest example_world example_action [([1, 2, 3], None), ([4, 5], None)]
      (example_ctx, NewClient None) = (Done ctx', NewClient None) \<and> client_status ctx' = Some 500"
  using fastcgi_body_buffered [of example_ctx example_action "[([1, 2, 3], None), ([4, 5], None)]" example_world "NewClient None"]
  by (simp add: MaxUint16_def)


theorem path_info_keeps_script_witness:
  "script_and_path (example_action\<lparr>fa_scriptRE := Some (\<lambda>s. take 6 s)\<rparr>) ''i.php/a'' = (''i.php'', ''/i.php/a'')"
proof -
  have "path_Join [''/'', ''i.php/a''] = ''/i.php/a''" by code_simp
  then show ?thesis
    using path_info_keeps_script [of "example_action\<lparr>fa_scriptRE := Some (\<lambda>s. take 6 s)\<rparr>" "\<lambda>s. take 6 s" "''i.php''" "''/a''"]
    by simp
qed

text \<open>An application that answers with the header \<open>A: B\<close> and the body \<open>hi\<close>.\<close>

definition example_client :: Client where
  "example_client = (NewClient None)\<lparr>idleConns := [0], nextConn := 1,
     store := (\<lambda>_. \<lparr>conn_in = \<lparr>rdata = frame (output_record 1 (Stdout [65, 58, 66, 10, 10, 104])) @
         output_frames 1 [Stdout [105]] @ frame (end_record 1 0 ProtocolStatusRequestComplete) @ [], rerr = EOF\<rparr>,
       conn_out = \<lparr>sent = [], room = None, werr = EOF\<rparr>, conn_open = True, conn_values = []\<rparr>)\<rparr>"


end
