(* ===== verification/Load_Balancer.thy ===== *)
theory Load_Balancer
  imports Addresses
begin

text \<open>
  Health probes and load balancers: \<open>src/pkg/boulevard/health_probe.go\<close> and
  \<open>load_balancer.go\<close>. The network outcomes of the tests of a probe are arguments. The
  goroutine that watches a server is the step \<open>watch_tick\<close>, run at each tick of its ticker.
\<close>

section \<open>Health probes\<close>

datatype HealthProbeState =
    HealthProbeStateSuccessful
  | HealthProbeStateFailing
  | HealthProbeStateFailed
  | HealthProbeStateRecovering

datatype health_error =
    CannotConnectTo io_error
  | CannotCreateHTTPRequest string
  | CannotSendHTTPRequest io_error
  | UnexpectedStatus int int

datatype HealthTest = TCPHealthTest | HTTPHealthTest string string int

text \<open>The outcome of a test: of dialing, or of creating the request and sending it, which
  gives the status of the response.\<close>

datatype test_outcome = Dialed "io_error option" | NoRequest string | Responded "io_error + int"

fun HealthTest_Execute :: "HealthTest \<Rightarrow> test_outcome \<Rightarrow> health_error option" where
  "HealthTest_Execute TCPHealthTest (Dialed err) = map_option CannotConnectTo err"
| "HealthTest_Execute (HTTPHealthTest _ _ expected) (NoRequest e) = Some (CannotCreateHTTPRequest e)"
| "HealthTest_Execute (HTTPHealthTest _ _ expected) (Responded (Inl e)) = Some (CannotSendHTTPRequest e)"
| "HealthTest_Execute (HTTPHealthTest _ _ expected) (Responded (Inr status)) =
     (if status \<noteq> expected then Some (UnexpectedStatus status expected) else None)"
| "HealthTest_Execute _ _ = None"

record HealthProbeCfg =
  SuccessThreshold :: int
  FailureThreshold :: int
  ProbeTCP :: bool
  ProbeHTTP :: "(string \<times> string \<times> int) option"

record HealthProbe =
  hp_cfg :: HealthProbeCfg
  hp_tests :: "HealthTest list"
  hp_state :: HealthProbeState
  hp_count :: int

definition NewHealthProbe :: "HealthProbeCfg \<Rightarrow> HealthProbe" where
  "NewHealthProbe cfg = \<lparr>hp_cfg = cfg,
     hp_tests = (if ProbeTCP cfg then [TCPHealthTest] else []) @
       (case ProbeHTTP cfg of Some (method, path, status) \<Rightarrow> [HTTPHealthTest method path status] | None \<Rightarrow> []),
     hp_state = HealthProbeStateSuccessful, hp_count = 0\<rparr>"

text \<open>The tests run in order up to the first that fails.\<close>

fun run_tests :: "(HealthTest \<Rightarrow> test_outcome) \<Rightarrow> HealthTest list \<Rightarrow> health_error option" where
  "run_tests outcome [] = None"
| "run_tests outcome (t # ts) = (case HealthTest_Execute t (outcome t) of
     Some e \<Rightarrow> Some e | None \<Rightarrow> run_tests outcome ts)"

definition probe_step :: "bool \<Rightarrow> HealthProbe \<Rightarrow> HealthProbe" where
  "probe_step successful p = (case hp_state p of
     HealthProbeStateSuccessful \<Rightarrow>
       if \<not> successful then p\<lparr>hp_state := HealthProbeStateFailing, hp_count := 1\<rparr> else p
   | HealthProbeStateFailing \<Rightarrow>
       if successful then p\<lparr>hp_state := HealthProbeStateSuccessful, hp_count := 0\<rparr>
       else let p = p\<lparr>hp_count := wrap64 (hp_count p + 1)\<rparr>
            in if hp_count p \<ge> FailureThreshold (hp_cfg p) then p\<lparr>hp_state := HealthProbeStateFailed\<rparr> else p
   | HealthProbeStateFailed \<Rightarrow>
       if successful then p\<lparr>hp_state := HealthProbeStateRecovering, hp_count := 1\<rparr> else p
   | HealthProbeStateRecovering \<Rightarrow>
       if successful then
         let p = p\<lparr>hp_count := wrap64 (hp_count p + 1)\<rparr>
         in if hp_count p \<ge> SuccessThreshold (hp_cfg p) then p\<lparr>hp_state := HealthProbeStateSuccessful\<rparr> else p
       else p\<lparr>hp_state := HealthProbeStateFailed, hp_count := 0\<rparr>)"

definition probe_ok :: "HealthProbe \<Rightarrow> bool" where
  "probe_ok p \<longleftrightarrow> hp_state p = HealthProbeStateSuccessful \<or> hp_state p = HealthProbeStateFailing"

definition HealthProbe_Execute ::
  "(HealthTest \<Rightarrow> test_outcome) \<Rightarrow> HealthProbe \<Rightarrow> (bool \<times> health_error option) \<times> HealthProbe" where
  "HealthProbe_Execute outcome p =
     (let err = run_tests outcome (hp_tests p);
          p' = probe_step (err = None) p
      in ((probe_ok p', err), p'))"

section \<open>Load balancers\<close>

record LoadBalancerServer =
  lbs_Address :: HostAddress
  lbs_healthy :: bool
  lbs_probe :: "HealthProbe option"

record LoadBalancer =
  lb_Servers :: "LoadBalancerServer list"
  lb_next :: nat

definition StartLoadBalancer :: "HostAddress list \<Rightarrow> HealthProbeCfg option \<Rightarrow> LoadBalancer" where
  "StartLoadBalancer addresses probeCfg = \<lparr>
     lb_Servers = map (\<lambda>address. \<lparr>lbs_Address = address, lbs_healthy = True,
       lbs_probe = map_option NewHealthProbe probeCfg\<rparr>) addresses,
     lb_next = 0\<rparr>"

text \<open>One tick of \<open>watchServerHealth\<close> for a server that has a probe.\<close>

definition watch_tick :: "(HealthTest \<Rightarrow> test_outcome) \<Rightarrow> LoadBalancerServer \<Rightarrow> LoadBalancerServer" where
  "watch_tick outcome s = (case lbs_probe s of
     None \<Rightarrow> s
   | Some probe \<Rightarrow>
       let wasHealthy = lbs_healthy s; ((healthy, err), probe') = HealthProbe_Execute outcome probe;
           s = s\<lparr>lbs_probe := Some probe'\<rparr>
       in if wasHealthy \<and> \<not> healthy then s\<lparr>lbs_healthy := False\<rparr>
          else if \<not> wasHealthy \<and> healthy then s\<lparr>lbs_healthy := True\<rparr>
          else s)"

text \<open>
  The loop of \<open>Address\<close>, at most \<open>k\<close> iterations; \<open>None\<close> is an index out of range, which
  panics, or no iteration left. The index comes back to the first one after as many
  iterations as there are servers, so \<open>k = length servers\<close> is enough.
\<close>

fun address_loop :: "nat \<Rightarrow> LoadBalancerServer list \<Rightarrow> nat \<Rightarrow> nat \<Rightarrow> (string \<times> nat) option" where
  "address_loop 0 servers first nxt = None"
| "address_loop (Suc k) servers first nxt =
     (if nxt \<ge> length servers then None
      else let server = servers ! nxt; nxt = (nxt + 1) mod length servers in
        if lbs_healthy server then Some (HostAddress_String (lbs_Address server), nxt)
        else if nxt = first then Some ([], nxt)
        else address_loop k servers first nxt)"

definition LoadBalancer_Address :: "LoadBalancer \<Rightarrow> (string \<times> LoadBalancer) option" where
  "LoadBalancer_Address lb =
     map_option (\<lambda>(address, nxt). (address, lb\<lparr>lb_next := nxt\<rparr>))
       (address_loop (length (lb_Servers lb)) (lb_Servers lb) (lb_next lb) (lb_next lb))"

section \<open>Probes over sequences of outcomes\<close>

definition run_probe :: "bool list \<Rightarrow> HealthProbe \<Rightarrow> HealthProbe" where
  "run_probe outcomes p = foldl (\<lambda>p successful. probe_step successful p) p outcomes"

lemma run_probe_simps [simp]:
  "run_probe [] p = p" "run_probe (b # bs) p = run_probe bs (probe_step b p)"
  by (simp_all add: run_probe_def)

lemma probe_cfg [simp]: "hp_cfg (probe_step b p) = hp_cfg p"
  by (auto simp: probe_step_def Let_def split: HealthProbeState.splits)

lemma failed_stays: "hp_state p = HealthProbeStateFailed \<Longrightarrow> run_probe (replicate k False) p = p"
  by (induction k arbitrary: p) (simp_all add: probe_step_def)

lemma successful_stays: "hp_state p = HealthProbeStateSuccessful \<Longrightarrow> run_probe (replicate k True) p = p"
  by (induction k arbitrary: p) (simp_all add: probe_step_def)

lemma failing_run:
  "\<lbrakk>hp_state p = HealthProbeStateFailing; 1 \<le> hp_count p; hp_count p + int k < 2 ^ 63\<rbrakk> \<Longrightarrow>
    probe_ok (run_probe (replicate k False) p) \<longleftrightarrow> k = 0 \<or> hp_count p + int k < FailureThreshold (hp_cfg p)"
proof (induction k arbitrary: p)
  case 0
  then show ?case by (simp add: probe_ok_def)
next
  case (Suc k)
  have w: "wrap64 (hp_count p + 1) = hp_count p + 1" using Suc.prems by (simp add: int64_def)
  show ?case
  proof (cases "hp_count p + 1 \<ge> FailureThreshold (hp_cfg p)")
    case True
    let ?p = "p\<lparr>hp_count := hp_count p + 1, hp_state := HealthProbeStateFailed\<rparr>"
    have "run_probe (replicate (Suc k) False) p = run_probe (replicate k False) ?p"
      using Suc.prems(1) True w by (simp add: probe_step_def)
    then show ?thesis using failed_stays [of ?p k] True by (simp add: probe_ok_def)
  next
    case False
    let ?p = "p\<lparr>hp_count := hp_count p + 1\<rparr>"
    have "run_probe (replicate (Suc k) False) p = run_probe (replicate k False) ?p"
      using Suc.prems(1) False w by (simp add: probe_step_def)
    then show ?thesis using Suc.IH [of ?p] Suc.prems False by auto
  qed
qed

lemma recovering_run:
  "\<lbrakk>hp_state p = HealthProbeStateRecovering; 1 \<le> hp_count p; hp_count p + int k < 2 ^ 63\<rbrakk> \<Longrightarrow>
    probe_ok (run_probe (replicate k True) p) \<longleftrightarrow> k \<noteq> 0 \<and> hp_count p + int k \<ge> SuccessThreshold (hp_cfg p)"
proof (induction k arbitrary: p)
  case 0
  then show ?case by (simp add: probe_ok_def)
next
  case (Suc k)
  have w: "wrap64 (hp_count p + 1) = hp_count p + 1" using Suc.prems by (simp add: int64_def)
  show ?case
  proof (cases "hp_count p + 1 \<ge> SuccessThreshold (hp_cfg p)")
    case True
    let ?p = "p\<lparr>hp_count := hp_count p + 1, hp_state := HealthProbeStateSuccessful\<rparr>"
    have "run_probe (replicate (Suc k) True) p = run_probe (replicate k True) ?p"
      using Suc.prems(1) True w by (simp add: probe_step_def)
    then show ?thesis using successful_stays [of ?p k] True by (simp add: probe_ok_def)
  next
    case False
    let ?p = "p\<lparr>hp_count := hp_count p + 1\<rparr>"
    have "run_probe (replicate (Suc k) True) p = run_probe (replicate k True) ?p"
      using Suc.prems(1) False w by (simp add: probe_step_def)
    then show ?thesis using Suc.IH [of ?p] Suc.prems False by auto
  qed
qed

section \<open>The rotation of the servers\<close>

text \<open>The servers in the order in which the next calls of \<open>Address\<close> look at them.\<close>

definition rotation :: "LoadBalancer \<Rightarrow> LoadBalancerServer list" where
  "rotation lb = rotate (lb_next lb) (lb_Servers lb)"

definition lb_ok :: "LoadBalancer \<Rightarrow> bool" where
  "lb_ok lb \<longleftrightarrow> lb_next lb < length (lb_Servers lb)"

lemma StartLoadBalancer_ok: "addresses \<noteq> [] \<Longrightarrow> lb_ok (StartLoadBalancer addresses probe)"
  by (simp add: lb_ok_def StartLoadBalancer_def)

lemma next_is_first:
  assumes "first < n" "j < n"
  shows "((first + j) mod n + 1) mod n = (first + Suc j) mod n" "(first + Suc j) mod n = first \<longleftrightarrow> Suc j = n"
proof -
  show "((first + j) mod n + 1) mod n = (first + Suc j) mod n" by (simp add: mod_Suc_eq)
  show "(first + Suc j) mod n = first \<longleftrightarrow> Suc j = n"
  proof (cases "first + Suc j < n")
    case False
    then have "(first + Suc j) mod n = first + Suc j - n"
      using assms by (subst mod_if) (simp add: le_mod_geq)
    then show ?thesis using assms False by auto
  qed (use assms in auto)
qed

lemma address_loop_find:
  assumes "first < length servers" "j < length servers"
  shows "address_loop (length servers - j) servers first ((first + j) mod length servers) =
    (case find (\<lambda>i. lbs_healthy (rotate first servers ! i)) [j..<length servers] of
       Some i \<Rightarrow> Some (HostAddress_String (lbs_Address (rotate first servers ! i)), (first + Suc i) mod length servers)
     | None \<Rightarrow> Some ([], first))"
  using assms(2)
proof (induction "length servers - j" arbitrary: j)
  case (Suc k)
  let ?n = "length servers"
  have k: "?n - j = Suc k" "k = ?n - Suc j" using Suc.hyps(2) by simp_all
  have nth: "servers ! ((first + j) mod ?n) = rotate first servers ! j"
    using Suc.prems by (simp add: nth_rotate add.commute)
  have lt: "(first + j) mod ?n < ?n" using Suc.prems by (intro mod_less_divisor) linarith
  note nx = next_is_first [OF assms(1) Suc.prems]
  show ?case
  proof (cases "lbs_healthy (rotate first servers ! j) \<or> Suc j = ?n")
    case True
    then show ?thesis using nth lt nx Suc.prems
      by (auto simp: k(1) upt_conv_Cons Let_def simp del: rotate_Suc)
  next
    case False
    then have "Suc j < ?n" using Suc.prems by simp
    then show ?thesis using nth lt nx False Suc.prems Suc.hyps(1) [OF k(2)]
      by (simp add: k(1) upt_conv_Cons Let_def flip: k(2))
  qed
qed simp

lemma LoadBalancer_Address_rotation:
  assumes "lb_ok lb"
  shows "LoadBalancer_Address lb = (case find (\<lambda>i. lbs_healthy (rotation lb ! i)) [0..<length (lb_Servers lb)] of
       Some i \<Rightarrow> Some (HostAddress_String (lbs_Address (rotation lb ! i)),
         lb\<lparr>lb_next := (lb_next lb + Suc i) mod length (lb_Servers lb)\<rparr>)
     | None \<Rightarrow> Some ([], lb))"
proof -
  have "address_loop (length (lb_Servers lb)) (lb_Servers lb) (lb_next lb) (lb_next lb) =
      (case find (\<lambda>i. lbs_healthy (rotation lb ! i)) [0..<length (lb_Servers lb)] of
         Some i \<Rightarrow> Some (HostAddress_String (lbs_Address (rotation lb ! i)), (lb_next lb + Suc i) mod length (lb_Servers lb))
       | None \<Rightarrow> Some ([], lb_next lb))"
    using address_loop_find [of "lb_next lb" "lb_Servers lb" 0] assms
    unfolding rotation_def lb_ok_def by (cases "lb_Servers lb = []") simp_all
  then show ?thesis by (simp add: LoadBalancer_Address_def split: option.split)
qed

lemma LoadBalancer_Address_healthy:
  assumes "lb_ok lb" "rotation lb = pre @ s # post" "\<forall>x \<in> set pre. \<not> lbs_healthy x" "lbs_healthy s"
  shows "\<exists>lb'. LoadBalancer_Address lb = Some (HostAddress_String (lbs_Address s), lb') \<and> lb_ok lb' \<and>
    lb_Servers lb' = lb_Servers lb \<and> rotation lb' = post @ pre @ [s]"
proof -
  let ?n = "length (lb_Servers lb)" and ?i = "length pre"
  have n: "length (rotation lb) = ?n" by (simp add: rotation_def)
  then have i: "?i < ?n" using assms(2) by auto
  have at: "rotation lb ! ?i = s" "\<And>j. j < ?i \<Longrightarrow> \<not> lbs_healthy (rotation lb ! j)"
    using assms(2,3) by (auto simp: nth_append)
  have "find (\<lambda>i. lbs_healthy (rotation lb ! i)) [0..<?n] = Some ?i"
    unfolding find_Some_iff using i at assms(4) by (intro exI [of _ ?i]) auto
  then have adr: "LoadBalancer_Address lb = Some (HostAddress_String (lbs_Address s),
      lb\<lparr>lb_next := (lb_next lb + Suc ?i) mod ?n\<rparr>)"
    using LoadBalancer_Address_rotation [OF assms(1)] at(1) by simp
  have "rotate (Suc ?i) (rotation lb) = post @ pre @ [s]"
    using rotate_append [of "pre @ [s]" post] assms(2) by simp
  then have "rotate ((lb_next lb + Suc ?i) mod ?n) (lb_Servers lb) = post @ pre @ [s]"
    by (simp add: rotation_def rotate_rotate add.commute flip: rotate_conv_mod del: rotate_Suc)
  moreover have "(lb_next lb + Suc ?i) mod ?n < ?n" using i by (intro mod_less_divisor) linarith
  ultimately show ?thesis using adr
    by (intro exI [of _ "lb\<lparr>lb_next := (lb_next lb + Suc ?i) mod ?n\<rparr>"])
      (simp add: rotation_def lb_ok_def del: rotate_Suc add_Suc_right)
qed

text \<open>The results of several calls.\<close>

fun take_addresses :: "nat \<Rightarrow> LoadBalancer \<Rightarrow> string list" where
  "take_addresses 0 lb = []"
| "take_addresses (Suc m) lb = (case LoadBalancer_Address lb of
     None \<Rightarrow> [] | Some (address, lb') \<Rightarrow> address # take_addresses m lb')"

lemma take_addresses_healthy:
  "\<lbrakk>lb_ok lb; m \<le> length (filter lbs_healthy (rotation lb))\<rbrakk> \<Longrightarrow>
    take_addresses m lb = map (\<lambda>s. HostAddress_String (lbs_Address s)) (take m (filter lbs_healthy (rotation lb)))"
proof (induction m arbitrary: lb)
  case (Suc m)
  have "filter lbs_healthy (rotation lb) \<noteq> []" using Suc.prems(2) by auto
  then have "\<exists>x \<in> set (rotation lb). lbs_healthy x" by (auto simp: filter_empty_conv)
  then obtain pre s post where r: "rotation lb = pre @ s # post" "lbs_healthy s" "\<forall>x \<in> set pre. \<not> lbs_healthy x"
    using split_list_first_prop [of "rotation lb" lbs_healthy] by blast
  obtain lb' where lb': "LoadBalancer_Address lb = Some (HostAddress_String (lbs_Address s), lb')"
    "lb_ok lb'" "rotation lb' = post @ pre @ [s]"
    using LoadBalancer_Address_healthy [OF Suc.prems(1) r(1,3,2)] by blast
  have h: "filter lbs_healthy (rotation lb) = s # filter lbs_healthy post"
    "filter lbs_healthy (rotation lb') = filter lbs_healthy post @ [s]"
    using r lb'(3) by (simp_all add: filter_False)
  then show ?case using Suc.IH [OF lb'(2)] Suc.prems(2) lb'(1) by simp
qed simp

section \<open>Properties\<close>

text \<open>C31: The load balancer is fair: starting anywhere, as many calls as there are healthy servers
  return each of them exactly once, in the order of the rotation, and never an unhealthy one.\<close>

theorem load_balancer_fair:
  assumes "lb_ok lb" "m \<le> length (filter lbs_healthy (rotation lb))"
  shows "take_addresses m lb =
    map (\<lambda>s. HostAddress_String (lbs_Address s)) (take m (filter lbs_healthy (rotation lb)))"
  by (rule take_addresses_healthy [OF assms])

theorem load_balancer_fair_witness:
  "take_addresses 2 \<lparr>lb_Servers = [
      \<lparr>lbs_Address = \<lparr>Hostname = ''a'', HostIP = [], HostPort = 1\<rparr>, lbs_healthy = True, lbs_probe = None\<rparr>,
      \<lparr>lbs_Address = \<lparr>Hostname = ''b'', HostIP = [], HostPort = 1\<rparr>, lbs_healthy = False, lbs_probe = None\<rparr>,
      \<lparr>lbs_Address = \<lparr>Hostname = ''c'', HostIP = [], HostPort = 1\<rparr>, lbs_healthy = True, lbs_probe = None\<rparr>],
      lb_next = 1\<rparr> = [''c:1'', ''a:1'']"
proof -
  have "dec_nat 1 = ''1''" by code_simp
  then show ?thesis
    by (subst load_balancer_fair)
      (simp_all add: lb_ok_def rotation_def HostAddress_String_def JoinHostPort_def Itoa_def)
qed

text \<open>\<open>Address\<close> always returns: the address of the first healthy server in the order of the
  rotation, moving past it, or the empty string when no server is healthy, in which case the
  rotation is left as it was.\<close>

theorem load_balancer_address:
  assumes "lb_ok lb"
  shows "LoadBalancer_Address lb = (case find (\<lambda>i. lbs_healthy (rotation lb ! i)) [0..<length (lb_Servers lb)] of
       Some i \<Rightarrow> Some (HostAddress_String (lbs_Address (rotation lb ! i)),
         lb\<lparr>lb_next := (lb_next lb + Suc i) mod length (lb_Servers lb)\<rparr>)
     | None \<Rightarrow> Some ([], lb))"
  by (rule LoadBalancer_Address_rotation [OF assms])

theorem load_balancer_address_witness:
  "LoadBalancer_Address \<lparr>lb_Servers = [
      \<lparr>lbs_Address = \<lparr>Hostname = ''a'', HostIP = [], HostPort = 1\<rparr>, lbs_healthy = False, lbs_probe = None\<rparr>],
      lb_next = 0\<rparr> = Some ([], \<lparr>lb_Servers = [
      \<lparr>lbs_Address = \<lparr>Hostname = ''a'', HostIP = [], HostPort = 1\<rparr>, lbs_healthy = False, lbs_probe = None\<rparr>],
      lb_next = 0\<rparr>)"
  by (subst load_balancer_address) (simp_all add: lb_ok_def rotation_def)

text \<open>A healthy server is disabled after as many consecutive failures as the failure threshold,
  and a failed one is enabled again after as many successes as the success threshold, except
  that two are always needed: the first failure and the first success only change the state
  of the probe without a look at the threshold, so a threshold of 1, the default, behaves as 2.\<close>

theorem probe_thresholds:
  assumes "int k < 2 ^ 63"
  shows "(hp_state p = HealthProbeStateSuccessful \<longrightarrow>
      (probe_ok (run_probe (replicate k False) p) \<longleftrightarrow> int k < max 2 (FailureThreshold (hp_cfg p)))) \<and>
    (hp_state p = HealthProbeStateFailed \<longrightarrow>
      (probe_ok (run_probe (replicate k True) p) \<longleftrightarrow> int k \<ge> max 2 (SuccessThreshold (hp_cfg p))))"
proof (cases k)
  case 0
  then show ?thesis by (auto simp: probe_ok_def)
next
  case (Suc j)
  have fail: "probe_step False p = p\<lparr>hp_state := HealthProbeStateFailing, hp_count := 1\<rparr>"
    if "hp_state p = HealthProbeStateSuccessful" using that by (simp add: probe_step_def)
  have recover: "probe_step True p = p\<lparr>hp_state := HealthProbeStateRecovering, hp_count := 1\<rparr>"
    if "hp_state p = HealthProbeStateFailed" using that by (simp add: probe_step_def)
  show ?thesis
    using failing_run [of "p\<lparr>hp_state := HealthProbeStateFailing, hp_count := 1\<rparr>" j]
      recovering_run [of "p\<lparr>hp_state := HealthProbeStateRecovering, hp_count := 1\<rparr>" j] assms
    by (auto simp: Suc fail recover)
qed

theorem probe_thresholds_witness:
  "probe_ok (run_probe (replicate 1 False)
      (NewHealthProbe \<lparr>SuccessThreshold = 1, FailureThreshold = 1, ProbeTCP = True, ProbeHTTP = None\<rparr>)) \<and>
   \<not> probe_ok (run_probe (replicate 2 False)
      (NewHealthProbe \<lparr>SuccessThreshold = 1, FailureThreshold = 1, ProbeTCP = True, ProbeHTTP = None\<rparr>))"
proof -
  let ?p = "NewHealthProbe \<lparr>SuccessThreshold = 1, FailureThreshold = 1, ProbeTCP = True, ProbeHTTP = None\<rparr>"
  have "hp_state ?p = HealthProbeStateSuccessful" "FailureThreshold (hp_cfg ?p) = 1" by (simp_all add: NewHealthProbe_def)
  then show ?thesis using probe_thresholds [of 1 ?p] probe_thresholds [of 2 ?p] by auto
qed

end
