(* ===== verification/Tcp_Relay.thy ===== *)
theory Tcp_Relay
  imports Addresses "HOL-Library.Sublist"
begin

text \<open>
  The TCP protocol: \<open>src/pkg/protocols/tcp/protocol.go\<close> and \<open>connection.go\<close>. A connection is
  relayed by two goroutines, \<open>read\<close> from the client to the upstream server and \<open>write\<close> the
  other way round; they are the threads of the sides \<open>Client\<close> and \<open>Upstream\<close>. The step relation
  interleaves them with each other and with \<open>Stop\<close> of the protocol. A thread is between two
  steps wherever it looks at a field of the connection that \<open>Close\<close> sets to \<open>nil\<close>: neither
  goroutine holds the mutex when it does.
\<close>

section \<open>The state of a relayed connection\<close>

datatype side = Client | Upstream

fun peer :: "side \<Rightarrow> side" where
  "peer Client = Upstream"
| "peer Upstream = Client"

datatype relay_thread =
    Ready
  | InRead
  | HasData bytes
  | Aborting
  | Returned

text \<open>
  \<open>is_open\<close>: the fields \<open>conn\<close> and \<open>upstreamConn\<close> are not \<open>nil\<close>; \<open>incoming\<close>: what the peer of a
  side has sent and nobody has read; \<open>outgoing\<close>: what has been written to a side;
  \<open>registered\<close>: the connection is in the table of the protocol; \<open>crashed\<close>: a goroutine has
  called a method of a \<open>nil\<close> connection.
\<close>

record relay =
  is_open :: "side \<Rightarrow> bool"
  incoming :: "side \<Rightarrow> bytes"
  outgoing :: "side \<Rightarrow> bytes"
  thread_at :: "side \<Rightarrow> relay_thread"
  registered :: bool
  crashed :: bool

definition relay_start :: "(side \<Rightarrow> bytes) \<Rightarrow> relay" where
  "relay_start input = \<lparr>is_open = \<lambda>_. True, incoming = input, outgoing = \<lambda>_. [], thread_at = \<lambda>_. Ready,
     registered = True, crashed = False\<rparr>"

definition move :: "side \<Rightarrow> relay_thread \<Rightarrow> relay \<Rightarrow> relay" where
  "move s t r = r\<lparr>thread_at := (thread_at r)(s := t)\<rparr>"

definition Relay_Close :: "relay \<Rightarrow> relay" where
  "Relay_Close r = r\<lparr>is_open := \<lambda>_. False\<rparr>"

definition unregisterConnection :: "relay \<Rightarrow> relay" where
  "unregisterConnection r = r\<lparr>registered := False\<rparr>"

definition abort :: "relay \<Rightarrow> relay" where
  "abort r = unregisterConnection (Relay_Close r)"

definition take_input :: "side \<Rightarrow> nat \<Rightarrow> relay \<Rightarrow> relay" where
  "take_input s n r = r\<lparr>incoming := (incoming r)(s := drop n (incoming r s))\<rparr>"

definition put_output :: "side \<Rightarrow> bytes \<Rightarrow> relay \<Rightarrow> relay" where
  "put_output s data r = r\<lparr>outgoing := (outgoing r)(s := outgoing r s @ data)\<rparr>"

section \<open>Steps\<close>

text \<open>
  The connection is closed when \<open>Stop\<close> finds it in the table; closing it again changes nothing.
  The loop of the goroutine of side \<open>s\<close>, with a buffer of \<open>bufs s\<close> bytes: it looks at its own
  connection and calls \<open>Read\<close>, gets data or an error (the end of the input, a failure, or
  because the connection has been closed), looks at the connection of the other side and
  writes, wholly or in part, and aborts on any error.
\<close>

inductive relay_step :: "(side \<Rightarrow> nat) \<Rightarrow> relay \<Rightarrow> relay \<Rightarrow> bool" for bufs :: "side \<Rightarrow> nat" where
  call_read: "\<lbrakk>\<not> crashed r; thread_at r s = Ready; is_open r s\<rbrakk> \<Longrightarrow> relay_step bufs r (move s InRead r)"
| nil_read: "\<lbrakk>\<not> crashed r; thread_at r s = Ready; \<not> is_open r s\<rbrakk> \<Longrightarrow> relay_step bufs r (r\<lparr>crashed := True\<rparr>)"
| got_data: "\<lbrakk>\<not> crashed r; thread_at r s = InRead; is_open r s; 0 < n; n \<le> bufs s; n \<le> length (incoming r s)\<rbrakk> \<Longrightarrow>
    relay_step bufs r (move s (HasData (take n (incoming r s))) (take_input s n r))"
| read_error: "\<lbrakk>\<not> crashed r; thread_at r s = InRead\<rbrakk> \<Longrightarrow> relay_step bufs r (move s Aborting r)"
| written: "\<lbrakk>\<not> crashed r; thread_at r s = HasData data; is_open r (peer s)\<rbrakk> \<Longrightarrow>
    relay_step bufs r (move s Ready (put_output (peer s) data r))"
| write_error: "\<lbrakk>\<not> crashed r; thread_at r s = HasData data; is_open r (peer s)\<rbrakk> \<Longrightarrow>
    relay_step bufs r (move s Aborting (put_output (peer s) (take k data) r))"
| nil_write: "\<lbrakk>\<not> crashed r; thread_at r s = HasData data; \<not> is_open r (peer s)\<rbrakk> \<Longrightarrow>
    relay_step bufs r (r\<lparr>crashed := True\<rparr>)"
| aborts: "\<lbrakk>\<not> crashed r; thread_at r s = Aborting\<rbrakk> \<Longrightarrow> relay_step bufs r (move s Returned (abort r))"
| stop_closes: "\<lbrakk>\<not> crashed r; registered r; is_open r s\<rbrakk> \<Longrightarrow> relay_step bufs r (Relay_Close r)"

inductive_cases relay_stepE: "relay_step bufs r r'"

lemma thread_simps [simp]:
  "thread_at (move s t r) = (thread_at r)(s := t)" "is_open (move s t r) = is_open r"
  "incoming (move s t r) = incoming r" "outgoing (move s t r) = outgoing r"
  "registered (move s t r) = registered r" "crashed (move s t r) = crashed r"
  "thread_at (take_input s n r) = thread_at r" "is_open (take_input s n r) = is_open r"
  "incoming (take_input s n r) = (incoming r)(s := drop n (incoming r s))" "outgoing (take_input s n r) = outgoing r"
  "registered (take_input s n r) = registered r" "crashed (take_input s n r) = crashed r"
  "thread_at (put_output s d r) = thread_at r" "is_open (put_output s d r) = is_open r"
  "incoming (put_output s d r) = incoming r" "outgoing (put_output s d r) = (outgoing r)(s := outgoing r s @ d)"
  "registered (put_output s d r) = registered r" "crashed (put_output s d r) = crashed r"
  "thread_at (Relay_Close r) = thread_at r" "is_open (Relay_Close r) = (\<lambda>_. False)"
  "incoming (Relay_Close r) = incoming r" "outgoing (Relay_Close r) = outgoing r"
  "registered (Relay_Close r) = registered r" "crashed (Relay_Close r) = crashed r"
  "thread_at (abort r) = thread_at r" "is_open (abort r) = (\<lambda>_. False)"
  "incoming (abort r) = incoming r" "outgoing (abort r) = outgoing r"
  "\<not> registered (abort r)" "crashed (abort r) = crashed r"
  by (simp_all add: move_def take_input_def put_output_def Relay_Close_def abort_def unregisterConnection_def)

lemma peer_simps [simp]: "peer (peer s) = s" "peer s \<noteq> s" "peer s = peer s' \<longleftrightarrow> s = s'" "peer s = s' \<longleftrightarrow> s = peer s'"
  by (cases s; cases s'; simp)+

section \<open>What is relayed\<close>

text \<open>The invariant of one direction: what has been written to the other side, what the thread
  holds and what is still to be read make up the input, unless the thread has given up.\<close>

fun pending :: "relay_thread \<Rightarrow> bytes" where
  "pending (HasData data) = data"
| "pending _ = []"

definition gave_up :: "relay_thread \<Rightarrow> bool" where
  "gave_up t \<longleftrightarrow> t = Aborting \<or> t = Returned"

definition direction_ok :: "bytes \<Rightarrow> side \<Rightarrow> relay \<Rightarrow> bool" where
  "direction_ok input s r \<longleftrightarrow>
     (if gave_up (thread_at r s) then prefix (outgoing r (peer s)) input
      else outgoing r (peer s) @ pending (thread_at r s) @ incoming r s = input)"

definition relay_inv :: "(side \<Rightarrow> bytes) \<Rightarrow> relay \<Rightarrow> bool" where
  "relay_inv input r \<longleftrightarrow> (\<forall>s. direction_ok (input s) s r) \<and>
     ((\<exists>s. thread_at r s = Returned) \<longrightarrow> \<not> registered r \<and> (\<forall>s. \<not> is_open r s))"

lemma direction_ok_other:
  "\<lbrakk>thread_at r' s = thread_at r s; outgoing r' (peer s) = outgoing r (peer s); incoming r' s = incoming r s\<rbrakk> \<Longrightarrow>
    direction_ok input s r' \<longleftrightarrow> direction_ok input s r"
  by (simp add: direction_ok_def)

lemma relay_inv_start: "relay_inv input (relay_start input)"
  by (simp add: relay_inv_def relay_start_def direction_ok_def gave_up_def)

lemma relay_inv_step: "relay_step bufs r r' \<Longrightarrow> relay_inv input r \<Longrightarrow> relay_inv input r'"
proof (induction rule: relay_step.induct)
  case (call_read r s)
  then have "outgoing r (peer s) @ incoming r s = input s"
    by (auto simp: relay_inv_def direction_ok_def gave_up_def dest!: spec [of _ s])
  then show ?case using call_read
    by (auto simp: relay_inv_def direction_ok_def gave_up_def)
next
  case (got_data r s n)
  then have "outgoing r (peer s) @ incoming r s = input s"
    by (auto simp: relay_inv_def direction_ok_def gave_up_def dest!: spec [of _ s])
  then show ?case using got_data
    by (auto simp: relay_inv_def direction_ok_def gave_up_def)
next
  case (written r s data)
  then have "outgoing r (peer s) @ data @ incoming r s = input s"
    by (auto simp: relay_inv_def direction_ok_def gave_up_def dest!: spec [of _ s])
  then show ?case using written
    by (auto simp: relay_inv_def direction_ok_def gave_up_def)
next
  case (write_error r s data k)
  then have "outgoing r (peer s) @ data @ incoming r s = input s"
    by (auto simp: relay_inv_def direction_ok_def gave_up_def dest!: spec [of _ s])
  then have "input s = (outgoing r (peer s) @ take k data) @ drop k data @ incoming r s"
    by (metis append.assoc append_take_drop_id)
  then have "prefix (outgoing r (peer s) @ take k data) (input s)" by (metis prefixI)
  then show ?case using write_error
    by (auto simp: relay_inv_def direction_ok_def gave_up_def)
next
  case (read_error r s)
  then have "outgoing r (peer s) @ incoming r s = input s"
    by (auto simp: relay_inv_def direction_ok_def gave_up_def dest!: spec [of _ s])
  then have "prefix (outgoing r (peer s)) (input s)" by (metis prefixI)
  then show ?case using read_error
    by (auto simp: relay_inv_def direction_ok_def gave_up_def)
next
  case (aborts r s)
  then show ?case
    by (auto simp: relay_inv_def direction_ok_def gave_up_def split: if_splits)
qed (auto simp: relay_inv_def direction_ok_def gave_up_def)

lemma relay_inv_reachable: "(relay_step bufs)\<^sup>*\<^sup>* (relay_start input) r \<Longrightarrow> relay_inv input r"
  by (induction rule: rtranclp_induct) (simp_all add: relay_inv_start relay_inv_step)

section \<open>Runs that end\<close>

text \<open>A system drains from the states of \<open>closing\<close> when every step stays among them and uses up some
  of what is \<open>left\<close>.\<close>

locale draining =
  fixes step :: "'s \<Rightarrow> 's \<Rightarrow> bool" and closing :: "'s \<Rightarrow> bool" and left :: "'s \<Rightarrow> nat"
  assumes stays: "step s s' \<Longrightarrow> closing s \<Longrightarrow> closing s'"
    and uses_up: "step s s' \<Longrightarrow> closing s \<Longrightarrow> left s' < left s"
begin

lemma drained: "(step ^^ n) s s' \<Longrightarrow> closing s \<Longrightarrow> closing s' \<and> left s' + n \<le> left s"
proof (induction n arbitrary: s')
  case (Suc n)
  then obtain q where q: "(step ^^ n) s q" "step q s'" by auto
  then have "closing q" "left q + n \<le> left s" using Suc.IH Suc.prems(2) by blast+
  then show ?case using stays [OF q(2)] uses_up [OF q(2)] by auto
qed simp

lemma drain_ends: "closing s \<Longrightarrow> \<exists>n s'. (step ^^ n) s s' \<and> (\<nexists>s''. step s' s'')"
proof (induction "left s" arbitrary: s rule: less_induct)
  case less
  show ?case
  proof (cases "\<exists>s'. step s s'")
    case True
    then obtain q where q: "step s q" by blast
    then obtain n s' where "(step ^^ n) q s'" "\<nexists>s''. step s' s''"
      using less.hyps [OF uses_up stays] less.prems by blast
    then show ?thesis using q relpowp_Suc_I2 [of step s q n s'] by blast
  next
    case False
    then show ?thesis using relpowp_0_I [of step s] by blast
  qed
qed

end

section \<open>Closing\<close>

fun weight :: "relay_thread \<Rightarrow> nat" where
  "weight Ready = 3"
| "weight InRead = 2"
| "weight (HasData _) = 2"
| "weight Aborting = 1"
| "weight Returned = 0"

definition steps_left :: "relay \<Rightarrow> nat" where
  "steps_left r = (if crashed r then 0 else 1 + weight (thread_at r Client) + weight (thread_at r Upstream))"

lemma steps_left_move:
  "\<lbrakk>\<not> crashed r; crashed r' = crashed r; thread_at r' = (thread_at r)(s := t); weight t < weight (thread_at r s)\<rbrakk> \<Longrightarrow>
    steps_left r' < steps_left r"
  by (cases s) (auto simp: steps_left_def)

lemma closed_step:
  assumes "relay_step bufs r r'" "\<forall>s. \<not> is_open r s"
  shows "(\<forall>s. \<not> is_open r' s) \<and> steps_left r' < steps_left r"
  using assms
proof (cases rule: relay_step.cases)
  case (nil_read s)
  then show ?thesis using assms(2) by (auto simp: steps_left_def)
next
  case (nil_write s data)
  then show ?thesis using assms(2) by (auto simp: steps_left_def)
next
  case (read_error s)
  then show ?thesis using assms(2) steps_left_move [of r r' s Aborting] by simp
next
  case (aborts s)
  then show ?thesis using assms(2) steps_left_move [of r r' s Returned] by simp
qed (use assms(2) in auto)

interpretation closed_relay: draining "relay_step bufs" "\<lambda>r. \<forall>s. \<not> is_open r s" steps_left for bufs
  by unfold_locales (use closed_step in blast)+

lemma closed_progress:
  assumes "\<not> crashed r" "thread_at r s \<noteq> Returned" "\<forall>s. \<not> is_open r s"
  shows "\<exists>r'. relay_step bufs r r'"
proof (cases "thread_at r s")
  case Ready
  then show ?thesis using assms nil_read [of r s] by blast
next
  case InRead
  then show ?thesis using assms read_error [of r s] by blast
next
  case (HasData data)
  then show ?thesis using assms nil_write [of r s data] by blast
next
  case Aborting
  then show ?thesis using assms aborts [of r s] by blast
qed (use assms in simp)

lemma steps_left_le: "steps_left r \<le> 7"
proof -
  have "weight t \<le> 3" for t by (cases t) simp_all
  then have "weight (thread_at r Client) \<le> 3" "weight (thread_at r Upstream) \<le> 3" by blast+
  then show ?thesis by (simp add: steps_left_def)
qed

section \<open>The protocol\<close>

datatype accepted = NeitherClosedNorServed | ClosedAtOnce | Relayed relay

text \<open>A new connection: the text of its remote address, and the data of the two sides when the
  upstream server can be dialed.\<close>

definition handleConnection :: "string option \<Rightarrow> (side \<Rightarrow> bytes) option \<Rightarrow> accepted" where
  "handleConnection remote dialed = (case ConnectionRemoteAddress remote of
     Inl _ \<Rightarrow> NeitherClosedNorServed
   | Inr _ \<Rightarrow> (case dialed of None \<Rightarrow> ClosedAtOnce | Some input \<Rightarrow> Relayed (relay_start input)))"

definition TcpProtocol_Stop :: "relay list \<Rightarrow> relay list" where
  "TcpProtocol_Stop rs = map (\<lambda>r. if registered r then Relay_Close r else r) rs"

section \<open>Properties\<close>

text \<open>C7: The relay is faithful: whatever the interleaving and whenever a side fails or the protocol
  stops, what has been written to a side is a prefix of what the other side has sent, nothing
  altered, repeated or out of order; while a goroutine runs, nothing is lost between its read
  and its write; and once one of them has returned, both connections are closed and the
  protocol has forgotten them.\<close>

theorem relay_faithful:
  assumes "(relay_step bufs)\<^sup>*\<^sup>* (relay_start input) r"
  shows "prefix (outgoing r (peer s)) (input s) \<and>
    (\<not> gave_up (thread_at r s) \<and> incoming r s = [] \<and> pending (thread_at r s) = [] \<longrightarrow>
       outgoing r (peer s) = input s) \<and>
    (thread_at r s = Returned \<longrightarrow> \<not> registered r \<and> \<not> is_open r Client \<and> \<not> is_open r Upstream)"
proof -
  note inv = relay_inv_reachable [OF assms]
  then have "direction_ok (input s) s r" by (simp add: relay_inv_def)
  then have "\<not> gave_up (thread_at r s) \<longrightarrow>
      outgoing r (peer s) @ pending (thread_at r s) @ incoming r s = input s"
      "gave_up (thread_at r s) \<longrightarrow> prefix (outgoing r (peer s)) (input s)"
    by (auto simp: direction_ok_def)
  then have "prefix (outgoing r (peer s)) (input s)"
    "\<not> gave_up (thread_at r s) \<longrightarrow> outgoing r (peer s) @ pending (thread_at r s) @ incoming r s = input s"
    by (metis prefixI)+
  then show ?thesis using inv by (auto simp: relay_inv_def)
qed

lemma relay_faithful_witness:
  "prefix [1] (if Client = Client then [1, 2] else [] :: bytes) \<and>
   (\<exists>r. (relay_step (\<lambda>_. 1))\<^sup>*\<^sup>* (relay_start (\<lambda>s. if s = Client then [1, 2] else [])) r \<and> outgoing r Upstream = [1])"
proof -
  let ?in = "\<lambda>s. if s = Client then [1, 2] else [] :: bytes"
  let ?r0 = "relay_start ?in" and ?bufs = "\<lambda>_ :: side. 1 :: nat"
  have "relay_step ?bufs ?r0 (move Client InRead ?r0)"
    by (rule call_read) (simp_all add: relay_start_def)
  moreover have "relay_step ?bufs (move Client InRead ?r0) (move Client (HasData [1]) (take_input Client 1 (move Client InRead ?r0)))"
    using got_data [of "move Client InRead ?r0" Client 1 ?bufs] by (simp add: relay_start_def)
  moreover have "relay_step ?bufs (move Client (HasData [1]) (take_input Client 1 (move Client InRead ?r0)))
      (move Client Ready (put_output Upstream [1] (move Client (HasData [1]) (take_input Client 1 (move Client InRead ?r0)))))"
    using written [of "move Client (HasData [1]) (take_input Client 1 (move Client InRead ?r0))" Client "[1]" ?bufs]
    by (simp add: relay_start_def)
  ultimately have reach: "(relay_step ?bufs)\<^sup>*\<^sup>* ?r0
      (move Client Ready (put_output Upstream [1] (move Client (HasData [1]) (take_input Client 1 (move Client InRead ?r0)))))"
    by (meson rtranclp.rtrancl_into_rtrancl rtranclp.rtrancl_refl)
  have out: "outgoing (move Client Ready (put_output Upstream [1] (move Client (HasData [1])
      (take_input Client 1 (move Client InRead ?r0))))) Upstream = [1]"
    by (simp add: relay_start_def)
  show ?thesis using relay_faithful [OF reach, of Client] reach out by (metis peer.simps(1))
qed

text \<open>Once the two connections are closed, by \<open>Stop\<close> or by a goroutine that aborts, both goroutines
  end: no run is longer than seven steps, and where it ends both have returned or one has
  crashed.\<close>

theorem closed_relay_ends:
  assumes "\<forall>s. \<not> is_open r s"
  shows "(\<forall>n r'. (relay_step bufs ^^ n) r r' \<longrightarrow> n \<le> 7 \<and>
      ((\<nexists>r''. relay_step bufs r' r'') \<longrightarrow> crashed r' \<or> (\<forall>s. thread_at r' s = Returned)))"
proof (intro allI impI)
  fix n r' assume steps: "(relay_step bufs ^^ n) r r'"
  note c = closed_relay.drained [OF steps assms]
  have "n \<le> 7" using c steps_left_le [of r] by linarith
  moreover have "crashed r' \<or> (\<forall>s. thread_at r' s = Returned)" if "\<nexists>r''. relay_step bufs r' r''"
    using that c closed_progress [of r' _ bufs] by blast
  ultimately show "n \<le> 7 \<and> ((\<nexists>r''. relay_step bufs r' r'') \<longrightarrow> crashed r' \<or> (\<forall>s. thread_at r' s = Returned))"
    by blast
qed

lemma closed_relay_ends_witness:
  "let r0 = Relay_Close (relay_start (\<lambda>_. [])); r1 = r0\<lparr>crashed := True\<rparr> in
     (relay_step (\<lambda>_. 1) ^^ 1) r0 r1 \<and> (1 :: nat) \<le> 7 \<and> (crashed r1 \<or> (\<forall>s. thread_at r1 s = Returned))"
proof -
  let ?r0 = "Relay_Close (relay_start (\<lambda>_. []))"
  let ?r1 = "?r0\<lparr>crashed := True\<rparr>"
  have "relay_step (\<lambda>_. 1) ?r0 ?r1" by (rule nil_read [where s = Client]) (simp_all add: relay_start_def)
  then have step: "(relay_step (\<lambda>_. 1) ^^ 1) ?r0 ?r1" by auto
  moreover have "\<nexists>r''. relay_step (\<lambda>_. 1) ?r1 r''" by (auto elim: relay_stepE)
  moreover have "\<forall>s. \<not> is_open ?r0 s" by simp
  ultimately show ?thesis using closed_relay_ends [of ?r0 "\<lambda>_. 1"] unfolding Let_def by blast
qed

text \<open>The goroutines race with \<open>Close\<close>: from the start of every relay a state is reachable in which
  one of them has called a method of a connection that the other one has set to \<open>nil\<close>, which
  ends the whole program.\<close>

theorem relay_can_crash:
  "\<exists>r. (relay_step bufs)\<^sup>*\<^sup>* (relay_start input) r \<and> crashed r"
proof -
  let ?r0 = "relay_start input"
  let ?r1 = "move Upstream InRead ?r0"
  let ?r2 = "move Upstream Aborting ?r1"
  let ?r3 = "move Upstream Returned (abort ?r2)"
  have "relay_step bufs ?r0 ?r1" by (rule call_read) (simp_all add: relay_start_def)
  moreover have "relay_step bufs ?r1 ?r2" by (rule read_error) (simp_all add: relay_start_def)
  moreover have "relay_step bufs ?r2 ?r3" by (rule aborts) (simp_all add: relay_start_def)
  moreover have "relay_step bufs ?r3 (?r3\<lparr>crashed := True\<rparr>)"
    by (rule nil_read [where s = Client]) (simp_all add: relay_start_def)
  ultimately have "(relay_step bufs)\<^sup>*\<^sup>* ?r0 (?r3\<lparr>crashed := True\<rparr>)"
    by (meson rtranclp.rtrancl_into_rtrancl rtranclp.rtrancl_refl)
  moreover have "crashed (?r3\<lparr>crashed := True\<rparr>)" by simp
  ultimately show ?thesis by blast
qed

end
