(* ===== verification/Http_Client.thy ===== *)
theory Http_Client
  imports Http_Context Ownership
begin

text \<open>
  The pool of connections to an upstream HTTP server: \<open>src/pkg/httputils/client.go\<close>. Idle
  connections are a queue, the number of connections is an atomic counter, and a released
  connection goes to a waiting goroutine if there is one. The parts of an operation that no
  lock protects together are functions of their own; the step relation interleaves them. A
  connection is referred to by a number. What an upstream server writes is the list of its
  responses, that \<open>http.ReadResponse\<close> reads one at a time.
\<close>

section \<open>Connections\<close>

record http_response =
  res_StatusCode :: int
  res_Header :: http_header
  res_Body :: "(bytes \<times> io_error option) list"

text \<open>\<open>cc_open\<close>: the field \<open>Conn\<close> is not \<open>nil\<close>; \<open>cc_unread\<close>: the responses the server has written and
  nobody has read; \<open>cc_requests\<close>: the requests it has got.\<close>

record ClientConn =
  cc_open :: bool
  cc_unread :: "http_response list"
  cc_requests :: "Request list"
  cc_lastActivity :: int

definition ClientConn_Close :: "ClientConn \<Rightarrow> ClientConn" where
  "ClientConn_Close cc = cc\<lparr>cc_open := False\<rparr>"

datatype send_error = CannotWriteRequest | CannotReadResponse

text \<open>\<open>SendRequest\<close> at the time \<open>now\<close>: \<open>writes\<close> says whether the request can be written, \<open>answer\<close> is
  what the server writes for it.\<close>

definition ClientConn_SendRequest ::
  "int \<Rightarrow> bool \<Rightarrow> http_response list \<Rightarrow> Request \<Rightarrow> ClientConn \<Rightarrow> (send_error + http_response) \<times> ClientConn" where
  "ClientConn_SendRequest now writes answer req cc =
     (let cc = cc\<lparr>cc_lastActivity := now\<rparr> in
      if \<not> writes then (Inl CannotWriteRequest, cc)
      else let cc = cc\<lparr>cc_requests := cc_requests cc @ [req], cc_unread := cc_unread cc @ answer\<rparr> in
        (case cc_unread cc of
           [] \<Rightarrow> (Inl CannotReadResponse, cc)
         | res # rest \<Rightarrow> (Inr res, cc\<lparr>cc_unread := rest\<rparr>)))"

section \<open>The client\<close>

record ClientCfg =
  hcfg_Scheme :: string
  hcfg_Address :: string
  hcfg_MaxConnections :: int
  hcfg_ConnectionTimeout :: int
  hcfg_ConnectionAcquisitionTimeout :: int
  hcfg_IdleConnectionTimeout :: int

record HttpClient =
  hc_Cfg :: ClientCfg
  hc_tls :: bool
  hc_nbConns :: int
  hc_idle :: "nat list"
  hc_stopped :: bool
  hc_store :: "nat \<Rightarrow> ClientConn"
  hc_next :: nat

definition nil_conn :: ClientConn where
  "nil_conn = \<lparr>cc_open = False, cc_unread = [], cc_requests = [], cc_lastActivity = 0\<rparr>"

text \<open>The defaults; durations are in nanoseconds. The error is an unsupported scheme.\<close>

definition client_defaults :: "ClientCfg \<Rightarrow> ClientCfg" where
  "client_defaults cfg = cfg\<lparr>
     hcfg_MaxConnections := (if hcfg_MaxConnections cfg = 0 then 10 else hcfg_MaxConnections cfg),
     hcfg_ConnectionTimeout := (if hcfg_ConnectionTimeout cfg = 0 then 10 * 10 ^ 9 else hcfg_ConnectionTimeout cfg),
     hcfg_ConnectionAcquisitionTimeout :=
       (if hcfg_ConnectionAcquisitionTimeout cfg = 0 then 5 * 10 ^ 9 else hcfg_ConnectionAcquisitionTimeout cfg),
     hcfg_IdleConnectionTimeout :=
       (if hcfg_IdleConnectionTimeout cfg = 0 then 600 * 10 ^ 9 else hcfg_IdleConnectionTimeout cfg)\<rparr>"

definition HttpClient_New :: "(string \<Rightarrow> string) \<Rightarrow> ClientCfg \<Rightarrow> HttpClient option" where
  "HttpClient_New uni cfg =
     (let c = \<lparr>hc_Cfg = client_defaults cfg, hc_tls = False, hc_nbConns = 0, hc_idle = [], hc_stopped = False,
           hc_store = \<lambda>_. nil_conn, hc_next = 0\<rparr>;
          scheme = ToLower uni (hcfg_Scheme cfg)
      in if scheme = ''http'' then Some c
         else if scheme = ''https'' then Some (c\<lparr>hc_tls := True\<rparr>)
         else None)"

definition put_conn :: "nat \<Rightarrow> ClientConn \<Rightarrow> HttpClient \<Rightarrow> HttpClient" where
  "put_conn i cc c = c\<lparr>hc_store := (hc_store c)(i := cc)\<rparr>"

fun close_all :: "nat list \<Rightarrow> HttpClient \<Rightarrow> HttpClient" where
  "close_all [] c = c"
| "close_all (i # is) c = close_all is (put_conn i (ClientConn_Close (hc_store c i)) c)"

text \<open>\<open>Stop\<close>, once the goroutine that watches the connections has ended; closing the channel twice
  panics.\<close>

definition HttpClient_Stop :: "HttpClient \<Rightarrow> HttpClient option" where
  "HttpClient_Stop c =
     (if hc_stopped c then None
      else Some ((close_all (hc_idle c) c)\<lparr>hc_stopped := True, hc_nbConns := 0\<rparr>))"

text \<open>The parts of \<open>AcquireConn\<close>: the first idle connection, under the mutex; the comparison with the
  limit; the new connection, by \<open>connect\<close>; and the counter.\<close>

definition take_idle :: "HttpClient \<Rightarrow> (nat \<times> HttpClient) option" where
  "take_idle c = (case hc_idle c of [] \<Rightarrow> None | i # is \<Rightarrow> Some (i, c\<lparr>hc_idle := is\<rparr>))"

definition below_limit :: "HttpClient \<Rightarrow> bool" where
  "below_limit c \<longleftrightarrow> hc_nbConns c < hcfg_MaxConnections (hc_Cfg c)"

definition connect :: "HttpClient \<Rightarrow> nat \<times> HttpClient" where
  "connect c = (hc_next c, (put_conn (hc_next c) (nil_conn\<lparr>cc_open := True\<rparr>) c)\<lparr>hc_next := Suc (hc_next c)\<rparr>)"

definition add_conns :: "int \<Rightarrow> HttpClient \<Rightarrow> HttpClient" where
  "add_conns n c = c\<lparr>hc_nbConns := hc_nbConns c + n\<rparr>"

datatype acquire_error = CannotConnectUpstream | ErrNoConnectionAvailable | ErrClientStopping

text \<open>What the \<open>select\<close> of a goroutine that waits returns; a closed channel gives a nil connection.\<close>

datatype wait_result = Handed nat | WaitTimeout | WaitStopping | WaitNil

text \<open>\<open>AcquireConn\<close> without interference: \<open>dials\<close> says whether the server can be reached. A result
  without a number is a nil connection.\<close>

definition AcquireConn :: "bool \<Rightarrow> wait_result \<Rightarrow> HttpClient \<Rightarrow> (acquire_error + nat option) \<times> HttpClient" where
  "AcquireConn dials waited c = (case take_idle c of
     Some (i, c) \<Rightarrow> (Inr (Some i), c)
   | None \<Rightarrow>
       if below_limit c then
         (if \<not> dials then (Inl CannotConnectUpstream, c)
          else (case connect c of (i, c) \<Rightarrow> (Inr (Some i), add_conns 1 c)))
       else (case waited of
           Handed i \<Rightarrow> (Inr (Some i), c)
         | WaitTimeout \<Rightarrow> (Inl ErrNoConnectionAvailable, c)
         | WaitStopping \<Rightarrow> (Inl ErrClientStopping, c)
         | WaitNil \<Rightarrow> (Inr None, c)))"

definition HijackConn :: "HttpClient \<Rightarrow> HttpClient" where
  "HijackConn c = add_conns (- 1) c"

definition release_idle :: "nat \<Rightarrow> HttpClient \<Rightarrow> HttpClient" where
  "release_idle i c = c\<lparr>hc_idle := hc_idle c @ [i]\<rparr>"

text \<open>\<open>ReleaseConn\<close> when nobody waits; sending on the channel panics once it is closed.\<close>

definition ReleaseConn :: "nat \<Rightarrow> HttpClient \<Rightarrow> HttpClient option" where
  "ReleaseConn i c =
     (if \<not> cc_open (hc_store c i) then Some (add_conns (- 1) c)
      else if hc_stopped c then None
      else Some (release_idle i c))"

text \<open>The connections that have been idle too long are closed. The result also has the delay after
  which the timer fires again.\<close>

definition conn_expired :: "int \<Rightarrow> HttpClient \<Rightarrow> nat \<Rightarrow> bool" where
  "conn_expired now c i \<longleftrightarrow> cc_lastActivity (hc_store c i) + hcfg_IdleConnectionTimeout (hc_Cfg c) < now"

fun idle_loop :: "int \<Rightarrow> nat list \<Rightarrow> nat list \<Rightarrow> int \<Rightarrow> HttpClient \<Rightarrow> nat list \<times> int \<times> HttpClient" where
  "idle_loop now [] kept nextTimeout c = (kept, nextTimeout, c)"
| "idle_loop now (i # is) kept nextTimeout c =
     (let connTimeout = cc_lastActivity (hc_store c i) + hcfg_IdleConnectionTimeout (hc_Cfg c) in
      if connTimeout < now then
        idle_loop now is kept nextTimeout (add_conns (- 1) (put_conn i (ClientConn_Close (hc_store c i)) c))
      else idle_loop now is (kept @ [i]) (if connTimeout < nextTimeout then connTimeout else nextTimeout) c)"

definition closeIdleConnections :: "int \<Rightarrow> HttpClient \<Rightarrow> HttpClient \<times> int" where
  "closeIdleConnections now c =
     (case idle_loop now (hc_idle c) [] (now + hcfg_IdleConnectionTimeout (hc_Cfg c)) c of
        (kept, nextTimeout, c) \<Rightarrow> (c\<lparr>hc_idle := kept\<rparr>, nextTimeout - now))"

section \<open>Goroutines\<close>

text \<open>
  A goroutine in \<open>AcquireConn\<close> has found no idle connection (\<open>TChecked\<close>), connects, has connected
  but not counted the connection, or waits; then it holds a connection until it has released
  or hijacked it, a release without a receiver being two steps. \<open>TPanicked\<close>: it has sent on the
  closed channel or used a nil connection.
\<close>

datatype client_thread =
    TOutside | TChecked | TConnecting | TConnected nat | TWaiting | THolding nat | TReturning nat | TPanicked

record client_state =
  cs_client :: HttpClient
  cs_threads :: "nat \<Rightarrow> client_thread"

definition with_thread :: "nat \<Rightarrow> client_thread \<Rightarrow> HttpClient \<Rightarrow> client_state \<Rightarrow> client_state" where
  "with_thread t st c s = \<lparr>cs_client = c, cs_threads = (cs_threads s)(t := st)\<rparr>"

inductive client_step :: "client_state \<Rightarrow> client_state \<Rightarrow> bool" where
  takes_idle: "\<lbrakk>cs_threads s t = TOutside; take_idle (cs_client s) = Some (i, c)\<rbrakk> \<Longrightarrow>
    client_step s (with_thread t (THolding i) c s)"
| finds_none: "\<lbrakk>cs_threads s t = TOutside; take_idle (cs_client s) = None\<rbrakk> \<Longrightarrow>
    client_step s (with_thread t TChecked (cs_client s) s)"
| may_connect: "\<lbrakk>cs_threads s t = TChecked; below_limit (cs_client s)\<rbrakk> \<Longrightarrow>
    client_step s (with_thread t TConnecting (cs_client s) s)"
| must_wait: "\<lbrakk>cs_threads s t = TChecked; \<not> below_limit (cs_client s)\<rbrakk> \<Longrightarrow>
    client_step s (with_thread t TWaiting (cs_client s) s)"
| cannot_connect: "cs_threads s t = TConnecting \<Longrightarrow> client_step s (with_thread t TOutside (cs_client s) s)"
| connects: "\<lbrakk>cs_threads s t = TConnecting; connect (cs_client s) = (i, c)\<rbrakk> \<Longrightarrow>
    client_step s (with_thread t (TConnected i) c s)"
| counts: "cs_threads s t = TConnected i \<Longrightarrow>
    client_step s (with_thread t (THolding i) (add_conns 1 (cs_client s)) s)"
| times_out: "cs_threads s t = TWaiting \<Longrightarrow> client_step s (with_thread t TOutside (cs_client s) s)"
| gets_nil: "\<lbrakk>cs_threads s t = TWaiting; hc_stopped (cs_client s)\<rbrakk> \<Longrightarrow>
    client_step s (with_thread t TPanicked (cs_client s) s)"
| uses: "\<lbrakk>cs_threads s t = THolding i; cc_open cc \<longrightarrow> cc_open (hc_store (cs_client s) i)\<rbrakk> \<Longrightarrow>
    client_step s (with_thread t (THolding i) (put_conn i cc (cs_client s)) s)"
| releases_closed: "\<lbrakk>cs_threads s t = THolding i; \<not> cc_open (hc_store (cs_client s) i)\<rbrakk> \<Longrightarrow>
    client_step s (with_thread t TOutside (add_conns (- 1) (cs_client s)) s)"
| hands_over: "\<lbrakk>cs_threads s t = THolding i; cc_open (hc_store (cs_client s) i); \<not> hc_stopped (cs_client s);
      cs_threads s t' = TWaiting\<rbrakk> \<Longrightarrow>
    client_step s (with_thread t' (THolding i) (cs_client s) (with_thread t TOutside (cs_client s) s))"
| finds_no_receiver: "\<lbrakk>cs_threads s t = THolding i; cc_open (hc_store (cs_client s) i); \<not> hc_stopped (cs_client s);
      \<forall>t'. cs_threads s t' \<noteq> TWaiting\<rbrakk> \<Longrightarrow>
    client_step s (with_thread t (TReturning i) (cs_client s) s)"
| returns: "cs_threads s t = TReturning i \<Longrightarrow>
    client_step s (with_thread t TOutside (release_idle i (cs_client s)) s)"
| sends_on_closed: "\<lbrakk>cs_threads s t = THolding i; cc_open (hc_store (cs_client s) i); hc_stopped (cs_client s)\<rbrakk> \<Longrightarrow>
    client_step s (with_thread t TPanicked (cs_client s) s)"
| hijacks: "cs_threads s t = THolding i \<Longrightarrow> client_step s (with_thread t TOutside (HijackConn (cs_client s)) s)"
| timer_fires: "closeIdleConnections now (cs_client s) = (c, delay) \<Longrightarrow> client_step s (s\<lparr>cs_client := c\<rparr>)"
| stops: "HttpClient_Stop (cs_client s) = Some c \<Longrightarrow> client_step s (s\<lparr>cs_client := c\<rparr>)"

definition client_start :: "HttpClient \<Rightarrow> client_state" where
  "client_start c = \<lparr>cs_client = c, cs_threads = \<lambda>_. TOutside\<rparr>"

section \<open>The idle connections\<close>

lemma put_conn_simps [simp]:
  "hc_idle (put_conn i cc c) = hc_idle c" "hc_nbConns (put_conn i cc c) = hc_nbConns c"
  "hc_next (put_conn i cc c) = hc_next c" "hc_Cfg (put_conn i cc c) = hc_Cfg c"
  "hc_store (put_conn i cc c) = (hc_store c)(i := cc)" "hc_stopped (put_conn i cc c) = hc_stopped c"
  by (simp_all add: put_conn_def)

lemma add_conns_simps [simp]:
  "hc_idle (add_conns n c) = hc_idle c" "hc_nbConns (add_conns n c) = hc_nbConns c + n"
  "hc_next (add_conns n c) = hc_next c" "hc_Cfg (add_conns n c) = hc_Cfg c"
  "hc_store (add_conns n c) = hc_store c" "hc_stopped (add_conns n c) = hc_stopped c"
  by (simp_all add: add_conns_def)

lemma Close_simps [simp]:
  "cc_lastActivity (ClientConn_Close cc) = cc_lastActivity cc" "\<not> cc_open (ClientConn_Close cc)"
  by (simp_all add: ClientConn_Close_def)

lemma close_all_simps [simp]:
  "hc_idle (close_all is c) = hc_idle c" "hc_nbConns (close_all is c) = hc_nbConns c"
  "hc_next (close_all is c) = hc_next c" "hc_Cfg (close_all is c) = hc_Cfg c" "hc_stopped (close_all is c) = hc_stopped c"
  by (induction "is" c rule: close_all.induct) simp_all

lemma conn_expired_other [simp]:
  "conn_expired now (add_conns n (put_conn i (ClientConn_Close (hc_store c i)) c)) = conn_expired now c"
  by (auto simp: conn_expired_def fun_eq_iff)

lemma idle_loop_result:
  assumes "idle_loop now is kept nt c = (kept', nt', c')"
  shows "kept' = kept @ filter (\<lambda>i. \<not> conn_expired now c i) is \<and>
    hc_nbConns c' = hc_nbConns c - int (length (filter (conn_expired now c) is)) \<and>
    hc_idle c' = hc_idle c \<and> hc_next c' = hc_next c \<and> hc_Cfg c' = hc_Cfg c \<and> hc_stopped c' = hc_stopped c \<and>
    (\<forall>i. hc_store c' i = (if i \<in> set is \<and> conn_expired now c i then ClientConn_Close (hc_store c i) else hc_store c i))"
  using assms
proof (induction "is" arbitrary: kept nt c)
  case (Cons i "is")
  show ?case
  proof (cases "conn_expired now c i")
    case True
    let ?c = "add_conns (- 1) (put_conn i (ClientConn_Close (hc_store c i)) c)"
    have "idle_loop now is kept nt ?c = (kept', nt', c')"
      using Cons.prems True by (simp add: conn_expired_def Let_def)
    note IH = Cons.IH [OF this, unfolded conn_expired_other]
    have act: "cc_lastActivity (hc_store ?c j) = cc_lastActivity (hc_store c j)" for j by simp
    have close2: "ClientConn_Close (ClientConn_Close cc) = ClientConn_Close cc" for cc
      by (simp add: ClientConn_Close_def)
    show ?thesis using IH True unfolding act by (auto simp: close2)
  next
    case False
    then show ?thesis using Cons.IH [of "kept @ [i]"] Cons.prems by (simp add: conn_expired_def Let_def)
  qed
qed simp

lemma closeIdleConnections_result:
  assumes "closeIdleConnections now c = (c', delay)"
  shows "hc_idle c' = filter (\<lambda>i. \<not> conn_expired now c i) (hc_idle c)"
    "hc_nbConns c' = hc_nbConns c - int (length (filter (conn_expired now c) (hc_idle c)))"
    "hc_next c' = hc_next c" "hc_stopped c' = hc_stopped c" "hc_Cfg c' = hc_Cfg c"
    "hc_store c' i = (if i \<in> set (hc_idle c) \<and> conn_expired now c i then ClientConn_Close (hc_store c i) else hc_store c i)"
proof -
  obtain kept nt c1 where r: "idle_loop now (hc_idle c) [] (now + hcfg_IdleConnectionTimeout (hc_Cfg c)) c = (kept, nt, c1)"
    by (metis prod.exhaust)
  from idle_loop_result [OF r] show "hc_idle c' = filter (\<lambda>i. \<not> conn_expired now c i) (hc_idle c)"
    "hc_nbConns c' = hc_nbConns c - int (length (filter (conn_expired now c) (hc_idle c)))"
    "hc_next c' = hc_next c" "hc_stopped c' = hc_stopped c" "hc_Cfg c' = hc_Cfg c"
    "hc_store c' i = (if i \<in> set (hc_idle c) \<and> conn_expired now c i then ClientConn_Close (hc_store c i) else hc_store c i)"
    using assms by (auto simp: closeIdleConnections_def r)
qed

lemma idle_loop_timeout:
  assumes "idle_loop now is kept nt c = (kept', nt', c')"
  shows "nt' = fold min (map (\<lambda>i. cc_lastActivity (hc_store c i) + hcfg_IdleConnectionTimeout (hc_Cfg c))
    (filter (\<lambda>i. \<not> conn_expired now c i) is)) nt"
  using assms
proof (induction "is" arbitrary: kept nt c)
  case (Cons i "is")
  define t where "t = cc_lastActivity (hc_store c i) + hcfg_IdleConnectionTimeout (hc_Cfg c)"
  show ?case
  proof (cases "conn_expired now c i")
    case True
    let ?c = "add_conns (- 1) (put_conn i (ClientConn_Close (hc_store c i)) c)"
    have "idle_loop now is kept nt ?c = (kept', nt', c')"
      using Cons.prems True by (simp add: conn_expired_def Let_def)
    note IH = Cons.IH [OF this, unfolded conn_expired_other]
    have "cc_lastActivity (hc_store ?c j) = cc_lastActivity (hc_store c j)" for j by simp
    then show ?thesis using IH True by simp
  next
    case False
    have "min t nt = (if t < nt then t else nt)" by simp
    then have "idle_loop now is (kept @ [i]) (min t nt) c = (kept', nt', c')"
      using Cons.prems False by (auto simp: conn_expired_def t_def Let_def split: if_splits)
    then show ?thesis using Cons.IH False by (simp add: t_def)
  qed
qed simp

lemma closeIdleConnections_delay:
  assumes "closeIdleConnections now c = (c', delay)"
  shows "now + delay = fold min (map (\<lambda>i. cc_lastActivity (hc_store c i) + hcfg_IdleConnectionTimeout (hc_Cfg c))
    (hc_idle c')) (now + hcfg_IdleConnectionTimeout (hc_Cfg c))"
proof -
  obtain kept nt c1 where r: "idle_loop now (hc_idle c) [] (now + hcfg_IdleConnectionTimeout (hc_Cfg c)) c = (kept, nt, c1)"
    by (metis prod.exhaust)
  show ?thesis using assms idle_loop_timeout [OF r] idle_loop_result [OF r] by (auto simp: closeIdleConnections_def r)
qed

lemma fold_min_ge: "(a :: int) \<le> b \<Longrightarrow> (\<And>x. x \<in> set xs \<Longrightarrow> a \<le> x) \<Longrightarrow> a \<le> fold min xs b"
  by (induction xs arbitrary: b) simp_all

section \<open>The invariant of the pool\<close>

fun owned :: "client_thread \<Rightarrow> nat option" where
  "owned (TConnected i) = Some i"
| "owned (THolding i) = Some i"
| "owned (TReturning i) = Some i"
| "owned _ = None"

text \<open>Whether the connection of a goroutine is counted.\<close>

fun counted :: "client_thread \<Rightarrow> bool" where
  "counted (THolding i) = True"
| "counted (TReturning i) = True"
| "counted _ = False"

definition owner_inv :: "client_state \<Rightarrow> bool" where
  "owner_inv s \<longleftrightarrow>
     (\<forall>t t' i. owned (cs_threads s t) = Some i \<and> owned (cs_threads s t') = Some i \<longrightarrow> t = t') \<and>
     (\<forall>t i. owned (cs_threads s t) = Some i \<longrightarrow> i \<notin> set (hc_idle (cs_client s)) \<and> i < hc_next (cs_client s)) \<and>
     (\<forall>i \<in> set (hc_idle (cs_client s)). i < hc_next (cs_client s)) \<and> distinct (hc_idle (cs_client s))"

definition open_inv :: "client_state \<Rightarrow> bool" where
  "open_inv s \<longleftrightarrow> \<not> hc_stopped (cs_client s) \<longrightarrow>
     (\<forall>i \<in> set (hc_idle (cs_client s)). cc_open (hc_store (cs_client s) i)) \<and>
     (\<forall>t i. cs_threads s t = TReturning i \<longrightarrow> cc_open (hc_store (cs_client s) i))"

definition count_inv :: "client_state \<Rightarrow> bool" where
  "count_inv s \<longleftrightarrow> finite {t. counted (cs_threads s t)} \<and> (\<not> hc_stopped (cs_client s) \<longrightarrow>
     hc_nbConns (cs_client s) = int (length (hc_idle (cs_client s)) + card {t. counted (cs_threads s t)}))"

lemma with_thread_simps [simp]:
  "cs_client (with_thread t st c s) = c" "cs_threads (with_thread t st c s) = (cs_threads s)(t := st)"
  by (simp_all add: with_thread_def)

lemma owner_invD:
  "owner_inv s \<Longrightarrow> owned (cs_threads s t) = Some i \<Longrightarrow>
    i \<notin> set (hc_idle (cs_client s)) \<and> i < hc_next (cs_client s) \<and> (\<forall>u. owned (cs_threads s u) = Some i \<longrightarrow> u = t)"
  unfolding owner_inv_def by blast

text \<open>The pool implements the specification of ownership: its queue is the idle connections, and a
  goroutine owns the connection it has made, holds or is about to give back.\<close>

definition client_abs :: "client_state \<Rightarrow> own_state" where
  "client_abs s = \<lparr>own_idle = mset (hc_idle (cs_client s)), own_by = owned \<circ> cs_threads s,
     own_next = hc_next (cs_client s)\<rparr>"

lemma client_abs_simps [simp]:
  "own_idle (client_abs s) = mset (hc_idle (cs_client s))" "own_by (client_abs s) = owned \<circ> cs_threads s"
  "own_next (client_abs s) = hc_next (cs_client s)"
  by (simp_all add: client_abs_def)

lemma owner_inv_ok: "owner_inv s \<longleftrightarrow> own_ok (client_abs s)"
proof -
  have "distinct (hc_idle (cs_client s)) \<longleftrightarrow>
      (\<forall>i. i \<in> set (hc_idle (cs_client s)) \<longrightarrow> count (mset (hc_idle (cs_client s))) i = 1)"
    unfolding distinct_count_atmost_1 by (simp add: count_mset_0_iff)
  then show ?thesis unfolding owner_inv_def own_ok_def by auto
qed

text \<open>Most steps give a goroutine no connection that it has not got.\<close>

lemma client_keeps:
  assumes "owned st = owned (cs_threads s t) \<or> owned st = None"
    "hc_idle c = hc_idle (cs_client s)" "hc_next c = hc_next (cs_client s)"
  shows "own_step\<^sup>*\<^sup>* (client_abs s) (client_abs (with_thread t st c s))"
  using assms by (intro own_keepsI [where t = t and x = "owned st"]) (auto simp: fun_upd_comp)

lemma client_step_owns: "client_step s s' \<Longrightarrow> own_step\<^sup>*\<^sup>* (client_abs s) (client_abs s')"
proof (induction rule: client_step.induct)
  case (takes_idle s t i c)
  then show ?case
    by (intro own_takesI [where t = t and i = i]) (auto simp: take_idle_def fun_upd_comp split: list.splits)
next
  case (connects s t i c)
  then show ?case by (intro own_createsI [where t = t]) (auto simp: connect_def fun_upd_comp)
next
  case (hands_over s t i t')
  then show ?case by (intro own_passesI [where t = t and i = i and u = t']) (auto simp: fun_upd_comp)
next
  case (returns s t i)
  then show ?case by (intro own_returnsI [where t = t and i = i]) (auto simp: release_idle_def fun_upd_comp)
next
  case (timer_fires now s c delay)
  then show ?case
    using closeIdleConnections_result(1,3) [OF timer_fires(1)] by (intro own_discardsI) (simp_all add: mset_filter)
next
  case (stops s c)
  then show ?case by (intro own_discardsI) (auto simp: HttpClient_Stop_def split: if_splits)
qed (auto intro!: client_keeps simp: HijackConn_def)

interpretation http_pool: owning_pool client_step client_abs
  by unfold_locales (rule client_step_owns)

lemma owner_step: "client_step s s' \<Longrightarrow> owner_inv s \<Longrightarrow> owner_inv s'"
  unfolding owner_inv_ok by (rule http_pool.step_ok)

lemma card_counted:
  assumes "finite {t. counted (th t)}"
  shows "finite {u. counted ((th(t := x)) u)}"
    "int (card {u. counted ((th(t := x)) u)}) = int (card {u. counted (th u)}) + of_bool (counted x) - of_bool (counted (th t))"
proof -
  have eq: "{u. counted ((th(t := x)) u)} = (if counted x then insert t else id) ({u. counted (th u)} - {t})"
    by auto
  show "finite {u. counted ((th(t := x)) u)}" using assms unfolding eq by simp
  have "card {u. counted (th u)} > 0" if "counted (th t)" using assms that by (auto simp: card_gt_0_iff)
  then show "int (card {u. counted ((th(t := x)) u)}) =
      int (card {u. counted (th u)}) + of_bool (counted x) - of_bool (counted (th t))"
    using assms unfolding eq by (auto simp: card_Diff_singleton_if card.insert_remove of_nat_diff)
qed

lemma count_step: "client_step s s' \<Longrightarrow> owner_inv s \<Longrightarrow> count_inv s \<Longrightarrow> count_inv s'"
proof (induction rule: client_step.induct)
  case (timer_fires now s c delay)
  have "length (hc_idle (cs_client s)) = length (filter (conn_expired now (cs_client s)) (hc_idle (cs_client s))) +
      length (filter (\<lambda>i. \<not> conn_expired now (cs_client s) i) (hc_idle (cs_client s)))"
    by (simp add: sum_length_filter_compl)
  then show ?case using timer_fires closeIdleConnections_result(1,2,4) [OF timer_fires(1)] by (simp add: count_inv_def)
next
  case (stops s c)
  then have "hc_stopped c" by (auto simp: HttpClient_Stop_def split: if_splits)
  then show ?case using stops by (simp add: count_inv_def)
next
  case (hands_over s t i t')
  then have "t \<noteq> t'" by auto
  then have "((cs_threads s)(t := TOutside)) t' = TWaiting" using hands_over(4) by simp
  then show ?case using hands_over by (auto simp: count_inv_def card_counted simp del: fun_upd_apply)
qed (auto simp: count_inv_def card_counted take_idle_def connect_def release_idle_def HijackConn_def
    simp del: fun_upd_apply split: list.splits)

lemma open_step: "client_step s s' \<Longrightarrow> owner_inv s \<Longrightarrow> open_inv s \<Longrightarrow> open_inv s'"
proof (induction rule: client_step.induct)
  case (uses s t i cc)
  have own: "owned (cs_threads s t) = Some i" using uses(1) by simp
  note o = owner_invD [OF uses(3) own]
  show ?case unfolding open_inv_def
  proof (intro impI conjI allI ballI)
    fix j assume "\<not> hc_stopped (cs_client (with_thread t (THolding i) (put_conn i cc (cs_client s)) s))"
    then have st: "\<not> hc_stopped (cs_client s)" by simp
    show "cc_open (hc_store (cs_client (with_thread t (THolding i) (put_conn i cc (cs_client s)) s)) j)"
      if "j \<in> set (hc_idle (cs_client (with_thread t (THolding i) (put_conn i cc (cs_client s)) s)))"
      using that st uses(4) o by (auto simp: open_inv_def)
    show "cc_open (hc_store (cs_client (with_thread t (THolding i) (put_conn i cc (cs_client s)) s)) j)"
      if "cs_threads (with_thread t (THolding i) (put_conn i cc (cs_client s)) s) u = TReturning j" for u
    proof -
      have u: "u \<noteq> t" "cs_threads s u = TReturning j" using that by (auto split: if_splits)
      then have "j \<noteq> i" using o by (metis owned.simps(3))
      then show ?thesis using u st uses(4) by (auto simp: open_inv_def)
    qed
  qed
next
  case (connects s t i c)
  then show ?case by (auto simp: open_inv_def owner_inv_def connect_def split: if_splits)
next
  case (timer_fires now s c delay)
  note r = closeIdleConnections_result(1,4,6) [OF timer_fires(1)]
  have "i \<notin> set (hc_idle (cs_client s))" if "cs_threads s u = TReturning i" for u i
    using owner_invD [OF timer_fires(2), of u i] that by simp
  then show ?case using timer_fires(3) r by (auto simp: open_inv_def)
next
  case (stops s c)
  then show ?case by (auto simp: open_inv_def HttpClient_Stop_def split: if_splits)
qed (auto simp: open_inv_def take_idle_def release_idle_def HijackConn_def split: if_splits list.splits)

lemma start_inv:
  assumes "HttpClient_New uni cfg = Some c"
  shows "owner_inv (client_start c) \<and> open_inv (client_start c) \<and> count_inv (client_start c)"
  using assms
  by (auto simp: HttpClient_New_def Let_def client_start_def owner_inv_def open_inv_def count_inv_def split: if_splits)

lemma reachable_inv:
  assumes "client_step\<^sup>*\<^sup>* (client_start c) s" "HttpClient_New uni cfg = Some c"
  shows "owner_inv s \<and> open_inv s \<and> count_inv s"
  using assms(1)
proof (induction rule: rtranclp_induct)
  case base
  show ?case by (rule start_inv [OF assms(2)])
next
  case (step s s')
  then show ?case using owner_step open_step count_step by blast
qed

section \<open>Properties\<close>

text \<open>C12: The pool of connections to an upstream server is consistent in every interleaving of the
  goroutines that use it, the timer and \<open>Stop\<close>: a connection is held by one goroutine at most,
  and then it is not idle; and until the client is stopped every idle connection is open and
  the counter is the number of idle connections and of those that goroutines hold.\<close>

theorem upstream_pool_consistent:
  assumes "HttpClient_New uni cfg = Some c0" "client_step\<^sup>*\<^sup>* (client_start c0) s"
  shows "(cs_threads s t = THolding i \<longrightarrow> i \<notin> set (hc_idle (cs_client s)) \<and>
      (\<forall>u. cs_threads s u \<in> {THolding i, TReturning i, TConnected i} \<longrightarrow> u = t)) \<and>
    (\<not> hc_stopped (cs_client s) \<longrightarrow>
      (\<forall>j \<in> set (hc_idle (cs_client s)). cc_open (hc_store (cs_client s) j)) \<and>
      hc_nbConns (cs_client s) = int (length (hc_idle (cs_client s)) +
        card {u. \<exists>j. cs_threads s u = THolding j \<or> cs_threads s u = TReturning j}))"
proof -
  note inv = reachable_inv [OF assms(2,1)]
  have "counted th \<longleftrightarrow> (\<exists>j. th = THolding j \<or> th = TReturning j)" for th by (cases th) simp_all
  then have "{u. counted (cs_threads s u)} = {u. \<exists>j. cs_threads s u = THolding j \<or> cs_threads s u = TReturning j}"
    by simp
  moreover have "i \<notin> set (hc_idle (cs_client s)) \<and>
      (\<forall>u. cs_threads s u \<in> {THolding i, TReturning i, TConnected i} \<longrightarrow> u = t)" if "cs_threads s t = THolding i"
  proof -
    have "owned (cs_threads s t) = Some i" using that by simp
    then have "i \<notin> set (hc_idle (cs_client s)) \<and> (\<forall>u. owned (cs_threads s u) = Some i \<longrightarrow> u = t)"
      using owner_invD inv by blast
    then show ?thesis by auto
  qed
  moreover have "\<not> hc_stopped (cs_client s) \<longrightarrow> (\<forall>j \<in> set (hc_idle (cs_client s)). cc_open (hc_store (cs_client s) j)) \<and>
      hc_nbConns (cs_client s) = int (length (hc_idle (cs_client s)) + card {u. counted (cs_threads s u)})"
    using inv by (simp add: open_inv_def count_inv_def)
  ultimately show ?thesis by presburger
qed

definition demo_http_client :: HttpClient where
  "demo_http_client = \<lparr>hc_Cfg = \<lparr>hcfg_Scheme = ''http'', hcfg_Address = ''h:80'', hcfg_MaxConnections = 1,
       hcfg_ConnectionTimeout = 1, hcfg_ConnectionAcquisitionTimeout = 1, hcfg_IdleConnectionTimeout = 60\<rparr>,
     hc_tls = False, hc_nbConns = 0, hc_idle = [], hc_stopped = False, hc_store = \<lambda>_. nil_conn, hc_next = 0\<rparr>"

lemma demo_http_client_new: "HttpClient_New id (hc_Cfg demo_http_client) = Some demo_http_client"
proof -
  have "ToLower id ''http'' = ''http''" by code_simp
  then show ?thesis by (simp add: HttpClient_New_def client_defaults_def demo_http_client_def Let_def)
qed

text \<open>One goroutine has got the only connection that the limit allows.\<close>

definition demo_client_held :: client_state where
  "demo_client_held = with_thread 0 (THolding 0) (add_conns 1 (snd (connect demo_http_client)))
     (with_thread 0 (TConnected 0) (snd (connect demo_http_client)) (with_thread 0 TConnecting demo_http_client
       (with_thread 0 TChecked demo_http_client (client_start demo_http_client))))"

lemma demo_client_held_reachable: "client_step\<^sup>*\<^sup>* (client_start demo_http_client) demo_client_held"
proof -
  let ?s0 = "client_start demo_http_client"
  let ?s1 = "with_thread 0 TChecked demo_http_client ?s0"
  let ?s2 = "with_thread 0 TConnecting demo_http_client ?s1"
  let ?s3 = "with_thread 0 (TConnected 0) (snd (connect demo_http_client)) ?s2"
  have 1: "client_step ?s0 ?s1"
    using finds_none [of ?s0 0] by (simp add: client_start_def take_idle_def demo_http_client_def)
  have 2: "client_step ?s1 ?s2" using may_connect [of ?s1 0] by (simp add: below_limit_def demo_http_client_def)
  have 3: "client_step ?s2 ?s3"
    using connects [of ?s2 0 0 "snd (connect demo_http_client)"] by (simp add: connect_def demo_http_client_def)
  have 4: "client_step ?s3 demo_client_held" using counts [of ?s3 0 0] by (simp add: demo_client_held_def)
  show ?thesis using 1 2 3 4 by (meson rtranclp.rtrancl_into_rtrancl rtranclp.rtrancl_refl)
qed

theorem upstream_pool_consistent_witness:
  "hc_nbConns (cs_client demo_client_held) = 1 + int (length (hc_idle (cs_client demo_client_held))) \<and>
    0 \<notin> set (hc_idle (cs_client demo_client_held))"
proof -
  have th: "cs_threads demo_client_held = (\<lambda>_. TOutside)(0 := THolding 0)"
    by (simp add: demo_client_held_def client_start_def fun_eq_iff)
  have "{u. \<exists>j. cs_threads demo_client_held u = THolding j \<or> cs_threads demo_client_held u = TReturning j} = {0}"
    by (auto simp: th)
  moreover have "\<not> hc_stopped (cs_client demo_client_held)"
    by (simp add: demo_client_held_def connect_def demo_http_client_def)
  moreover have "cs_threads demo_client_held 0 = THolding 0" by (simp add: th)
  moreover note upstream_pool_consistent [OF demo_http_client_new demo_client_held_reachable, of 0 0]
  ultimately show ?thesis by (elim conjE) (simp only: card.insert card.empty, simp)
qed

text \<open>A release can be missed: a goroutine that waits for a connection because the limit is reached
  may wait until its timeout, and fail, while a connection is idle and no goroutine holds one,
  since the idle connections are looked at only before the wait begins.\<close>

theorem waiter_misses_release:
  assumes "HttpClient_New uni cfg = Some c0" "hcfg_MaxConnections cfg = 1" "t1 \<noteq> t2"
  shows "\<exists>s i. client_step\<^sup>*\<^sup>* (client_start c0) s \<and> cs_threads s t2 = TWaiting \<and> hc_idle (cs_client s) = [i] \<and>
    cc_open (hc_store (cs_client s) i) \<and> \<not> hc_stopped (cs_client s) \<and> (\<forall>t. t \<noteq> t2 \<longrightarrow> cs_threads s t = TOutside)"
proof -
  have c0: "hc_idle c0 = []" "hc_nbConns c0 = 0" "\<not> hc_stopped c0" "hcfg_MaxConnections (hc_Cfg c0) = 1" "hc_next c0 = 0"
    using assms(1,2) by (auto simp: HttpClient_New_def Let_def client_defaults_def split: if_splits)
  let ?s0 = "client_start c0"
  let ?s1 = "with_thread t1 TChecked c0 ?s0"
  let ?s2 = "with_thread t1 TConnecting c0 ?s1"
  let ?c3 = "snd (connect c0)"
  let ?s3 = "with_thread t1 (TConnected 0) ?c3 ?s2"
  let ?c4 = "add_conns 1 ?c3"
  let ?s4 = "with_thread t1 (THolding 0) ?c4 ?s3"
  let ?s5 = "with_thread t2 TChecked ?c4 ?s4"
  let ?s6 = "with_thread t1 (TReturning 0) ?c4 ?s5"
  let ?s7 = "with_thread t2 TWaiting ?c4 ?s6"
  let ?s8 = "with_thread t1 TOutside (release_idle 0 ?c4) ?s7"
  have con: "connect c0 = (0, ?c3)" using c0 by (simp add: connect_def)
  have c4: "hc_idle ?c4 = []" "hc_nbConns ?c4 = 1" "\<not> hc_stopped ?c4" "hc_Cfg ?c4 = hc_Cfg c0" "cc_open (hc_store ?c4 0)"
    using c0 by (simp_all add: connect_def)
  have 1: "client_step ?s0 ?s1" using finds_none [of ?s0 t1] c0 by (simp add: client_start_def take_idle_def)
  have 2: "client_step ?s1 ?s2" using may_connect [of ?s1 t1] c0 by (simp add: below_limit_def)
  have 3: "client_step ?s2 ?s3" using connects [of ?s2 t1 0 ?c3] con by simp
  have 4: "client_step ?s3 ?s4" using counts [of ?s3 t1 0] by simp
  have 5: "client_step ?s4 ?s5" using finds_none [of ?s4 t2] c4 assms(3) by (simp add: client_start_def take_idle_def)
  have 6: "client_step ?s5 ?s6" using finds_no_receiver [of ?s5 t1 0] c4 assms(3) by (simp add: client_start_def)
  have 7: "client_step ?s6 ?s7" using must_wait [of ?s6 t2] c0 c4 assms(3) by (simp add: below_limit_def)
  have 8: "client_step ?s7 ?s8" using returns [of ?s7 t1 0] assms(3) by simp
  have "client_step\<^sup>*\<^sup>* ?s0 ?s8"
    using 1 2 3 4 5 6 7 8 by (meson rtranclp.rtrancl_into_rtrancl rtranclp.rtrancl_refl)
  moreover have "cs_threads ?s8 t2 = TWaiting \<and> hc_idle (cs_client ?s8) = [0] \<and> cc_open (hc_store (cs_client ?s8) 0) \<and>
      \<not> hc_stopped (cs_client ?s8) \<and> (\<forall>t. t \<noteq> t2 \<longrightarrow> cs_threads ?s8 t = TOutside)"
    using c4 assms(3) by (simp add: client_start_def release_idle_def)
  ultimately show ?thesis by blast
qed

theorem waiter_misses_release_witness:
  "\<exists>s i. client_step\<^sup>*\<^sup>* (client_start demo_http_client) s \<and> cs_threads s 1 = TWaiting \<and> hc_idle (cs_client s) = [i]"
proof -
  have "hcfg_MaxConnections (hc_Cfg demo_http_client) = 1" by (simp add: demo_http_client_def)
  from waiter_misses_release [OF demo_http_client_new this, of 0 1] show ?thesis by auto
qed

text \<open>The timer closes exactly the idle connections whose last request is older than the timeout,
  keeps the others in their order, adjusts the counter, touches no other connection, and is
  set to fire when the first of those that are left reaches its timeout, or after a whole
  timeout when none is left.\<close>

theorem idle_connections_closed:
  assumes "closeIdleConnections now c = (c', delay)" "0 \<le> hcfg_IdleConnectionTimeout (hc_Cfg c)"
  shows "hc_idle c' = filter (\<lambda>i. \<not> conn_expired now c i) (hc_idle c) \<and>
    hc_nbConns c - hc_nbConns c' = int (length (hc_idle c)) - int (length (hc_idle c')) \<and>
    (\<forall>i. hc_store c' i = (if i \<in> set (hc_idle c) - set (hc_idle c') then ClientConn_Close (hc_store c i) else hc_store c i)) \<and>
    0 \<le> delay \<and> now + delay = fold min (map (\<lambda>i. cc_lastActivity (hc_store c i) + hcfg_IdleConnectionTimeout (hc_Cfg c))
      (hc_idle c')) (now + hcfg_IdleConnectionTimeout (hc_Cfg c))"
proof -
  note r = closeIdleConnections_result [OF assms(1)]
  have "length (hc_idle c) = length (filter (conn_expired now c) (hc_idle c)) + length (hc_idle c')"
    unfolding r(1) by (simp add: sum_length_filter_compl)
  moreover have "i \<in> set (hc_idle c) \<and> conn_expired now c i \<longleftrightarrow> i \<in> set (hc_idle c) - set (hc_idle c')" for i
    unfolding r(1) by auto
  moreover have "now \<le> now + delay" unfolding closeIdleConnections_delay [OF assms(1)] r(1)
    by (rule fold_min_ge) (use assms(2) in \<open>auto simp: conn_expired_def\<close>)
  ultimately show ?thesis using r closeIdleConnections_delay [OF assms(1)] by simp
qed

theorem idle_connections_closed_witness:
  "hc_idle (fst (closeIdleConnections 100 (demo_http_client\<lparr>hc_idle := [0, 1], hc_nbConns := 2,
      hc_store := (\<lambda>_. nil_conn)(1 := nil_conn\<lparr>cc_lastActivity := 90\<rparr>)\<rparr>))) = [1] \<and>
    snd (closeIdleConnections 100 (demo_http_client\<lparr>hc_idle := [0, 1], hc_nbConns := 2,
      hc_store := (\<lambda>_. nil_conn)(1 := nil_conn\<lparr>cc_lastActivity := 90\<rparr>)\<rparr>)) = 50"
proof -
  let ?c = "demo_http_client\<lparr>hc_idle := [0, 1], hc_nbConns := 2,
      hc_store := (\<lambda>_. nil_conn)(1 := nil_conn\<lparr>cc_lastActivity := 90\<rparr>)\<rparr>"
  have "closeIdleConnections 100 ?c = (fst (closeIdleConnections 100 ?c), snd (closeIdleConnections 100 ?c))" by simp
  note r = idle_connections_closed [OF this]
  have idle: "hc_idle (fst (closeIdleConnections 100 ?c)) = [1]"
    using r by (simp add: demo_http_client_def conn_expired_def nil_conn_def)
  have "100 + snd (closeIdleConnections 100 ?c) = fold min (map (\<lambda>i. cc_lastActivity (hc_store ?c i) +
      hcfg_IdleConnectionTimeout (hc_Cfg ?c)) (hc_idle (fst (closeIdleConnections 100 ?c)))) (100 + 60)"
    using r by (simp add: demo_http_client_def)
  then show ?thesis using idle unfolding idle by (simp add: demo_http_client_def)
qed

end
