(* ===== verification/Reverse_Proxy.thy ===== *)
theory Reverse_Proxy
  imports Http_Client Http_Actions Load_Balancer Tcp_Relay "HOL-Library.AList"
begin

text \<open>
  The reverse proxy action: \<open>src/pkg/protocols/http/action_reverse_proxy.go\<close>. A request is
  rewritten and sent to the upstream server, or to the one the load balancer chooses, over a
  connection of the pool of \<^typ>\<open>HttpClient\<close>, and the response is copied. A connection that is
  upgraded is hijacked on both sides and relayed as in the TCP protocol (\<open>tcp_connection.go\<close> is
  \<open>connection.go\<close> of that protocol with another name, so it is the same step relation).
  \<open>proxy_world\<close> holds what the outside decides. The scheme of the rewritten URL is not written
  to the connection and is left out.
\<close>

section \<open>The action\<close>

record ReverseProxyActionCfg =
  rp_URI :: string
  rp_LoadBalancerName :: string
  rp_RequestHeader :: "HeaderOp list"
  rp_ResponseHeader :: "HeaderOp list"

text \<open>A URL as \<open>url.Parse\<close> gives it, with the two parts of its host.\<close>

record parsed_url =
  pu_Scheme :: string
  pu_Host :: string
  pu_Hostname :: string
  pu_Port :: string

datatype proxy_target =
    SingleServer string HttpClient
  | Balanced LoadBalancer "(string \<times> HttpClient) list"

datatype proxy_error = CannotParseProxyURI | CannotCreateClient | UnknownLoadBalancer

definition client_cfg :: "string \<Rightarrow> string \<Rightarrow> ClientCfg" where
  "client_cfg scheme address = \<lparr>hcfg_Scheme = scheme, hcfg_Address = address, hcfg_MaxConnections = 0,
     hcfg_ConnectionTimeout = 0, hcfg_ConnectionAcquisitionTimeout = 0, hcfg_IdleConnectionTimeout = 0\<rparr>"

definition url_defaults :: "parsed_url \<Rightarrow> parsed_url" where
  "url_defaults u =
     (let u = (if pu_Scheme u = [] then u\<lparr>pu_Scheme := ''http''\<rparr> else u)
      in if pu_Host u = [] then u\<lparr>pu_Host := ''localhost'', pu_Hostname := ''localhost'', pu_Port := []\<rparr> else u)"

definition upstream_address :: "(string \<Rightarrow> string) \<Rightarrow> parsed_url \<Rightarrow> string" where
  "upstream_address uni u =
     JoinHostPort (pu_Hostname u)
       (if pu_Port u = [] then (if ToLower uni (pu_Scheme u) = ''http'' then ''80'' else ''443'') else pu_Port u)"

text \<open>A client for each server, by address.\<close>

fun balanced_clients ::
  "(string \<Rightarrow> string) \<Rightarrow> LoadBalancerServer list \<Rightarrow> (string \<times> HttpClient) list \<Rightarrow> (string \<times> HttpClient) list option" where
  "balanced_clients uni [] clients = Some clients"
| "balanced_clients uni (srv # srvs) clients =
     (let address = HostAddress_String (lbs_Address srv) in
      case HttpClient_New uni (client_cfg ''http'' address) of
        None \<Rightarrow> None
      | Some c \<Rightarrow> balanced_clients uni srvs (AList.update address c clients))"

definition NewReverseProxyAction ::
  "(string \<Rightarrow> string) \<Rightarrow> (string \<Rightarrow> parsed_url option) \<Rightarrow> (string \<rightharpoonup> LoadBalancer) \<Rightarrow> ReverseProxyActionCfg \<Rightarrow>
     proxy_error + proxy_target" where
  "NewReverseProxyAction uni parse lbs cfg =
     (if rp_URI cfg \<noteq> [] then
        (case parse (rp_URI cfg) of
           None \<Rightarrow> Inl CannotParseProxyURI
         | Some u \<Rightarrow>
             let u = url_defaults u in
             (case HttpClient_New uni (client_cfg (pu_Scheme u) (upstream_address uni u)) of
                None \<Rightarrow> Inl CannotCreateClient
              | Some c \<Rightarrow> Inr (SingleServer (pu_Host u) c)))
      else (case lbs (rp_LoadBalancerName cfg) of
          None \<Rightarrow> Inl UnknownLoadBalancer
        | Some lb \<Rightarrow> (case balanced_clients uni (lb_Servers lb) [] of
            None \<Rightarrow> Inl CannotCreateClient
          | Some clients \<Rightarrow> Inr (Balanced lb clients))))"

fun stop_clients :: "(string \<times> HttpClient) list \<Rightarrow> (string \<times> HttpClient) list option" where
  "stop_clients [] = Some []"
| "stop_clients ((address, c) # cs) = (case HttpClient_Stop c of
     None \<Rightarrow> None
   | Some c \<Rightarrow> map_option (\<lambda>cs. (address, c) # cs) (stop_clients cs))"

fun ReverseProxyAction_Stop :: "proxy_target \<Rightarrow> proxy_target option" where
  "ReverseProxyAction_Stop (SingleServer host c) = map_option (SingleServer host) (HttpClient_Stop c)"
| "ReverseProxyAction_Stop (Balanced lb clients) = map_option (Balanced lb) (stop_clients clients)"

section \<open>The request that is sent\<close>

definition rfc2616Fields :: "string list" where
  "rfc2616Fields = [''Connection'', ''Keep-Alive'', ''Proxy-Authenticate'', ''Proxy-Authorization'', ''TE'',
     ''Trailers'', ''Transfer-Encoding'', ''Upgrade'']"

definition deleteRequestHeaderHopByHopFields :: "'a RequestContext \<Rightarrow> http_header \<Rightarrow> http_header" where
  "deleteRequestHeaderHopByHopFields ctx h = foldl DelField (foldl DelField h (ctx_ConnectionOptions ctx)) rfc2616Fields"

definition deleteRequestUserAgentField :: "http_header \<Rightarrow> http_header" where
  "deleteRequestUserAgentField h = (if Get h ''User-Agent'' = [] then SetField h ''User-Agent'' [] else h)"

definition setRequestHeaderForwardedFields :: "'a RequestContext \<Rightarrow> http_header \<Rightarrow> http_header" where
  "setRequestHeaderForwardedFields ctx h =
     (let addrList = AppendToTokenList (Get h ''X-Forwarded-For'') [IP_String (ctx_ClientAddress ctx)];
          h = SetField h ''X-Forwarded-For'' addrList;
          h = SetField h ''X-Forwarded-Host'' (ctx_Host ctx)
      in SetField h ''X-Forwarded-Proto'' (if ReqTLS (ctx_Request ctx) then ''https'' else ''http''))"

definition initRequestHeader :: "ReverseProxyActionCfg \<Rightarrow> 'a RequestContext \<Rightarrow> http_header \<Rightarrow> http_header" where
  "initRequestHeader cfg ctx h =
     HeaderOps_Apply (rp_RequestHeader cfg)
       (setRequestHeaderForwardedFields ctx (deleteRequestUserAgentField (deleteRequestHeaderHopByHopFields ctx h)))
       (ctx_Vars ctx)"

definition rewriteRequest :: "ReverseProxyActionCfg \<Rightarrow> 'a RequestContext \<Rightarrow> string \<Rightarrow> Request" where
  "rewriteRequest cfg ctx address =
     (ctx_Request ctx)\<lparr>UrlHost := address, ReqHeader := initRequestHeader cfg ctx (ReqHeader (ctx_Request ctx))\<rparr>"

definition maybeSetConnectionUpgrade :: "'a RequestContext \<Rightarrow> Request \<Rightarrow> Request" where
  "maybeSetConnectionUpgrade ctx req =
     (if ctx_UpgradeProtocols ctx = [] then req
      else req\<lparr>ReqHeader := SetField (SetField (ReqHeader req) ''Connection'' ''upgrade'') ''Upgrade''
             (Join (ctx_UpgradeProtocols ctx) '', '')\<rparr>)"

section \<open>The response\<close>

definition initResponseHeader :: "ReverseProxyActionCfg \<Rightarrow> http_response \<Rightarrow> 'a RequestContext \<Rightarrow> 'a RequestContext" where
  "initResponseHeader cfg res ctx =
     (let h = foldl (\<lambda>h (name, vs). foldl (\<lambda>h v. AddField h name v) h vs) (rw_header (ctx_Writer ctx)) (res_Header res)
      in ctx\<lparr>ctx_Writer := (ctx_Writer ctx)\<lparr>rw_header := HeaderOps_Apply (rp_ResponseHeader cfg) h (ctx_Vars ctx)\<rparr>\<rparr>)"

text \<open>The field \<open>Connection\<close> that is looked at is that of the request.\<close>

definition isConnectionUpgraded :: "(string \<Rightarrow> string) \<Rightarrow> 'a RequestContext \<Rightarrow> http_response \<Rightarrow> bool" where
  "isConnectionUpgraded uni ctx res \<longleftrightarrow> res_StatusCode res = 101 \<and>
     ''upgrade'' \<in> set (SplitTokenList uni (Get (ReqHeader (ctx_Request ctx)) ''Connection'') True)"

text \<open>\<open>io.Copy\<close> of the body of the response.\<close>

fun copy_response :: "(bytes \<times> io_error option) list \<Rightarrow> ResponseWriter \<Rightarrow> ResponseWriter" where
  "copy_response [] w = w"
| "copy_response ((data, err) # reads) w =
     (case (if data = [] then (None, w) else ResponseWriter_Write data w) of
        (Some _, w) \<Rightarrow> w
      | (None, w) \<Rightarrow> (case err of None \<Rightarrow> copy_response reads w | Some _ \<Rightarrow> w))"

text \<open>
  What is found when the connections are hijacked: the bytes of the client that the HTTP
  server has read into its buffer, those that follow, how many bytes its buffer for writing
  holds, how many more than it needs a copy from the buffer reads, and whether that copy
  fails; the bytes the upstream server has sent after its response that are in the buffer of
  the connection, and those that follow.
\<close>

record hijacked =
  hj_unread :: bytes
  hj_rest :: bytes
  hj_buffered :: nat
  hj_overread :: nat
  hj_copy_fails :: bool
  hj_upstream_unread :: bytes
  hj_upstream_rest :: bytes

datatype hijack_error = CannotHijack | CannotCopyClientData

definition relay_input :: "bytes \<Rightarrow> bytes \<Rightarrow> side \<Rightarrow> bytes" where
  "relay_input client upstream s = (case s of Client \<Rightarrow> client | Upstream \<Rightarrow> upstream)"

definition hijackConnection :: "hijacked option \<Rightarrow> hijack_error + relay" where
  "hijackConnection hijack = (case hijack of
     None \<Rightarrow> Inl CannotHijack
   | Some hj \<Rightarrow>
       let n = hj_buffered hj; input = hj_unread hj @ hj_rest hj in
       if n > 0 then
         if hj_copy_fails hj \<or> length input < n then Inl CannotCopyClientData
         else Inr (put_output Upstream (take n input)
                (relay_start (relay_input (drop (n + hj_overread hj) input) (hj_upstream_rest hj))))
       else Inr (relay_start (relay_input (hj_rest hj) (hj_upstream_rest hj))))"

text \<open>The two goroutines of the hijacked connection, with the buffers they have.\<close>

definition TCPConnection_step :: "relay \<Rightarrow> relay \<Rightarrow> bool" where
  "TCPConnection_step = relay_step (\<lambda>s. case s of Client \<Rightarrow> 1024 | Upstream \<Rightarrow> 1024)"

section \<open>Handling a request\<close>

record proxy_world =
  pw_uni :: "string \<Rightarrow> string"
  pw_reason :: "int \<Rightarrow> string"
  pw_dials :: bool
  pw_waited :: wait_result
  pw_now :: int
  pw_writes :: bool
  pw_answer :: "Request \<Rightarrow> http_response list"
  pw_hijack :: "hijacked option"

definition as_panic :: "'a outcome \<Rightarrow> 'a outcome" where
  "as_panic r = (case r of Done x \<Rightarrow> Panicked x | Panicked x \<Rightarrow> Panicked x)"

text \<open>The deferred function, when the connection has not been hijacked.\<close>

definition finish :: "nat \<Rightarrow> HttpClient \<Rightarrow> 'b outcome \<Rightarrow> 'b outcome \<times> HttpClient \<times> relay option" where
  "finish i client r = (case ReleaseConn i client of
     None \<Rightarrow> (as_panic r, client, None)
   | Some client \<Rightarrow> (r, client, None))"

definition proxy_respond ::
  "proxy_world \<Rightarrow> ReverseProxyActionCfg \<Rightarrow> nat \<Rightarrow> http_response \<Rightarrow> 'a RequestContext \<Rightarrow> HttpClient \<Rightarrow>
     'a RequestContext outcome \<times> HttpClient \<times> relay option" where
  "proxy_respond w cfg i res ctx client =
     (case Reply (res_StatusCode res) None (initResponseHeader cfg res ctx) of
        Panicked ctx \<Rightarrow> finish i client (Panicked ctx)
      | Done ctx \<Rightarrow>
          if isConnectionUpgraded (pw_uni w) ctx res then
            if ctx_UpgradeProtocols ctx = [] then finish i client (Done ctx)
            else (case hijackConnection (pw_hijack w) of
                Inl _ \<Rightarrow> finish i client (Done ctx)
              | Inr relay \<Rightarrow> (Done ctx, HijackConn client, Some relay))
          else finish i client (Done (ctx\<lparr>ctx_Writer := copy_response (res_Body res) (ctx_Writer ctx)\<rparr>)))"

definition acquire_status :: "acquire_error \<Rightarrow> int" where
  "acquire_status e = (if e = ErrNoConnectionAvailable then 503 else 500)"

definition proxy_exchange ::
  "proxy_world \<Rightarrow> ReverseProxyActionCfg \<Rightarrow> string \<Rightarrow> 'a RequestContext \<Rightarrow> HttpClient \<Rightarrow>
     'a RequestContext outcome \<times> HttpClient \<times> relay option" where
  "proxy_exchange w cfg address ctx client =
     (let req = maybeSetConnectionUpgrade ctx (rewriteRequest cfg ctx address) in
      case AcquireConn (pw_dials w) (pw_waited w) client of
        (Inl e, client) \<Rightarrow> (ReplyError (pw_reason w) (acquire_status e) ctx, client, None)
      | (Inr None, client) \<Rightarrow> (Panicked ctx, client, None)
      | (Inr (Some i), client) \<Rightarrow>
          (case ClientConn_SendRequest (pw_now w) (pw_writes w) (pw_answer w req) req (hc_store client i) of
             (Inl _, cc) \<Rightarrow> finish i (put_conn i (ClientConn_Close cc) client) (ReplyError (pw_reason w) 500 ctx)
           | (Inr res, cc) \<Rightarrow> proxy_respond w cfg i res ctx (put_conn i cc client)))"

fun ReverseProxyAction_HandleRequest ::
  "proxy_world \<Rightarrow> ReverseProxyActionCfg \<Rightarrow> 'a RequestContext \<Rightarrow> proxy_target \<Rightarrow>
     'a RequestContext outcome \<times> proxy_target \<times> relay option" where
  "ReverseProxyAction_HandleRequest w cfg ctx (SingleServer host client) =
     (case proxy_exchange w cfg host ctx client of (r, client, relay) \<Rightarrow> (r, SingleServer host client, relay))"
| "ReverseProxyAction_HandleRequest w cfg ctx (Balanced lb clients) =
     (case LoadBalancer_Address lb of
        None \<Rightarrow> (Panicked ctx, Balanced lb clients, None)
      | Some (address, lb) \<Rightarrow>
          if address = [] then (ReplyError (pw_reason w) 503 ctx, Balanced lb clients, None)
          else (case map_of clients address of
              None \<Rightarrow> (Panicked ctx, Balanced lb clients, None)
            | Some client \<Rightarrow>
                (case proxy_exchange w cfg address ctx client of
                   (r, client, relay) \<Rightarrow> (r, Balanced lb (AList.update address client clients), relay))))"

section \<open>The pool around a request\<close>

text \<open>A client used by one goroutine between two requests, and while that goroutine holds \<open>i\<close>.\<close>

definition http_pool_quiet :: "HttpClient \<Rightarrow> bool" where
  "http_pool_quiet c \<longleftrightarrow> \<not> hc_stopped c \<and> distinct (hc_idle c) \<and> 0 < hcfg_MaxConnections (hc_Cfg c) \<and>
     hc_nbConns c = int (length (hc_idle c)) \<and> (\<forall>i \<in> set (hc_idle c). i < hc_next c \<and> cc_open (hc_store c i))"

definition http_pool_holds :: "nat \<Rightarrow> HttpClient \<Rightarrow> bool" where
  "http_pool_holds i c \<longleftrightarrow> \<not> hc_stopped c \<and> distinct (hc_idle c) \<and> 0 < hcfg_MaxConnections (hc_Cfg c) \<and>
     hc_nbConns c = int (length (hc_idle c)) + 1 \<and> i \<notin> set (hc_idle c) \<and> i < hc_next c \<and>
     (\<forall>i \<in> set (hc_idle c). i < hc_next c \<and> cc_open (hc_store c i))"

text \<open>No response is left on an idle connection.\<close>

definition in_sync :: "HttpClient \<Rightarrow> bool" where
  "in_sync c \<longleftrightarrow> (\<forall>i \<in> set (hc_idle c). cc_unread (hc_store c i) = [])"

lemma HttpClient_New_quiet:
  "HttpClient_New uni cfg = Some c \<Longrightarrow> 0 \<le> hcfg_MaxConnections cfg \<Longrightarrow> http_pool_quiet c \<and> in_sync c"
  by (auto simp: HttpClient_New_def Let_def client_defaults_def http_pool_quiet_def in_sync_def split: if_splits)

lemma AcquireConn_quiet:
  assumes "http_pool_quiet c"
  shows "(AcquireConn dials waited c = (Inl CannotConnectUpstream, c)) \<or>
    (\<exists>i c'. AcquireConn dials waited c = (Inr (Some i), c') \<and> http_pool_holds i c' \<and> cc_open (hc_store c' i) \<and>
      (in_sync c \<longrightarrow> in_sync c' \<and> cc_unread (hc_store c' i) = []))"
proof (cases "hc_idle c")
  case Nil
  then show ?thesis using assms
    by (auto simp: AcquireConn_def take_idle_def below_limit_def connect_def http_pool_quiet_def http_pool_holds_def
        in_sync_def nil_conn_def)
next
  case (Cons i "is")
  then show ?thesis using assms
    by (auto simp: AcquireConn_def take_idle_def http_pool_quiet_def http_pool_holds_def in_sync_def)
qed

lemma holds_put [simp]: "http_pool_holds i (put_conn i cc c) = http_pool_holds i c"
  by (auto simp: http_pool_holds_def)

lemma in_sync_put [simp]: "http_pool_holds i c \<Longrightarrow> in_sync (put_conn i cc c) = in_sync c"
  by (auto simp: http_pool_holds_def in_sync_def)

lemma finish_quiet:
  assumes "http_pool_holds i c"
  shows "\<exists>c'. finish i c r = (r, c', None) \<and> http_pool_quiet c' \<and>
    (in_sync c \<and> (cc_open (hc_store c i) \<longrightarrow> cc_unread (hc_store c i) = []) \<longrightarrow> in_sync c')"
  using assms
  by (cases "cc_open (hc_store c i)")
    (auto simp: finish_def ReleaseConn_def release_idle_def http_pool_holds_def http_pool_quiet_def in_sync_def)

lemma HijackConn_quiet: "http_pool_holds i c \<Longrightarrow> http_pool_quiet (HijackConn c)"
  by (simp add: HijackConn_def http_pool_holds_def http_pool_quiet_def)

section \<open>Copying a response\<close>

fun copied_bytes :: "(bytes \<times> io_error option) list \<Rightarrow> bytes" where
  "copied_bytes [] = []"
| "copied_bytes ((data, err) # reads) = data @ (case err of None \<Rightarrow> copied_bytes reads | Some _ \<Rightarrow> [])"

lemma copy_response_sent:
  assumes "rw_sent w \<noteq> None"
  shows "rw_sent (copy_response reads w) = rw_sent w \<and>
    (room (rw_out w) = None \<longrightarrow> sent (rw_out (copy_response reads w)) = sent (rw_out w) @ copied_bytes reads)"
  using assms
proof (induction reads arbitrary: w)
  case (Cons r reads)
  obtain data err where r: "r = (data, err)" by fastforce
  obtain e w1 where w1: "(if data = [] then (None, w) else ResponseWriter_Write data w) = (e, w1)" by fastforce
  have s: "rw_sent w1 = rw_sent w" "room (rw_out w) = None \<longrightarrow> e = None \<and> room (rw_out w1) = None \<and>
      sent (rw_out w1) = sent (rw_out w) @ data"
    using w1 Cons.prems by (auto simp: ResponseWriter_Write_def Let_def split: if_splits prod.splits)
  then show ?case using Cons r w1 by (auto split: option.splits)
qed simp

lemma initResponseHeader_simps [simp]:
  "client_status (initResponseHeader cfg res ctx) = client_status ctx"
  "ctx_Request (initResponseHeader cfg res ctx) = ctx_Request ctx"
  "rw_out (ctx_Writer (initResponseHeader cfg res ctx)) = rw_out (ctx_Writer ctx)"
  by (simp_all add: initResponseHeader_def client_status_def Let_def)

lemma Reply_header_only:
  assumes "client_status ctx = None" "200 \<le> status" "status \<le> 999"
  shows "\<exists>ctx'. Reply status None ctx = Done ctx' \<and> client_status ctx' = Some status \<and> ctx_Request ctx' = ctx_Request ctx \<and>
    rw_out (ctx_Writer ctx') = rw_out (ctx_Writer ctx)"
  using assms
  by (auto simp: Reply_def client_status_def ResponseWriter_WriteHeader_def net_WriteHeader_def Let_def set_var_def)

text \<open>A final response is copied and the connection given back.\<close>

lemma proxy_respond_final:
  assumes "client_status ctx = None" "200 \<le> res_StatusCode res" "res_StatusCode res \<le> 999" "http_pool_holds i c"
  shows "\<exists>ctx' c'. proxy_respond w cfg i res ctx c = (Done ctx', c', None) \<and>
    client_status ctx' = Some (res_StatusCode res) \<and>
    (room (rw_out (ctx_Writer ctx)) = None \<longrightarrow>
      sent (rw_out (ctx_Writer ctx')) = sent (rw_out (ctx_Writer ctx)) @ copied_bytes (res_Body res)) \<and>
    http_pool_quiet c' \<and> (in_sync c \<and> (cc_open (hc_store c i) \<longrightarrow> cc_unread (hc_store c i) = []) \<longrightarrow> in_sync c')"
proof -
  have "client_status (initResponseHeader cfg res ctx) = None" using assms(1) by simp
  from Reply_header_only [OF this assms(2,3)] obtain ctx1 where
    r: "Reply (res_StatusCode res) None (initResponseHeader cfg res ctx) = Done ctx1" "client_status ctx1 = Some (res_StatusCode res)"
      "rw_out (ctx_Writer ctx1) = rw_out (ctx_Writer ctx)" by auto
  let ?ctx = "ctx1\<lparr>ctx_Writer := copy_response (res_Body res) (ctx_Writer ctx1)\<rparr>"
  obtain c' where c': "finish i c (Done ?ctx) = (Done ?ctx, c', None)" "http_pool_quiet c'"
    "in_sync c \<and> (cc_open (hc_store c i) \<longrightarrow> cc_unread (hc_store c i) = []) \<longrightarrow> in_sync c'"
    using finish_quiet [OF assms(4)] by blast
  have "rw_sent (ctx_Writer ctx1) \<noteq> None" using r(2) by (auto simp: client_status_def)
  note copy = copy_response_sent [OF this, of "res_Body res"]
  have "\<not> isConnectionUpgraded (pw_uni w) ctx1 res" using assms(2) by (simp add: isConnectionUpgraded_def)
  then show ?thesis using r c' copy by (simp add: proxy_respond_def client_status_def)
qed

section \<open>Properties\<close>


definition demo_proxy_client :: HttpClient where
  "demo_proxy_client = \<lparr>hc_Cfg = client_defaults (client_cfg ''http'' ''u:80''), hc_tls = False, hc_nbConns = 1,
     hc_idle = [0], hc_stopped = False, hc_store = \<lambda>_. nil_conn\<lparr>cc_open := True\<rparr>, hc_next = 1\<rparr>"

definition demo_response :: "int \<Rightarrow> bytes \<Rightarrow> http_response" where
  "demo_response status body = \<lparr>res_StatusCode = status, res_Header = [], res_Body = [(body, None)]\<rparr>"

definition demo_proxy_world :: "http_response list \<Rightarrow> proxy_world" where
  "demo_proxy_world answer = \<lparr>pw_uni = id, pw_reason = \<lambda>_. ''Error'', pw_dials = True, pw_waited = WaitTimeout, pw_now = 0,
     pw_writes = True, pw_answer = \<lambda>_. answer,
     pw_hijack = Some \<lparr>hj_unread = [1], hj_rest = [2], hj_buffered = 0, hj_overread = 0, hj_copy_fails = False,
       hj_upstream_unread = [3], hj_upstream_rest = [4]\<rparr>\<rparr>"

definition demo_proxy_cfg :: ReverseProxyActionCfg where
  "demo_proxy_cfg = \<lparr>rp_URI = ''http://u'', rp_LoadBalancerName = [], rp_RequestHeader = [], rp_ResponseHeader = []\<rparr>"

lemma demo_proxy_simps [simp]:
  "http_pool_quiet demo_proxy_client" "in_sync demo_proxy_client" "hc_idle demo_proxy_client = [0]"
  "cc_unread (hc_store demo_proxy_client 0) = []" "client_status demo_fs_context = None"
  "room (rw_out (ctx_Writer demo_fs_context)) = None" "sent (rw_out (ctx_Writer demo_fs_context)) = []"
  "pw_writes (demo_proxy_world answer)" "pw_answer (demo_proxy_world answer) req = answer"
  "res_StatusCode (demo_response status body) = status" "copied_bytes (res_Body (demo_response status body)) = body"
  by (simp_all add: demo_proxy_client_def http_pool_quiet_def in_sync_def nil_conn_def client_defaults_def client_cfg_def
      demo_fs_context_def NewRequestContext_def client_status_def NewResponseWriter_def demo_proxy_world_def demo_response_def)


text \<open>An informational response shifts the responses of a connection: when the upstream server
  answers a request with a status such as 100 or 103 before its final response, as HTTP/1.1
  allows, the informational response is taken for the answer, the connection goes back to the
  pool with the final response unread, and the next request over it, of any client, gets that
  response and its body instead of its own.\<close>

theorem informational_response_shifts:
  assumes "http_pool_quiet client" "hc_idle client = [i]" "cc_unread (hc_store client i) = []"
    and "pw_writes w1" "pw_writes w2"
    and "pw_answer w1 (maybeSetConnectionUpgrade ctx1 (rewriteRequest cfg ctx1 address)) = [info, final]"
    and "100 \<le> res_StatusCode info" "res_StatusCode info \<le> 199" "res_StatusCode info \<noteq> 101"
    and "client_status ctx2 = None" "200 \<le> res_StatusCode final" "res_StatusCode final \<le> 999"
    and "room (rw_out (ctx_Writer ctx2)) = None"
  shows "\<exists>r1 client1 ctx2' client2. proxy_exchange w1 cfg address ctx1 client = (r1, client1, None) \<and>
    proxy_exchange w2 cfg address ctx2 client1 = (Done ctx2', client2, None) \<and>
    client_status ctx2' = Some (res_StatusCode final) \<and>
    sent (rw_out (ctx_Writer ctx2')) = sent (rw_out (ctx_Writer ctx2)) @ copied_bytes (res_Body final)"
proof -
  let ?req1 = "maybeSetConnectionUpgrade ctx1 (rewriteRequest cfg ctx1 address)"
  let ?req2 = "maybeSetConnectionUpgrade ctx2 (rewriteRequest cfg ctx2 address)"
  let ?c1 = "client\<lparr>hc_idle := []\<rparr>"
  let ?cc1 = "(hc_store client i)\<lparr>cc_lastActivity := pw_now w1, cc_requests := cc_requests (hc_store client i) @ [?req1],
    cc_unread := [final]\<rparr>"
  let ?client1 = "release_idle i (put_conn i ?cc1 ?c1)"
  have i: "i < hc_next client" "cc_open (hc_store client i)" "\<not> hc_stopped client"
    using assms(1,2) by (simp_all add: http_pool_quiet_def)
  have acq: "AcquireConn d t client = (Inr (Some i), ?c1)" for d t
    using assms(2) by (simp add: AcquireConn_def take_idle_def)
  have fin: "finish i (put_conn i ?cc1 ?c1) r = (r, ?client1, None)" for r :: "'a RequestContext outcome"
    using i by (simp add: finish_def ReleaseConn_def)
  obtain r1 where r1: "proxy_respond w1 cfg i info ctx1 (put_conn i ?cc1 ?c1) = (r1, ?client1, None)"
    using assms(9) fin unfolding proxy_respond_def isConnectionUpgraded_def
    by (cases "Reply (res_StatusCode info) None (initResponseHeader cfg info ctx1)") auto
  have first: "proxy_exchange w1 cfg address ctx1 client = (r1, ?client1, None)"
    using acq r1 assms(3,4,6) by (simp add: proxy_exchange_def ClientConn_SendRequest_def Let_def)
  have acq2: "AcquireConn d t ?client1 = (Inr (Some i), ?client1\<lparr>hc_idle := []\<rparr>)" for d t
    by (simp add: AcquireConn_def take_idle_def release_idle_def)
  let ?cc2 = "?cc1\<lparr>cc_lastActivity := pw_now w2, cc_requests := cc_requests ?cc1 @ [?req2], cc_unread := pw_answer w2 ?req2\<rparr>"
  have "http_pool_holds i (put_conn i ?cc2 (?client1\<lparr>hc_idle := []\<rparr>))"
    using assms(1,2) i by (simp add: http_pool_holds_def http_pool_quiet_def release_idle_def)
  from proxy_respond_final [OF assms(10-12) this, of w2 cfg] obtain ctx2' client2 where
    second: "proxy_respond w2 cfg i final ctx2 (put_conn i ?cc2 (?client1\<lparr>hc_idle := []\<rparr>)) = (Done ctx2', client2, None)"
      "client_status ctx2' = Some (res_StatusCode final)"
      "sent (rw_out (ctx_Writer ctx2')) = sent (rw_out (ctx_Writer ctx2)) @ copied_bytes (res_Body final)"
    using assms(13) by auto
  have "proxy_exchange w2 cfg address ctx2 ?client1 = (Done ctx2', client2, None)"
    using acq2 second(1) assms(5) by (simp add: proxy_exchange_def ClientConn_SendRequest_def Let_def release_idle_def)
  then show ?thesis using first second by blast
qed

theorem informational_response_shifts_witness:
  "\<exists>r1 client1 ctx2' client2.
    proxy_exchange (demo_proxy_world [demo_response 100 [], demo_response 200 [7]]) demo_proxy_cfg ''u'' demo_fs_context
      demo_proxy_client = (r1, client1, None) \<and>
    proxy_exchange (demo_proxy_world [demo_response 404 [8]]) demo_proxy_cfg ''u'' demo_fs_context client1 =
      (Done ctx2', client2, None) \<and>
    client_status ctx2' = Some 200 \<and> sent (rw_out (ctx_Writer ctx2')) = [7]"
  using informational_response_shifts [of demo_proxy_client 0 "demo_proxy_world [demo_response 100 [], demo_response 200 [7]]"
    "demo_proxy_world [demo_response 404 [8]]" demo_fs_context demo_proxy_cfg "''u''" "demo_response 100 []"
    "demo_response 200 [7]" demo_fs_context] by simp

text \<open>An upgrade loses what has been read ahead: when a connection is upgraded, whatever the two
  goroutines of the relay do, what the client gets from the upstream server begins after the
  bytes that were in the buffer of the connection with the response, and what the server gets
  begins after the bytes of the client that the HTTP server had in its buffer.\<close>

theorem upgrade_loses_buffered:
  assumes "proxy_exchange w cfg address ctx client = (r, client', Some start)" "pw_hijack w = Some hj" "hj_buffered hj = 0"
    and "TCPConnection_step\<^sup>*\<^sup>* start final"
  shows "prefix (outgoing final Client) (hj_upstream_rest hj) \<and> prefix (outgoing final Upstream) (hj_rest hj)"
proof -
  have fin: "finish i c x \<noteq> (y, c', Some start)" for i c c' and x y :: "'a RequestContext outcome"
    by (auto simp: finish_def split: option.splits)
  have "hijackConnection (pw_hijack w) = Inr start"
    using assms(1) fin unfolding proxy_exchange_def proxy_respond_def Let_def
    by (auto split: prod.splits sum.splits option.splits outcome.splits if_splits)
  then have "start = relay_start (relay_input (hj_rest hj) (hj_upstream_rest hj))"
    using assms(2,3) by (simp add: hijackConnection_def Let_def)
  with assms(4) have "relay_inv (relay_input (hj_rest hj) (hj_upstream_rest hj)) final"
    unfolding TCPConnection_step_def using relay_inv_reachable by blast
  then have d: "direction_ok (relay_input (hj_rest hj) (hj_upstream_rest hj) s) s final" for s
    by (simp add: relay_inv_def)
  have "prefix (outgoing final (peer s)) (relay_input (hj_rest hj) (hj_upstream_rest hj) s)" for s
    using d [of s] by (auto simp: direction_ok_def split: if_splits) (metis prefixI)
  from this [of Upstream] this [of Client] show ?thesis by (simp add: relay_input_def)
qed

definition demo_upgrade_context :: "nat RequestContext" where
  "demo_upgrade_context = (NewRequestContext id (demo_fs_request\<lparr>ReqHeader :=
     [(''Connection'', [''upgrade'']), (''Upgrade'', [''websocket''])]\<rparr>) \<lparr>sent = [], room = None, werr = EOF\<rparr>)"

theorem upgrade_loses_buffered_witness:
  "\<exists>r client' start. proxy_exchange (demo_proxy_world [demo_response 101 []]) demo_proxy_cfg ''u'' demo_upgrade_context
      demo_proxy_client = (r, client', Some start) \<and>
    prefix (outgoing start Client) [4] \<and> prefix (outgoing start Upstream) [2]"
proof -
  let ?w = "demo_proxy_world [demo_response 101 []]"
  have "ctx_UpgradeProtocols demo_upgrade_context = [''websocket'']" by code_simp
  moreover have "''upgrade'' \<in> set (SplitTokenList id (Get (ReqHeader (ctx_Request demo_upgrade_context)) ''Connection'') True)"
    by code_simp
  moreover have "rw_sent (ctx_Writer demo_upgrade_context) = None"
    by (simp add: demo_upgrade_context_def NewRequestContext_def NewResponseWriter_def)
  moreover have "AcquireConn d t demo_proxy_client = (Inr (Some 0), demo_proxy_client\<lparr>hc_idle := []\<rparr>)" for d t
    by (simp add: AcquireConn_def take_idle_def)
  ultimately obtain r client' start where
    x: "proxy_exchange ?w demo_proxy_cfg ''u'' demo_upgrade_context demo_proxy_client = (r, client', Some start)"
    by (simp add: proxy_exchange_def Let_def ClientConn_SendRequest_def proxy_respond_def Reply_def set_var_def
        ResponseWriter_WriteHeader_def net_WriteHeader_def isConnectionUpgraded_def initResponseHeader_def
        hijackConnection_def demo_proxy_world_def demo_response_def demo_proxy_cfg_def HeaderOps_Apply_def)
  from upgrade_loses_buffered [OF x, of "\<lparr>hj_unread = [1], hj_rest = [2], hj_buffered = 0, hj_overread = 0,
      hj_copy_fails = False, hj_upstream_unread = [3], hj_upstream_rest = [4]\<rparr>" start] x
  show ?thesis by (auto simp: demo_proxy_world_def)
qed

lemma Values_deletes: "Values (foldl DelField h ns) name =
    (if \<exists>n \<in> set ns. CanonicalKey n = CanonicalKey name then [] else Values h name)"
  by (induction ns arbitrary: h) auto

text \<open>The values of a field of the request that is sent, before the operations of the configuration.\<close>

definition kept_values :: "'a RequestContext \<Rightarrow> string \<Rightarrow> string list" where
  "kept_values ctx name =
     (if \<exists>n \<in> set (ctx_ConnectionOptions ctx @ rfc2616Fields). CanonicalKey n = CanonicalKey name then []
      else Values (ReqHeader (ctx_Request ctx)) name)"

definition first_value :: "string list \<Rightarrow> string" where
  "first_value vs = (case vs of [] \<Rightarrow> [] | v # _ \<Rightarrow> v)"

definition forwarded_values :: "'a RequestContext \<Rightarrow> string \<Rightarrow> string list" where
  "forwarded_values ctx name =
     (if CanonicalKey name = ''X-Forwarded-For'' then
        [AppendToTokenList (first_value (kept_values ctx name)) [IP_String (ctx_ClientAddress ctx)]]
      else if CanonicalKey name = ''X-Forwarded-Host'' then [ctx_Host ctx]
      else if CanonicalKey name = ''X-Forwarded-Proto'' then
        [if ReqTLS (ctx_Request ctx) then ''https'' else ''http'']
      else if CanonicalKey name = ''User-Agent'' \<and> first_value (kept_values ctx name) = [] then [[]]
      else kept_values ctx name)"

lemma canonical_fields [simp]:
  "CanonicalKey ''X-Forwarded-For'' = ''X-Forwarded-For''" "CanonicalKey ''X-Forwarded-Host'' = ''X-Forwarded-Host''"
  "CanonicalKey ''X-Forwarded-Proto'' = ''X-Forwarded-Proto''" "CanonicalKey ''User-Agent'' = ''User-Agent''"
  by code_simp+

lemma Values_kept: "Values (deleteRequestHeaderHopByHopFields ctx (ReqHeader (ctx_Request ctx))) name = kept_values ctx name"
  by (auto simp: deleteRequestHeaderHopByHopFields_def Values_deletes kept_values_def)

lemma Values_canonical: "CanonicalKey a = CanonicalKey b \<Longrightarrow> Values h a = Values h b"
  by (simp add: Values_def)

lemma kept_canonical: "CanonicalKey a = CanonicalKey b \<Longrightarrow> kept_values ctx a = kept_values ctx b"
  unfolding kept_values_def by (simp cong: Values_canonical)



lemma balanced_clients_dom:
  "balanced_clients uni srvs clients = Some clients' \<Longrightarrow>
    dom (map_of clients') = dom (map_of clients) \<union> (\<lambda>srv. HostAddress_String (lbs_Address srv)) ` set srvs"
  by (induction srvs arbitrary: clients) (auto simp: Let_def update_conv' split: option.splits)

lemma HostAddress_String_not_Nil: "HostAddress_String ha \<noteq> []"
  by (auto simp: HostAddress_String_def JoinHostPort_def)


definition demo_balancer :: LoadBalancer where
  "demo_balancer = \<lparr>lb_Servers = [
     \<lparr>lbs_Address = \<lparr>Hostname = ''a'', HostIP = [], HostPort = 1\<rparr>, lbs_healthy = False, lbs_probe = None\<rparr>], lb_next = 0\<rparr>"


end
