(* ===== verification/Service_Restart.thy ===== *)
theory Service_Restart
  imports Prelude
begin

text \<open>
  What the service does when a server reports a fatal error: \<open>handleServerError\<close>, \<open>stopServer\<close>
  and \<open>stopServers\<close> of \<open>src/pkg/service/servers.go\<close> with \<open>Stop\<close> of \<open>service.go\<close>, by critical
  sections, and the channel that \<open>Stop\<close> of the HTTP protocol closes
  (\<open>src/pkg/protocols/http/protocol.go\<close>). The protocol object belongs to the configuration of
  the server, so a server that is started again has the same one.
\<close>

section \<open>The state of the service\<close>

text \<open>
  \<open>sv_running\<close>: the table of servers; \<open>sv_reported\<close>: servers whose error a goroutine has received
  and not handled yet; \<open>sv_waiting\<close>: goroutines that wait before they start a server again;
  \<open>sv_starting\<close>: those that are about to; \<open>sv_closed\<close>: protocol objects whose \<open>stopChan\<close> is
  closed; \<open>sv_stopping\<close>: the \<open>stopChan\<close> of the service is closed; \<open>sv_panicked\<close>: a goroutine has
  panicked, which ends the program.
\<close>

record service =
  sv_running :: "string set"
  sv_reported :: "string set"
  sv_waiting :: "string set"
  sv_starting :: "string set"
  sv_closed :: "string set"
  sv_stopping :: bool
  sv_panicked :: bool

definition service_started :: "string set \<Rightarrow> service" where
  "service_started names = \<lparr>sv_running = names, sv_reported = {}, sv_waiting = {}, sv_starting = {},
     sv_closed = {}, sv_stopping = False, sv_panicked = False\<rparr>"

text \<open>Closing a closed channel panics; only the HTTP protocol has one (\<open>http\<close>).\<close>

definition protocol_stop :: "(string \<Rightarrow> bool) \<Rightarrow> string \<Rightarrow> service \<Rightarrow> service" where
  "protocol_stop http name s =
     (if \<not> http name then s
      else if name \<in> sv_closed s then s\<lparr>sv_panicked := True\<rparr>
      else s\<lparr>sv_closed := insert name (sv_closed s)\<rparr>)"

definition service_stopServer :: "(string \<Rightarrow> bool) \<Rightarrow> string \<Rightarrow> service \<Rightarrow> service" where
  "service_stopServer http name s =
     (if name \<notin> sv_running s then s
      else (protocol_stop http name s)\<lparr>sv_running := sv_running s - {name}\<rparr>)"

definition handleServerError :: "(string \<Rightarrow> bool) \<Rightarrow> string \<Rightarrow> service \<Rightarrow> service" where
  "handleServerError http name s =
     (if name \<notin> sv_running s then s\<lparr>sv_panicked := True\<rparr>
      else let s = service_stopServer http name s in
        s\<lparr>sv_reported := sv_reported s - {name}, sv_waiting := insert name (sv_waiting s)\<rparr>)"

text \<open>The second half of the goroutine: \<open>ok\<close> says whether the server has started.\<close>

definition restart :: "bool \<Rightarrow> string \<Rightarrow> service \<Rightarrow> service" where
  "restart ok name s =
     s\<lparr>sv_starting := sv_starting s - {name},
       sv_running := (if ok then insert name (sv_running s) else sv_running s)\<rparr>"

text \<open>Stopping the servers, in the order of the table.\<close>

definition service_stopServers :: "(string \<Rightarrow> bool) \<Rightarrow> string list \<Rightarrow> service \<Rightarrow> service" where
  "service_stopServers http names s = fold (service_stopServer http) names s"

inductive service_step :: "(string \<Rightarrow> bool) \<Rightarrow> service \<Rightarrow> service \<Rightarrow> bool" for http :: "string \<Rightarrow> bool" where
  report: "\<lbrakk>\<not> sv_panicked s; name \<in> sv_running s; name \<notin> sv_reported s; \<not> sv_stopping s\<rbrakk> \<Longrightarrow>
    service_step http s (s\<lparr>sv_reported := insert name (sv_reported s)\<rparr>)"
| handle: "\<lbrakk>\<not> sv_panicked s; name \<in> sv_reported s\<rbrakk> \<Longrightarrow> service_step http s (handleServerError http name s)"
| timer: "\<lbrakk>\<not> sv_panicked s; name \<in> sv_waiting s\<rbrakk> \<Longrightarrow>
    service_step http s (s\<lparr>sv_waiting := sv_waiting s - {name}, sv_starting := insert name (sv_starting s)\<rparr>)"
| give_up: "\<lbrakk>\<not> sv_panicked s; name \<in> sv_waiting s; sv_stopping s\<rbrakk> \<Longrightarrow>
    service_step http s (s\<lparr>sv_waiting := sv_waiting s - {name}\<rparr>)"
| restarted: "\<lbrakk>\<not> sv_panicked s; name \<in> sv_starting s\<rbrakk> \<Longrightarrow> service_step http s (restart ok name s)"
| stop: "\<lbrakk>\<not> sv_panicked s; \<not> sv_stopping s\<rbrakk> \<Longrightarrow> service_step http s (s\<lparr>sv_stopping := True\<rparr>)"
| stop_servers: "\<lbrakk>\<not> sv_panicked s; sv_stopping s; set names = sv_running s; distinct names\<rbrakk> \<Longrightarrow>
    service_step http s (service_stopServers http names s)"

abbreviation service_reaches :: "(string \<Rightarrow> bool) \<Rightarrow> service \<Rightarrow> service \<Rightarrow> bool" where
  "service_reaches http \<equiv> (service_step http)\<^sup>*\<^sup>*"

section \<open>Invariants\<close>

text \<open>Where a server is: at most in one of the three places.\<close>

definition service_inv :: "string set \<Rightarrow> service \<Rightarrow> bool" where
  "service_inv names s \<longleftrightarrow> sv_running s \<union> sv_waiting s \<union> sv_starting s \<subseteq> names \<and>
     sv_running s \<inter> sv_waiting s = {} \<and> sv_running s \<inter> sv_starting s = {} \<and> sv_waiting s \<inter> sv_starting s = {}"

lemma protocol_stop_simps [simp]:
  "sv_running (protocol_stop http name s) = sv_running s" "sv_waiting (protocol_stop http name s) = sv_waiting s"
  "sv_starting (protocol_stop http name s) = sv_starting s" "sv_reported (protocol_stop http name s) = sv_reported s"
  by (simp_all add: protocol_stop_def)

lemma service_stopServer_simps [simp]:
  "sv_running (service_stopServer http name s) = sv_running s - {name}"
  "sv_waiting (service_stopServer http name s) = sv_waiting s"
  "sv_starting (service_stopServer http name s) = sv_starting s"
  "sv_reported (service_stopServer http name s) = sv_reported s"
  by (auto simp: service_stopServer_def)

lemma service_stopServers_simps [simp]:
  "sv_running (service_stopServers http names s) = sv_running s - set names"
  "sv_waiting (service_stopServers http names s) = sv_waiting s"
  "sv_starting (service_stopServers http names s) = sv_starting s"
  unfolding service_stopServers_def by (induction names arbitrary: s) auto

lemma service_step_inv: "service_step http s s' \<Longrightarrow> service_inv names s \<Longrightarrow> service_inv names s'"
  by (induction rule: service_step.induct)
    (auto simp: service_inv_def handleServerError_def restart_def Let_def)

text \<open>A server that is in none of the places and has no error left to handle.\<close>

definition abandoned :: "string \<Rightarrow> service \<Rightarrow> bool" where
  "abandoned name s \<longleftrightarrow> name \<notin> sv_running s \<union> sv_waiting s \<union> sv_starting s"

lemma service_step_abandoned:
  "service_step http s s' \<Longrightarrow> abandoned name s \<Longrightarrow> abandoned name s'"
  by (induction rule: service_step.induct)
    (auto simp: abandoned_def handleServerError_def restart_def Let_def)

section \<open>Properties\<close>

text \<open>C36: No server is started twice at a time: in every reachable state a server of the configuration is
  at most in one place, running, waiting to be started again or being started, and once its
  restart has failed it never runs again, however long the service does.\<close>

theorem one_restart:
  assumes "service_reaches http (service_started names) s"
  shows "service_inv names s \<and>
    (name \<in> sv_starting s \<longrightarrow> (\<forall>s'. service_reaches http (restart False name s) s' \<longrightarrow> name \<notin> sv_running s'))"
proof -
  have inv: "service_inv names s"
    using assms
  proof (induction rule: rtranclp_induct)
    case base
    then show ?case by (simp add: service_inv_def service_started_def)
  next
    case (step s1 s2)
    then show ?case using service_step_inv by blast
  qed
  have "name \<notin> sv_running s'" if "name \<in> sv_starting s" "service_reaches http (restart False name s) s'" for s'
  proof -
    have "abandoned name (restart False name s)"
      using inv that(1) by (auto simp: service_inv_def abandoned_def restart_def)
    with that(2) have "abandoned name s'"
      by (induction rule: rtranclp_induct) (blast dest: service_step_abandoned)+
    then show ?thesis by (simp add: abandoned_def)
  qed
  then show ?thesis using inv by blast
qed

lemma one_restart_witness:
  "service_inv {''a''} (service_started {''a''}) \<and> service_reaches (\<lambda>_. True) (service_started {''a''}) (service_started {''a''})"
  using one_restart [of "\<lambda>_. True" "{''a''}" "service_started {''a''}"] by simp

text \<open>An HTTP server that has been started again after a fatal error cannot be stopped: the service
  panics when it stops, because its protocol object closes a channel that the first stop has
  already closed.\<close>

theorem restarted_http_server_panics:
  assumes "http name"
  shows "\<exists>s s'. service_reaches http (service_started {name}) s \<and> sv_running s = {name} \<and> \<not> sv_panicked s \<and>
    sv_stopping s \<and> service_step http s s' \<and> sv_panicked s'"
proof -
  let ?s0 = "service_started {name}"
  let ?s1 = "?s0\<lparr>sv_reported := {name}\<rparr>"
  let ?s2 = "?s0\<lparr>sv_running := {}, sv_waiting := {name}, sv_closed := {name}\<rparr>"
  let ?s3 = "?s0\<lparr>sv_running := {}, sv_starting := {name}, sv_closed := {name}\<rparr>"
  let ?s4 = "?s0\<lparr>sv_closed := {name}\<rparr>"
  let ?s5 = "?s4\<lparr>sv_stopping := True\<rparr>"
  have "service_step http ?s0 ?s1"
    using report [of ?s0 name http] by (simp add: service_started_def)
  moreover have "service_step http ?s1 ?s2"
    using handle [of ?s1 name http] assms
    by (simp add: service_started_def handleServerError_def service_stopServer_def protocol_stop_def)
  moreover have "service_step http ?s2 ?s3"
    using timer [of ?s2 name http] by (simp add: service_started_def)
  moreover have "service_step http ?s3 ?s4"
    using restarted [of ?s3 name http True] by (simp add: service_started_def restart_def)
  moreover have "service_step http ?s4 ?s5"
    using stop [of ?s4 http] by (simp add: service_started_def)
  ultimately have "service_reaches http ?s0 ?s5"
    by (meson rtranclp.rtrancl_into_rtrancl rtranclp.rtrancl_refl)
  moreover have "service_step http ?s5 (service_stopServers http [name] ?s5)"
    by (rule stop_servers) (simp_all add: service_started_def)
  moreover have "sv_panicked (service_stopServers http [name] ?s5)"
    using assms by (simp add: service_stopServers_def service_stopServer_def protocol_stop_def service_started_def)
  ultimately show ?thesis by (intro exI [of _ ?s5] exI conjI) (simp_all add: service_started_def)
qed

lemma restarted_http_server_panics_witness:
  "\<exists>s s'. service_reaches (\<lambda>_. True) (service_started {''web''}) s \<and> service_step (\<lambda>_. True) s s' \<and> sv_panicked s'"
  using restarted_http_server_panics [of "\<lambda>_. True" "''web''"] by auto

end
