(* ===== verification/Configuration.thy ===== *)
theory Configuration
  imports Http_Handler Http_Auth Rate_Limiter
begin

text \<open>
  What the configuration of a handler means: the constraints of its \<open>match\<close> entries
  (\<open>ReadBCLEntry\<close> of \<open>src/pkg/protocols/http/handler.go\<close>), the limits of a block of request rate
  limits (\<open>ReadBCLElement\<close> of \<open>src/pkg/netutils/rate_limiter.go\<close>) and the blocks of
  authentication (\<open>auth_basic.go\<close>, \<open>auth_bearer.go\<close>). The library that parses the file, BCL, is
  not part of the program: a \<open>bcl_entry\<close> holds the answers its methods give for an entry, and a
  \<open>bcl_element\<close> those for a block. A value that cannot be read is an error that makes the
  service refuse the whole file; the model stores nothing for it.
\<close>

section \<open>What the library answers\<close>

text \<open>The number of values, and for each of them what \<open>Value\<close> stores in a destination of a type: a
  string with its sigil, an integer, a boolean, a regular expression; then \<open>CheckValueOneOf\<close>
  and \<open>CheckNbValues\<close>.\<close>

record bcl_entry =
  en_NbValues :: nat
  en_String :: "nat \<Rightarrow> (string \<times> string) option"
  en_Int :: "nat \<Rightarrow> int option"
  en_Bool :: "nat \<Rightarrow> bool option"
  en_Regexp :: "nat \<Rightarrow> (string \<Rightarrow> bool) option"
  en_OneOf :: "nat \<Rightarrow> string list \<Rightarrow> bool"
  en_CheckNb :: "nat \<Rightarrow> bool"

record bcl_element =
  el_IsBlock :: bool
  el_FindEntry :: "string \<Rightarrow> bcl_entry option"
  el_FindEntries :: "string \<Rightarrow> bcl_entry list"

definition text_value :: "bcl_entry \<Rightarrow> nat \<Rightarrow> string option" where
  "text_value e i = map_option snd (en_String e i)"

section \<open>Match entries\<close>

definition read_versions :: "bcl_entry \<Rightarrow> HTTPVersion list" where
  "read_versions e = List.map_filter
     (\<lambda>i. if en_OneOf e i [''HTTP/1.0'', ''HTTP/1.1'', ''HTTP/2'', ''HTTP/3'']
          then Option.bind (text_value e i) HTTPVersion_Parse else None) [1..<en_NbValues e]"

definition read_methods :: "bcl_entry \<Rightarrow> string list" where
  "read_methods e = map
     (\<lambda>i. case text_value e i of None \<Rightarrow> [] | Some m \<Rightarrow> if ValidateBCLMethod m then m else []) [1..<en_NbValues e]"

text \<open>A value with the sigil \<open>re\<close> is a regular expression, any other one what \<open>read\<close> makes of it.\<close>

definition is_regexp :: "bcl_entry \<Rightarrow> nat \<Rightarrow> bool" where
  "is_regexp e i \<longleftrightarrow> (case en_String e i of None \<Rightarrow> False | Some (sigil, _) \<Rightarrow> sigil = ''re'')"

definition read_regexps :: "bcl_entry \<Rightarrow> nat \<Rightarrow> (string \<Rightarrow> bool) list" where
  "read_regexps e start = List.map_filter (\<lambda>i. if is_regexp e i then en_Regexp e i else None) [start..<en_NbValues e]"

definition read_others :: "(string \<Rightarrow> 'b option) \<Rightarrow> bcl_entry \<Rightarrow> nat \<Rightarrow> 'b list" where
  "read_others read e start =
     List.map_filter (\<lambda>i. if is_regexp e i then None else Option.bind (text_value e i) read) [start..<en_NbValues e]"

definition right_value :: "'e + 'b \<Rightarrow> 'b option" where
  "right_value r = (case r of Inl _ \<Rightarrow> None | Inr x \<Rightarrow> Some x)"

text \<open>Appending values to the list of a name in a map, where there may be nothing to append.\<close>

fun append_values :: "string \<Rightarrow> 'b list \<Rightarrow> (string \<times> 'b list) list \<Rightarrow> (string \<times> 'b list) list" where
  "append_values name [] m = m"
| "append_values name (v # vs) m = (case map_of m name of
     None \<Rightarrow> m @ [(name, v # vs)]
   | Some _ \<Rightarrow> map (\<lambda>(k, ws). (k, if k = name then ws @ v # vs else ws)) m)"

definition set_empty :: "string \<Rightarrow> (string \<times> 'b list) list \<Rightarrow> (string \<times> 'b list) list" where
  "set_empty name m = (case map_of m name of
     None \<Rightarrow> m @ [(name, [])]
   | Some _ \<Rightarrow> map (\<lambda>(k, ws). (k, if k = name then [] else ws)) m)"

definition read_header_match :: "bcl_entry \<Rightarrow> MatchCfg \<Rightarrow> MatchCfg" where
  "read_header_match e cfg = (case text_value e 1 of
     None \<Rightarrow> cfg
   | Some name \<Rightarrow>
       let vals = (if en_NbValues e = 1 then set_empty name (HeaderValues cfg) else HeaderValues cfg)
       in cfg\<lparr>HeaderValues := append_values name (read_others Some e 2) vals,
            HeaderRegexps := append_values name (read_regexps e 2) (HeaderRegexps cfg)\<rparr>)"

definition MatchCfg_ReadBCLEntry :: "bcl_entry \<Rightarrow> MatchCfg \<Rightarrow> MatchCfg" where
  "MatchCfg_ReadBCLEntry e cfg = (case text_value e 0 of
     None \<Rightarrow> cfg
   | Some matchType \<Rightarrow>
       if matchType = ''tls'' then
         (case en_Bool e 1 of None \<Rightarrow> cfg | Some b \<Rightarrow> cfg\<lparr>MatchTLS := Some b\<rparr>)
       else if matchType = ''http_version'' then cfg\<lparr>HTTPVersions := HTTPVersions cfg @ read_versions e\<rparr>
       else if matchType = ''method'' then cfg\<lparr>Methods := read_methods e\<rparr>
       else if matchType = ''host'' then
         cfg\<lparr>HostRegexps := HostRegexps cfg @ read_regexps e 1,
           Hosts := Hosts cfg @ read_others (\<lambda>s. right_value (DomainNamePattern_ReadBCLValue (Some s))) e 1\<rparr>
       else if matchType = ''header'' then read_header_match e cfg
       else if matchType = ''path'' then
         cfg\<lparr>PathRegexps := PathRegexps cfg @ read_regexps e 1,
           Paths := Paths cfg @ read_others (\<lambda>s. right_value (PathPattern_ReadBCLValue (Some s))) e 1\<rparr>
       else cfg)"

text \<open>The entries \<open>match\<close> of a handler, in their order.\<close>

definition read_matches :: "bcl_element \<Rightarrow> MatchCfg" where
  "read_matches block = fold MatchCfg_ReadBCLEntry (el_FindEntries block ''match'') empty_MatchCfg"

section \<open>Request rate limits\<close>

text \<open>\<open>readRateLimit\<close>; the period of the file is in seconds. The integers are those of an \<open>int64\<close>.\<close>

definition readRateLimit :: "bcl_entry \<Rightarrow> nat \<Rightarrow> RateCounterCfg option" where
  "readRateLimit e firstValue =
     (if en_NbValues e = firstValue + 1 then Some \<lparr>CfgLimit = 0, CfgPeriod = 0\<rparr>
      else if \<not> en_CheckNb e (firstValue + 2) then None
      else (case en_Int e firstValue of
          None \<Rightarrow> None
        | Some limit \<Rightarrow> (case en_Int e (firstValue + 1) of
            None \<Rightarrow> None
          | Some period \<Rightarrow> Some \<lparr>CfgLimit = limit, CfgPeriod = wrap64 (period * 1000)\<rparr>)))"

definition put_limit :: "'k \<Rightarrow> 'v \<Rightarrow> ('k \<times> 'v) list \<Rightarrow> ('k \<times> 'v) list" where
  "put_limit k v m = (if map_of m k = None then m @ [(k, v)] else map (\<lambda>(l, w). (l, if l = k then v else w)) m)"

definition put_read :: "'k option \<Rightarrow> RateCounterCfg option \<Rightarrow> ('k \<times> RateCounterCfg) list \<Rightarrow> ('k \<times> RateCounterCfg) list" where
  "put_read k c m = (case (k, c) of (Some k, Some c) \<Rightarrow> put_limit k c m | _ \<Rightarrow> m)"

text \<open>The addresses are keys by pointer, so every entry is a key of its own.\<close>

definition read_addresses ::
  "(string \<Rightarrow> address_error + IPNet) \<Rightarrow> bcl_entry list \<Rightarrow> (IPNet \<times> RateCounterCfg) list" where
  "read_addresses read es = List.map_filter
     (\<lambda>e. case (Option.bind (text_value e 0) (\<lambda>s. right_value (read s)), readRateLimit e 1) of
        (Some addr, Some c) \<Rightarrow> Some (addr, c)
      | _ \<Rightarrow> None) es"

definition read_networks ::
  "(string \<Rightarrow> nettype_error + int) \<Rightarrow> bcl_entry list \<Rightarrow> (int \<times> RateCounterCfg) list \<Rightarrow> (int \<times> RateCounterCfg) list" where
  "read_networks read es m =
     fold (\<lambda>e. put_read (Option.bind (text_value e 0) (\<lambda>s. right_value (read s))) (readRateLimit e 1)) es m"

definition RateLimiterCfg_ReadBCLElement :: "bcl_element \<Rightarrow> RateLimiterCfg" where
  "RateLimiterCfg_ReadBCLElement elt =
     (if \<not> el_IsBlock elt then \<lparr>CfgGlobal = None, CfgPerIPv4 = [], CfgPerIPv6 = [], CfgAddresses = []\<rparr>
      else
        let readOne = (\<lambda>name. Option.bind (el_FindEntry elt name) (\<lambda>e. readRateLimit e 0));
            perAddress = readOne ''per_address'';
            v4 = put_read (Some 32) perAddress [];
            v6 = put_read (Some 48) perAddress [];
            v4 = put_read (Some 32) (readOne ''per_ipv4_address'') v4;
            v4 = read_networks IPv4NetType_Parse (el_FindEntries elt ''per_ipv4_network'') v4;
            v6 = read_networks IPv6NetType_Parse (el_FindEntries elt ''per_ipv6_network'') v6
        in \<lparr>CfgGlobal = readOne ''global'', CfgPerIPv4 = v4, CfgPerIPv6 = v6,
            CfgAddresses = read_addresses (\<lambda>s. IPAddr_ReadBCLValue (Some s)) (el_FindEntries elt ''address'') @
              read_addresses (\<lambda>s. IPNetAddr_ReadBCLValue (Some s)) (el_FindEntries elt ''network'')\<rparr>)"

section \<open>Authentication\<close>

text \<open>Each entry \<open>user\<close> has two values, each entry \<open>token\<close> one; the file is an entry of its own.\<close>

definition entry_file :: "bcl_element \<Rightarrow> string \<Rightarrow> string" where
  "entry_file block name = (case Option.bind (el_FindEntry block name) (\<lambda>e. text_value e 0) of None \<Rightarrow> [] | Some s \<Rightarrow> s)"

definition value_or_empty :: "bcl_entry \<Rightarrow> nat \<Rightarrow> string" where
  "value_or_empty e i = (case text_value e i of None \<Rightarrow> [] | Some s \<Rightarrow> s)"

definition BasicAuthCfg_ReadBCLElement :: "bcl_element \<Rightarrow> string list \<times> string" where
  "BasicAuthCfg_ReadBCLElement block =
     (map (\<lambda>e. value_or_empty e 0 @ '':'' @ value_or_empty e 1) (el_FindEntries block ''user''),
      entry_file block ''user_file_path'')"

definition BearerAuthCfg_ReadBCLElement :: "bcl_element \<Rightarrow> string list \<times> string" where
  "BearerAuthCfg_ReadBCLElement block =
     (map (\<lambda>e. value_or_empty e 0) (el_FindEntries block ''token''), entry_file block ''token_file'')"

section \<open>Lemmas\<close>

lemma fold_append: "(\<And>e c. sel (step e c) = sel c @ out e) \<Longrightarrow> sel (fold step es c) = sel c @ concat (map out es)"
  by (induction es arbitrary: c) simp_all

text \<open>Entries of another kind contribute nothing.\<close>

definition of_kind :: "string \<Rightarrow> bcl_entry \<Rightarrow> bool" where
  "of_kind k e \<longleftrightarrow> text_value e 0 = Some k"

definition kind_entries :: "string \<Rightarrow> bcl_element \<Rightarrow> bcl_entry list" where
  "kind_entries k block = filter (of_kind k) (el_FindEntries block ''match'')"

lemma concat_kinds: "concat (map (\<lambda>e. if P e then out e else []) es) = concat (map out (filter P es))"
  by (induction es) simp_all

lemma read_header_match_simps [simp]:
  "HTTPVersions (read_header_match e cfg) = HTTPVersions cfg" "Methods (read_header_match e cfg) = Methods cfg"
  "Hosts (read_header_match e cfg) = Hosts cfg" "HostRegexps (read_header_match e cfg) = HostRegexps cfg"
  "Paths (read_header_match e cfg) = Paths cfg" "PathRegexps (read_header_match e cfg) = PathRegexps cfg"
  by (simp_all add: read_header_match_def Let_def split: option.split)

lemma fold_last:
  assumes "\<And>e c. sel (step e c) = (if P e then out e else sel c)"
  shows "sel (fold step es c) = (case rev (filter P es) of [] \<Rightarrow> sel c | e # _ \<Rightarrow> out e)"
  by (induction es arbitrary: c) (auto simp: assms split: list.splits)

lemma entry_steps:
  "HTTPVersions (MatchCfg_ReadBCLEntry e cfg) = HTTPVersions cfg @ (if of_kind ''http_version'' e then read_versions e else [])"
  "Methods (MatchCfg_ReadBCLEntry e cfg) = (if of_kind ''method'' e then read_methods e else Methods cfg)"
  "Hosts (MatchCfg_ReadBCLEntry e cfg) = Hosts cfg @ (if of_kind ''host'' e
     then read_others (\<lambda>s. right_value (DomainNamePattern_ReadBCLValue (Some s))) e 1 else [])"
  "HostRegexps (MatchCfg_ReadBCLEntry e cfg) = HostRegexps cfg @ (if of_kind ''host'' e then read_regexps e 1 else [])"
  "Paths (MatchCfg_ReadBCLEntry e cfg) = Paths cfg @ (if of_kind ''path'' e
     then read_others (\<lambda>s. right_value (PathPattern_ReadBCLValue (Some s))) e 1 else [])"
  "PathRegexps (MatchCfg_ReadBCLEntry e cfg) = PathRegexps cfg @ (if of_kind ''path'' e then read_regexps e 1 else [])"
  by (auto simp: MatchCfg_ReadBCLEntry_def of_kind_def split: option.split)

lemma lone_header_entry:
  "text_value e 0 = Some ''header'' \<Longrightarrow> en_NbValues e = 2 \<Longrightarrow> MatchCfg_ReadBCLEntry e cfg = cfg"
  by (simp add: MatchCfg_ReadBCLEntry_def read_header_match_def read_others_def read_regexps_def Let_def
      List.map_filter_def split: option.split)

lemma satisfies_empty: "satisfies empty_MatchCfg ctx"
  by (simp add: satisfies_def empty_MatchCfg_def tls_matches_def version_matches_def method_matches_def
      host_matches_def header_matches_def path_matches_def HasPaths_def Let_def)

lemma wrap64_dvd: "2 ^ 61 dvd period \<Longrightarrow> wrap64 (period * 1000) = 0"
proof (erule dvdE)
  fix k :: int
  assume "period = 2 ^ 61 * k"
  then have "period * 1000 = 2 ^ 64 * (125 * k)" by simp
  then show "wrap64 (period * 1000) = 0" by (simp add: wrap64_def mod_add_left_eq [symmetric])
qed

section \<open>Properties\<close>

text \<open>What the \<open>match\<close> entries of a handler amount to: the versions, the hosts and the paths of all
  entries count, whatever entries stand between them, but of the entries \<open>method\<close> only the
  last one does.\<close>

theorem match_entries_read:
  shows "HTTPVersions (read_matches block) = concat (map read_versions (kind_entries ''http_version'' block)) \<and>
    Hosts (read_matches block) =
      concat (map (\<lambda>e. read_others (\<lambda>s. right_value (DomainNamePattern_ReadBCLValue (Some s))) e 1) (kind_entries ''host'' block)) \<and>
    HostRegexps (read_matches block) = concat (map (\<lambda>e. read_regexps e 1) (kind_entries ''host'' block)) \<and>
    Paths (read_matches block) =
      concat (map (\<lambda>e. read_others (\<lambda>s. right_value (PathPattern_ReadBCLValue (Some s))) e 1) (kind_entries ''path'' block)) \<and>
    PathRegexps (read_matches block) = concat (map (\<lambda>e. read_regexps e 1) (kind_entries ''path'' block)) \<and>
    Methods (read_matches block) = (case rev (kind_entries ''method'' block) of [] \<Rightarrow> [] | e # _ \<Rightarrow> read_methods e)"
proof -
  note a = fold_append [where step = MatchCfg_ReadBCLEntry and es = "el_FindEntries block ''match''" and c = empty_MatchCfg]
  show ?thesis
    using a [where sel = HTTPVersions, OF entry_steps(1)] a [where sel = Hosts, OF entry_steps(3)]
      a [where sel = HostRegexps, OF entry_steps(4)] a [where sel = Paths, OF entry_steps(5)]
      a [where sel = PathRegexps, OF entry_steps(6)] fold_last [where sel = Methods and step = MatchCfg_ReadBCLEntry
        and es = "el_FindEntries block ''match''" and c = empty_MatchCfg, OF entry_steps(2)]
    by (simp add: read_matches_def kind_entries_def concat_kinds empty_MatchCfg_def split: list.split)
qed

text \<open>A constraint on the presence of a header field constrains nothing: an entry \<open>match header\<close> with
  the name of a field and no value leaves the specification as it is, so a handler whose only
  constraint it is matches every request, with or without the field.\<close>

theorem header_presence_ignored:
  assumes "text_value e 0 = Some ''header''" "en_NbValues e = 2" "el_FindEntries block ''match'' = [e]"
  shows "MatchCfg_ReadBCLEntry e cfg = cfg \<and> satisfies (read_matches block) ctx"
  using lone_header_entry [OF assms(1,2)] satisfies_empty [of ctx] by (simp add: read_matches_def assms(3))


text \<open>The period of a limit is not checked: with a period of 0, or one whose milliseconds wrap around
  to 0, such as 2^61 seconds, a limiter with this limit alone lets every request through,
  whatever the limit, even 0.\<close>

theorem unchecked_period_disables_limit:
  assumes "el_IsBlock elt" "el_FindEntry elt ''global'' = Some e" "en_NbValues e = 2" "en_CheckNb e 2"
    and "en_Int e 0 = Some limit" "en_Int e 1 = Some period" "2 ^ 61 dvd period"
    and "\<And>name. name \<noteq> ''global'' \<Longrightarrow> el_FindEntry elt name = None" "\<And>name. el_FindEntries elt name = []"
  shows "RateLimiter_Update clock (NewRateLimiter start (RateLimiterCfg_ReadBCLElement elt)) n addr now =
    (True, NewRateLimiter start (RateLimiterCfg_ReadBCLElement elt))"
proof -
  have "readRateLimit e 0 = Some \<lparr>CfgLimit = limit, CfgPeriod = 0\<rparr>"
    using assms(3-6) wrap64_dvd [OF assms(7)] by (simp add: readRateLimit_def numeral_2_eq_2)
  then have "RateLimiterCfg_ReadBCLElement elt =
      \<lparr>CfgGlobal = Some \<lparr>CfgLimit = limit, CfgPeriod = 0\<rparr>, CfgPerIPv4 = [], CfgPerIPv6 = [], CfgAddresses = []\<rparr>"
    using assms(1,2,8,9) by (simp add: RateLimiterCfg_ReadBCLElement_def put_read_def read_networks_def
        read_addresses_def List.map_filter_def Let_def)
  then show ?thesis
    by (simp add: RateLimiter_Update_def NewRateLimiter_def NewRateCounter_def RateCounter_Update_def Let_def)
qed

definition demo_entry :: "string list \<Rightarrow> bcl_entry" where
  "demo_entry vals = \<lparr>en_NbValues = length vals,
     en_String = \<lambda>i. if i < length vals then Some ([], vals ! i) else None,
     en_Int = \<lambda>i. if i < length vals then ParseInt (vals ! i) else None,
     en_Bool = \<lambda>i. if i < length vals then Some (vals ! i = ''true'') else None,
     en_Regexp = \<lambda>_. None, en_OneOf = \<lambda>i names. i < length vals \<and> vals ! i \<in> set names,
     en_CheckNb = \<lambda>n. length vals = n\<rparr>"

definition demo_limits :: "string \<Rightarrow> bcl_element" where
  "demo_limits period = \<lparr>el_IsBlock = True,
     el_FindEntry = \<lambda>name. if name = ''global'' then Some (demo_entry [''5'', period]) else None,
     el_FindEntries = \<lambda>_. []\<rparr>"

theorem header_presence_ignored_witness:
  "satisfies (read_matches \<lparr>el_IsBlock = True, el_FindEntry = \<lambda>_. None,
    el_FindEntries = \<lambda>_. [demo_entry [''header'', ''User-Agent'']]\<rparr>) (NewRequestContext id demo_request \<lparr>sent = [], room = None, werr = EOF\<rparr> :: nat RequestContext)"
proof -
  have e: "text_value (demo_entry [''header'', ''User-Agent'']) 0 = Some ''header''"
    "en_NbValues (demo_entry [''header'', ''User-Agent'']) = 2" by (simp_all add: demo_entry_def text_value_def)
  show ?thesis by (rule header_presence_ignored [OF e, THEN conjunct2]) simp
qed


theorem unchecked_period_disables_limit_witness:
  "fst (RateLimiter_Update 7000 (NewRateLimiter 5500 (RateLimiterCfg_ReadBCLElement (demo_limits ''0''))) 1
    [192, 0, 2, 1] 7000)"
proof -
  have "ParseInt ''5'' = Some 5" "ParseInt ''0'' = Some 0" by code_simp+
  then show ?thesis
    using unchecked_period_disables_limit [of "demo_limits ''0''" "demo_entry [''5'', ''0'']" 5 0 7000 5500 1 "[192, 0, 2, 1]" 7000]
    by (simp add: demo_limits_def demo_entry_def)
qed

end
