(* ===== verification/Lifecycle.thy ===== *)
theory Lifecycle
  imports Addresses Http_Auth "HOL-Library.Multiset"
begin

text \<open>
  Starting and stopping: \<open>src/pkg/boulevard/listener.go\<close> and \<open>server.go\<close>, \<open>Start\<close> and \<open>Stop\<close> of
  the HTTP protocol (\<open>src/pkg/protocols/http/protocol.go\<close>) and of its handlers (\<open>handler.go\<close>).
  What is started holds resources of the operating system, and the world is the multiset of
  those that are held. \<open>os\<close> gathers what may fail outside: \<open>os_fails w r\<close> says whether the
  resource \<open>r\<close> cannot be had when \<open>w\<close> is held (an address already in use, a file that cannot
  be opened), \<open>os_tls\<close> whether the certificates of a TLS configuration can be loaded,
  \<open>os_new\<close> and \<open>os_start\<close> what creating and starting an action takes, if it can be done.
\<close>

section \<open>Resources\<close>

datatype resource = Socket string | LogFile string | ActionPart nat

type_synonym held = "resource multiset"

datatype start_error =
    MissingACMEClient
  | InvalidListenAddress
  | InvalidListenPort
  | CannotLoadCertificate
  | CannotAcquire resource
  | CannotInitAuth
  | CannotCreateAction
  | CannotStartAction
  | DuplicateName string

record os =
  os_fails :: "held \<Rightarrow> resource \<Rightarrow> bool"
  os_tls :: "TLSCfg \<Rightarrow> bool"
  os_trim :: "string \<Rightarrow> string"
  os_files :: "string \<Rightarrow> io_error + string"
  os_new :: "nat \<Rightarrow> nat list option"
  os_start :: "nat \<Rightarrow> nat list option"

definition acquire :: "os \<Rightarrow> resource \<Rightarrow> held \<Rightarrow> (start_error + unit) \<times> held" where
  "acquire os r w = (if os_fails os w r then (Inl (CannotAcquire r), w) else (Inr (), add_mset r w))"

definition release :: "resource \<Rightarrow> held \<Rightarrow> held" where
  "release r w = w - {#r#}"

section \<open>The contract of a part that is started and stopped\<close>

text \<open>
  A part that has started holds what it owns, and stopping it gives exactly that back. A part
  is \<open>clean\<close> when a start that fails holds nothing.
\<close>

locale startable =
  fixes start :: "'c \<Rightarrow> held \<Rightarrow> ('e + 'h) \<times> held"
    and stop :: "'h \<Rightarrow> held \<Rightarrow> held"
    and owns :: "'h \<Rightarrow> held"
  assumes started: "start c w = (Inr h, w') \<Longrightarrow> w' = w + owns h"
    and stopped: "stop h (w + owns h) = w"
begin

lemma start_stop: "start c w = (Inr h, w') \<Longrightarrow> stop h w' = w"
  using started stopped by blast

lemma stop_list: "foldl (\<lambda>w h. stop h w) (w + (\<Sum>h \<leftarrow> hs. owns h)) hs = w"
proof (induction hs)
  case (Cons h hs)
  have "stop h (w + (\<Sum>h \<leftarrow> h # hs. owns h)) = w + (\<Sum>h \<leftarrow> hs. owns h)"
    using stopped [of h "w + (\<Sum>h \<leftarrow> hs. owns h)"] by (simp add: ac_simps)
  then show ?case using Cons by simp
qed simp

end

locale clean_startable = startable start stop owns
  for start :: "'c \<Rightarrow> held \<Rightarrow> ('e + 'h) \<times> held" and stop :: "'h \<Rightarrow> held \<Rightarrow> held" and owns :: "'h \<Rightarrow> held" +
  assumes failed: "start c w = (Inl e, w') \<Longrightarrow> w' = w"

text \<open>
  The loop that starts a list of parts: when one fails, those before it are stopped, in the
  order in which they were started.
\<close>

fun start_all ::
  "('c \<Rightarrow> held \<Rightarrow> ('e + 'h) \<times> held) \<Rightarrow> ('h \<Rightarrow> held \<Rightarrow> held) \<Rightarrow> 'c list \<Rightarrow> 'h list \<Rightarrow> held \<Rightarrow>
     ('e + 'h list) \<times> held" where
  "start_all start stop [] hs w = (Inr hs, w)"
| "start_all start stop (c # cs) hs w = (case start c w of
     (Inl e, w) \<Rightarrow> (Inl e, foldl (\<lambda>w h. stop h w) w hs)
   | (Inr h, w) \<Rightarrow> start_all start stop cs (hs @ [h]) w)"

definition stop_all :: "('h \<Rightarrow> held \<Rightarrow> held) \<Rightarrow> 'h list \<Rightarrow> held \<Rightarrow> held" where
  "stop_all stop hs w = foldl (\<lambda>w h. stop h w) w hs"

context clean_startable
begin

lemma start_all_cases:
  "start_all start stop cs hs (w + (\<Sum>h \<leftarrow> hs. owns h)) = (r, w') \<Longrightarrow>
    (case r of Inl e \<Rightarrow> w' = w | Inr hs' \<Rightarrow> w' = w + (\<Sum>h \<leftarrow> hs'. owns h))"
proof (induction cs arbitrary: hs)
  case Nil
  then show ?case by auto
next
  case (Cons c cs)
  obtain r1 w1 where s: "start c (w + (\<Sum>h \<leftarrow> hs. owns h)) = (r1, w1)" by fastforce
  show ?case
  proof (cases r1)
    case (Inl e)
    then have "w1 = w + (\<Sum>h \<leftarrow> hs. owns h)" using s failed by simp
    then show ?thesis using Cons.prems s Inl stop_list by auto
  next
    case (Inr h)
    then have "w1 = w + (\<Sum>h \<leftarrow> hs @ [h]. owns h)" using started [OF s [unfolded Inr]] by (simp add: ac_simps)
    then show ?thesis using Cons.IH [of "hs @ [h]"] Cons.prems s Inr by simp
  qed
qed

lemma all_started: "start_all start stop cs [] w = (Inr hs, w') \<Longrightarrow> w' = w + (\<Sum>h \<leftarrow> hs. owns h)"
  using start_all_cases [of cs "[]" w "Inr hs" w'] by simp

lemma all_failed: "start_all start stop cs [] w = (Inl e, w') \<Longrightarrow> w' = w"
  using start_all_cases [of cs "[]" w "Inl e" w'] by simp

lemma all_stopped: "stop_all stop hs (w + (\<Sum>h \<leftarrow> hs. owns h)) = w"
  by (simp add: stop_all_def stop_list)

end

section \<open>Listeners\<close>

record ListenerCfg =
  lc_Address :: string
  lc_TLS :: "TLSCfg option"

record Listener =
  ls_Cfg :: ListenerCfg
  ls_Port :: int

definition listen :: "os \<Rightarrow> ListenerCfg \<Rightarrow> held \<Rightarrow> (start_error + unit) \<times> held" where
  "listen os cfg w =
     (if (case lc_TLS cfg of None \<Rightarrow> False | Some tls \<Rightarrow> \<not> os_tls os tls) then (Inl CannotLoadCertificate, w)
      else acquire os (Socket (lc_Address cfg)) w)"

text \<open>\<open>acme\<close> says whether there is an ACME client.\<close>

definition StartListener :: "os \<Rightarrow> bool \<Rightarrow> ListenerCfg \<Rightarrow> held \<Rightarrow> (start_error + Listener) \<times> held" where
  "StartListener os acme cfg w =
     (if (case lc_TLS cfg of None \<Rightarrow> False | Some tls \<Rightarrow> length (TlsDomains tls) > 0 \<and> \<not> acme) then
        (Inl MissingACMEClient, w)
      else case SplitHostPort (lc_Address cfg) of
             Inl _ \<Rightarrow> (Inl InvalidListenAddress, w)
           | Inr (_, port) \<Rightarrow> (case ParseInt port of
               None \<Rightarrow> (Inl InvalidListenPort, w)
             | Some portNumber \<Rightarrow>
                 if portNumber < 1 \<or> portNumber > 65535 then (Inl InvalidListenPort, w)
                 else (case listen os cfg w of
                     (Inl e, w) \<Rightarrow> (Inl e, w)
                   | (Inr _, w) \<Rightarrow> (Inr \<lparr>ls_Cfg = cfg, ls_Port = portNumber\<rparr>, w))))"

definition Listener_Stop :: "Listener \<Rightarrow> held \<Rightarrow> held" where
  "Listener_Stop l w = release (Socket (lc_Address (ls_Cfg l))) w"

definition listener_owns :: "Listener \<Rightarrow> held" where
  "listener_owns l = {#Socket (lc_Address (ls_Cfg l))#}"

interpretation listener: clean_startable "StartListener os acme" Listener_Stop listener_owns for os acme
proof (unfold_locales, goal_cases)
  case (1 c w h w')
  then show ?case
    by (auto simp: StartListener_def listen_def acquire_def listener_owns_def
        split: sum.splits option.splits prod.splits if_splits)
next
  case (2 h w)
  then show ?case by (simp add: Listener_Stop_def listener_owns_def release_def)
next
  case (3 c w e w')
  then show ?case
    by (auto simp: StartListener_def listen_def acquire_def
        split: sum.splits option.splits prod.splits if_splits)
qed

section \<open>Handlers\<close>

text \<open>The configuration of a handler: the path of its access log, its authentication, its action
  and the nested handlers.\<close>

datatype HandlerStartCfg = HandlerStartCfg "string option" "AuthCfg option" nat "HandlerStartCfg list"

text \<open>A running handler: its access log, the parts of its action and the nested handlers.\<close>

datatype RunningHandler = RunningHandler "string option" "nat list" "RunningHandler list"

definition open_log :: "os \<Rightarrow> string option \<Rightarrow> held \<Rightarrow> (start_error + unit) \<times> held" where
  "open_log os path w = (case path of None \<Rightarrow> (Inr (), w) | Some p \<Rightarrow> acquire os (LogFile p) w)"

definition close_log :: "string option \<Rightarrow> held \<Rightarrow> held" where
  "close_log path w = (case path of None \<Rightarrow> w | Some p \<Rightarrow> release (LogFile p) w)"

definition take_parts :: "nat list \<Rightarrow> held \<Rightarrow> held" where
  "take_parts ps w = w + mset (map ActionPart ps)"

definition drop_parts :: "nat list \<Rightarrow> held \<Rightarrow> held" where
  "drop_parts ps w = w - mset (map ActionPart ps)"

text \<open>Whether \<open>NewAuth\<close> succeeds, for a handler that has authentication.\<close>

definition auth_starts :: "os \<Rightarrow> AuthCfg option \<Rightarrow> bool" where
  "auth_starts os cfg = (case cfg of
     None \<Rightarrow> True
   | Some c \<Rightarrow> (case NewAuth (os_trim os) (os_files os) c of Some (Inr _) \<Rightarrow> True | _ \<Rightarrow> False))"

fun Handler_Stop :: "RunningHandler \<Rightarrow> held \<Rightarrow> held" where
  "Handler_Stop (RunningHandler lg parts hs) w =
     close_log lg (drop_parts parts (fold Handler_Stop hs w))"

fun StartHandler :: "os \<Rightarrow> HandlerStartCfg \<Rightarrow> held \<Rightarrow> (start_error + RunningHandler) \<times> held"
  and StartHandlers :: "os \<Rightarrow> HandlerStartCfg list \<Rightarrow> RunningHandler list \<Rightarrow> held \<Rightarrow>
    (start_error + RunningHandler list) \<times> held" where
  "StartHandler os (HandlerStartCfg lg auth action nested) w =
     (case open_log os lg w of
        (Inl e, w) \<Rightarrow> (Inl e, w)
      | (Inr _, w) \<Rightarrow>
          if \<not> auth_starts os auth then (Inl CannotInitAuth, close_log lg w)
          else case os_new os action of
                 None \<Rightarrow> (Inl CannotCreateAction, w)
               | Some parts \<Rightarrow>
                   (case os_start os action of
                      None \<Rightarrow> (Inl CannotStartAction, take_parts parts w)
                    | Some parts2 \<Rightarrow>
                        (case StartHandlers os nested [] (take_parts (parts @ parts2) w) of
                           (Inl e, w) \<Rightarrow> (Inl e, w)
                         | (Inr hs, w) \<Rightarrow> (Inr (RunningHandler lg (parts @ parts2) hs), w))))"
| "StartHandlers os [] hs w = (Inr hs, w)"
| "StartHandlers os (c # cs) hs w = (case StartHandler os c w of
     (Inl e, w) \<Rightarrow> (Inl e, fold Handler_Stop hs w)
   | (Inr h, w) \<Rightarrow> StartHandlers os cs (hs @ [h]) w)"

lemma StartHandlers_start_all:
  "StartHandlers os cs hs w = start_all (StartHandler os) Handler_Stop cs hs w"
  by (induction cs arbitrary: hs w) (auto simp: fold_def foldl_conv_fold split: prod.splits sum.splits)

definition log_owns :: "string option \<Rightarrow> held" where
  "log_owns path = (case path of None \<Rightarrow> {#} | Some p \<Rightarrow> {#LogFile p#})"

fun handler_owns :: "RunningHandler \<Rightarrow> held" where
  "handler_owns (RunningHandler lg parts hs) =
     log_owns lg + mset (map ActionPart parts) + (\<Sum>h \<leftarrow> hs. handler_owns h)"

lemma log_simps [simp]:
  "open_log os path w = (Inr u, w') \<Longrightarrow> w' = w + log_owns path"
  "open_log os path w = (Inl e, w') \<Longrightarrow> w' = w"
  "close_log path (w + log_owns path) = w"
  by (auto simp: open_log_def close_log_def log_owns_def acquire_def release_def split: option.splits if_splits)

lemma Handler_Stop_owns: "Handler_Stop h (w + handler_owns h) = w"
proof (induction h arbitrary: w)
  case (RunningHandler lg parts hs)
  have "fold Handler_Stop hs (w + (\<Sum>h \<leftarrow> hs. handler_owns h)) = w" for w
    using RunningHandler
  proof (induction hs arbitrary: w)
    case (Cons h hs)
    have "Handler_Stop h (w + (\<Sum>h \<leftarrow> h # hs. handler_owns h)) = w + (\<Sum>h \<leftarrow> hs. handler_owns h)"
      using Cons.prems [of h "w + (\<Sum>h \<leftarrow> hs. handler_owns h)"] by (simp add: ac_simps)
    then show ?case using Cons by simp
  qed simp
  from this [of "w + log_owns lg + mset (map ActionPart parts)"] show ?case
    by (simp add: drop_parts_def add.assoc [symmetric])
qed

lemma StartHandler_owns:
  "StartHandler os c w = (Inr h, w') \<Longrightarrow> w' = w + handler_owns h"
  "StartHandlers os cs hs w = (Inr hs', w') \<Longrightarrow>
    \<exists>new. hs' = hs @ new \<and> w' = w + (\<Sum>h \<leftarrow> new. handler_owns h)"
proof (induction os c w and os cs hs w arbitrary: h w' and hs' w' rule: StartHandler_StartHandlers.induct)
  case (1 os lg auth action nested w)
  obtain u w1 where o: "open_log os lg w = (Inr u, w1)" using 1(2) by (auto split: prod.splits sum.splits)
  have a: "auth_starts os auth" using 1(2) o by (auto split: if_splits)
  obtain p1 p2 where p: "os_new os action = Some p1" "os_start os action = Some p2"
    using 1(2) o a by (auto split: option.splits)
  obtain hs where hs: "StartHandlers os nested [] (take_parts (p1 @ p2) w1) = (Inr hs, w')" "h = RunningHandler lg (p1 @ p2) hs"
    using 1(2) o a p by (auto split: prod.splits sum.splits)
  show ?case using 1(1) [OF o [symmetric] refl _ p(1) p(2) hs(1)] a hs o
    by (auto simp: take_parts_def ac_simps)
next
  case (3 os c cs hs w)
  obtain h w1 where h: "StartHandler os c w = (Inr h, w1)" using 3(3) by (auto split: prod.splits sum.splits)
  have "StartHandlers os cs (hs @ [h]) w1 = (Inr hs', w')" using 3(3) h by simp
  from 3(2) [OF h [symmetric] refl this] 3(1) [OF h] show ?case by (auto simp: ac_simps)
qed simp

interpretation handler: startable "StartHandler os" Handler_Stop handler_owns for os
  by unfold_locales (simp_all add: StartHandler_owns(1) Handler_Stop_owns)

text \<open>A start that fails never gives back what was held before it, and takes no socket.\<close>

definition leaks :: "held \<Rightarrow> held \<Rightarrow> bool" where
  "leaks w w' \<longleftrightarrow> (\<exists>leak. w' = w + leak \<and> (\<forall>r \<in># leak. \<not> (\<exists>a. r = Socket a)))"

lemma leaks_refl [simp]: "leaks w w"
  by (simp add: leaks_def)

lemma leaks_trans: "leaks u v \<Longrightarrow> leaks v w \<Longrightarrow> leaks u w"
proof -
  assume "leaks u v" "leaks v w"
  then obtain l1 l2 where "v = u + l1" "w = v + l2" "\<forall>r \<in># l1. \<not> (\<exists>a. r = Socket a)" "\<forall>r \<in># l2. \<not> (\<exists>a. r = Socket a)"
    by (auto simp: leaks_def)
  then have "w = u + (l1 + l2)" "\<forall>r \<in># l1 + l2. \<not> (\<exists>a. r = Socket a)" by (auto simp: add.assoc)
  then show ?thesis unfolding leaks_def by blast
qed

lemma leaks_log: "leaks w (w + log_owns lg)"
  by (auto simp: leaks_def log_owns_def split: option.split)

lemma leaks_parts: "leaks w (take_parts ps w)"
  by (auto simp: leaks_def take_parts_def)

lemma leaks_subset: "leaks w w' \<Longrightarrow> w \<subseteq># w'"
  by (auto simp: leaks_def)

lemma Handlers_stopped: "fold Handler_Stop hs (w + (\<Sum>h \<leftarrow> hs. handler_owns h)) = w"
  using handler.stop_list [of w hs] by (simp add: foldl_conv_fold)

lemma StartHandler_fails:
  "StartHandler os c w = (Inl e, w') \<Longrightarrow> leaks w w'"
  "StartHandlers os cs hs (w0 + (\<Sum>h \<leftarrow> hs. handler_owns h)) = (Inl e, w') \<Longrightarrow> leaks w0 w'"
proof (induction os c w and os cs hs "w0 + (\<Sum>h \<leftarrow> hs. handler_owns h)"
    arbitrary: e w' and w0 e w' rule: StartHandler_StartHandlers.induct)
  case (1 os lg auth action nested w)
  obtain r w1 where o: "open_log os lg w = (r, w1)" by fastforce
  show ?case
  proof (cases r)
    case (Inl e1)
    then show ?thesis using 1(2) o by (auto dest: log_simps(2))
  next
    case u: (Inr u)
    then have w1: "w1 = w + log_owns lg" using o by auto
    consider "\<not> auth_starts os auth" | "auth_starts os auth" "os_new os action = None"
      | p1 where "auth_starts os auth" "os_new os action = Some p1" "os_start os action = None"
      | p1 p2 where "auth_starts os auth" "os_new os action = Some p1" "os_start os action = Some p2"
      by (metis not_None_eq)
    then show ?thesis
    proof cases
      case 1
      then show ?thesis using \<open>StartHandler os (HandlerStartCfg lg auth action nested) w = (Inl e, w')\<close> o u w1
        by auto
    next
      case 2
      then show ?thesis using \<open>StartHandler os (HandlerStartCfg lg auth action nested) w = (Inl e, w')\<close> o u w1
        by (auto intro: leaks_log)
    next
      case 3
      then show ?thesis using \<open>StartHandler os (HandlerStartCfg lg auth action nested) w = (Inl e, w')\<close> o u w1
        by (auto intro: leaks_trans [OF leaks_log leaks_parts])
    next
      case 4
      then have "StartHandlers os nested [] (take_parts (p1 @ p2) w1) = (Inl e, w')"
        using \<open>StartHandler os (HandlerStartCfg lg auth action nested) w = (Inl e, w')\<close> o u
        by (auto split: prod.splits sum.splits)
      then have "leaks (take_parts (p1 @ p2) w1) w'"
        using 1(1) [OF o [symmetric] u _ 4(2,3), of "take_parts (p1 @ p2) w1" e w'] 4(1) by simp
      then show ?thesis unfolding w1 by (rule leaks_trans [OF leaks_trans [OF leaks_log leaks_parts]])
    qed
  qed
next
  case (3 os c cs hs)
  obtain r w1 where s: "StartHandler os c (w0 + (\<Sum>h \<leftarrow> hs. handler_owns h)) = (r, w1)" by fastforce
  show ?case
  proof (cases r)
    case (Inl e1)
    then have "leaks (w0 + (\<Sum>h \<leftarrow> hs. handler_owns h)) w1" using 3(1) s by simp
    then obtain leak where l: "w1 = w0 + leak + (\<Sum>h \<leftarrow> hs. handler_owns h)"
        "\<forall>r \<in># leak. \<not> (\<exists>a. r = Socket a)" by (auto simp: leaks_def ac_simps)
    have "w' = w0 + leak" using 3(3) s Inl l(1) Handlers_stopped [of hs "w0 + leak"] by simp
    then show ?thesis using l(2) by (auto simp: leaks_def)
  next
    case (Inr h)
    have w1: "w1 = w0 + (\<Sum>h \<leftarrow> hs @ [h]. handler_owns h)"
      using StartHandler_owns(1) [OF s [unfolded Inr]] by (simp add: ac_simps)
    show ?thesis using 3(2) [OF s [unfolded w1, symmetric] Inr, of e w'] 3(3) s Inr w1 by simp
  qed
qed simp

section \<open>Protocols and servers\<close>

text \<open>The TCP protocol takes nothing and cannot fail; the HTTP protocol has an access log of its
  own and the handlers.\<close>

datatype ProtocolStartCfg = TcpStartCfg | HttpStartCfg "string option" "HandlerStartCfg list"

datatype RunningProtocol = RunningTcp | RunningHttp "string option" "RunningHandler list"

fun Protocol_Start :: "os \<Rightarrow> ProtocolStartCfg \<Rightarrow> held \<Rightarrow> (start_error + RunningProtocol) \<times> held" where
  "Protocol_Start os TcpStartCfg w = (Inr RunningTcp, w)"
| "Protocol_Start os (HttpStartCfg lg handlers) w =
     (case open_log os lg w of
        (Inl e, w) \<Rightarrow> (Inl e, w)
      | (Inr _, w) \<Rightarrow> (case StartHandlers os handlers [] w of
          (Inl e, w) \<Rightarrow> (Inl e, w)
        | (Inr hs, w) \<Rightarrow> (Inr (RunningHttp lg hs), w)))"

fun Protocol_Stop :: "RunningProtocol \<Rightarrow> held \<Rightarrow> held" where
  "Protocol_Stop RunningTcp w = w"
| "Protocol_Stop (RunningHttp lg hs) w = close_log lg (fold Handler_Stop hs w)"

fun protocol_owns :: "RunningProtocol \<Rightarrow> held" where
  "protocol_owns RunningTcp = {#}"
| "protocol_owns (RunningHttp lg hs) = log_owns lg + (\<Sum>h \<leftarrow> hs. handler_owns h)"

interpretation protocol: startable "Protocol_Start os" Protocol_Stop protocol_owns for os
proof (unfold_locales, goal_cases)
  case (1 c w h w')
  show ?case
  proof (cases c)
    case TcpStartCfg
    then show ?thesis using 1 by auto
  next
    case (HttpStartCfg lg handlers)
    obtain u w1 where o: "open_log os lg w = (Inr u, w1)" using 1 HttpStartCfg by (auto split: prod.splits sum.splits)
    obtain hs where hs: "StartHandlers os handlers [] w1 = (Inr hs, w')" "h = RunningHttp lg hs"
      using 1 HttpStartCfg o by (auto split: prod.splits sum.splits)
    show ?thesis using StartHandler_owns(2) [OF hs(1)] log_simps(1) [OF o] hs(2) by (auto simp: ac_simps)
  qed
next
  case (2 h w)
  show ?case
  proof (cases h)
    case (RunningHttp lg hs)
    then show ?thesis using Handlers_stopped [of hs "w + log_owns lg"] by (simp add: add.assoc [symmetric])
  qed simp
qed

lemma Protocol_Start_fails: "Protocol_Start os c w = (Inl e, w') \<Longrightarrow> leaks w w'"
proof (cases c)
  case (HttpStartCfg lg handlers)
  assume f: "Protocol_Start os c w = (Inl e, w')"
  obtain r w1 where o: "open_log os lg w = (r, w1)" by fastforce
  show ?thesis
  proof (cases r)
    case (Inl e1)
    then show ?thesis using f o HttpStartCfg by (auto dest: log_simps(2))
  next
    case (Inr u)
    have "leaks w1 w'"
      using StartHandler_fails(2) [of os handlers "[]" w1 e w'] f o HttpStartCfg Inr by (auto split: prod.splits sum.splits)
    then show ?thesis using log_simps(1) [OF o [unfolded Inr]] leaks_trans [OF leaks_log] by blast
  qed
qed simp

record ServerStartCfg =
  ss_Name :: string
  ss_Listeners :: "ListenerCfg list"
  ss_Protocol :: ProtocolStartCfg

record RunningServer =
  rs_Cfg :: ServerStartCfg
  rs_Listeners :: "Listener list"
  rs_Protocol :: RunningProtocol

definition StartServer :: "os \<Rightarrow> bool \<Rightarrow> ServerStartCfg \<Rightarrow> held \<Rightarrow> (start_error + RunningServer) \<times> held" where
  "StartServer os acme cfg w =
     (case start_all (StartListener os acme) Listener_Stop (ss_Listeners cfg) [] w of
        (Inl e, w) \<Rightarrow> (Inl e, w)
      | (Inr ls, w) \<Rightarrow> (case Protocol_Start os (ss_Protocol cfg) w of
          (Inl e, w) \<Rightarrow> (Inl e, stop_all Listener_Stop ls w)
        | (Inr p, w) \<Rightarrow> (Inr \<lparr>rs_Cfg = cfg, rs_Listeners = ls, rs_Protocol = p\<rparr>, w)))"

definition Server_Stop :: "RunningServer \<Rightarrow> held \<Rightarrow> held" where
  "Server_Stop s w = Protocol_Stop (rs_Protocol s) (stop_all Listener_Stop (rs_Listeners s) w)"

definition server_owns :: "RunningServer \<Rightarrow> held" where
  "server_owns s = (\<Sum>l \<leftarrow> rs_Listeners s. listener_owns l) + protocol_owns (rs_Protocol s)"

interpretation server: startable "StartServer os acme" Server_Stop server_owns for os acme
proof (unfold_locales, goal_cases)
  case (1 c w h w')
  obtain ls w1 where ls: "start_all (StartListener os acme) Listener_Stop (ss_Listeners c) [] w = (Inr ls, w1)"
    using 1 by (auto simp: StartServer_def split: prod.splits sum.splits)
  obtain p where p: "Protocol_Start os (ss_Protocol c) w1 = (Inr p, w')"
      "h = \<lparr>rs_Cfg = c, rs_Listeners = ls, rs_Protocol = p\<rparr>"
    using 1 ls by (auto simp: StartServer_def split: prod.splits sum.splits)
  show ?case using listener.all_started [OF ls] protocol.started [OF p(1)] p(2)
    by (simp add: server_owns_def ac_simps)
next
  case (2 h w)
  have "stop_all Listener_Stop (rs_Listeners h) (w + server_owns h) = w + protocol_owns (rs_Protocol h)"
    using listener.all_stopped [of "rs_Listeners h" "w + protocol_owns (rs_Protocol h)"]
    by (simp add: server_owns_def ac_simps)
  then show ?case by (simp add: Server_Stop_def protocol.stopped)
qed

lemma StartServer_fails:
  assumes "StartServer os acme cfg w = (Inl e, w')"
  shows "leaks w w'"
proof (cases "start_all (StartListener os acme) Listener_Stop (ss_Listeners cfg) [] w")
  case (Pair r w1)
  show ?thesis
  proof (cases r)
    case (Inl e1)
    then show ?thesis using assms Pair listener.all_failed by (fastforce simp: StartServer_def)
  next
    case (Inr ls)
    then obtain w2 where p: "Protocol_Start os (ss_Protocol cfg) w1 = (Inl e, w2)" "w' = stop_all Listener_Stop ls w2"
      using assms Pair by (auto simp: StartServer_def split: prod.splits sum.splits)
    obtain leak where l: "w2 = w1 + leak" "\<forall>r \<in># leak. \<not> (\<exists>a. r = Socket a)"
      using Protocol_Start_fails [OF p(1)] by (auto simp: leaks_def)
    have "w2 = (w + leak) + (\<Sum>l \<leftarrow> ls. listener_owns l)"
      using l(1) listener.all_started [OF Pair [unfolded Inr]] by (simp add: ac_simps)
    then have "w' = w + leak" using p(2) listener.all_stopped [of ls "w + leak"] by simp
    then show ?thesis using l(2) by (auto simp: leaks_def)
  qed
qed

section \<open>The servers of the service\<close>

type_synonym server_table = "(string \<times> RunningServer) list"

definition startServer ::
  "os \<Rightarrow> bool \<Rightarrow> ServerStartCfg \<Rightarrow> server_table \<times> held \<Rightarrow> start_error option \<times> (server_table \<times> held)" where
  "startServer os acme cfg sw = (case sw of (tbl, w) \<Rightarrow>
     if map_of tbl (ss_Name cfg) \<noteq> None then (Some (DuplicateName (ss_Name cfg)), (tbl, w))
     else (case StartServer os acme cfg w of
         (Inl e, w) \<Rightarrow> (Some e, (tbl, w))
       | (Inr s, w) \<Rightarrow> (None, (tbl @ [(ss_Name cfg, s)], w))))"

definition stopServer :: "string \<Rightarrow> server_table \<times> held \<Rightarrow> server_table \<times> held" where
  "stopServer name sw = (case sw of (tbl, w) \<Rightarrow> (case map_of tbl name of
     None \<Rightarrow> (tbl, w)
   | Some s \<Rightarrow> (filter (\<lambda>(n, _). n \<noteq> name) tbl, Server_Stop s w)))"

fun startServers ::
  "os \<Rightarrow> bool \<Rightarrow> ServerStartCfg list \<Rightarrow> string list \<Rightarrow> server_table \<times> held \<Rightarrow>
     start_error option \<times> (server_table \<times> held)" where
  "startServers os acme [] startedNames sw = (None, sw)"
| "startServers os acme (cfg # cfgs) startedNames sw = (case startServer os acme cfg sw of
     (Some e, sw) \<Rightarrow> (Some e, fold stopServer startedNames sw)
   | (None, sw) \<Rightarrow> startServers os acme cfgs (startedNames @ [ss_Name cfg]) sw)"

definition stopServers :: "server_table \<times> held \<Rightarrow> server_table \<times> held" where
  "stopServers sw = fold stopServer (map fst (fst sw)) sw"

text \<open>What the servers of a table hold.\<close>

definition table_owns :: "server_table \<Rightarrow> held" where
  "table_owns tbl = (\<Sum>e \<leftarrow> tbl. server_owns (snd e))"

lemma table_owns_simps [simp]:
  "table_owns [] = {#}" "table_owns (e # tbl) = server_owns (snd e) + table_owns tbl"
  "table_owns (t @ u) = table_owns t + table_owns u"
  by (simp_all add: table_owns_def)

lemma filter_other: "name \<notin> fst ` set tbl \<Longrightarrow> filter (\<lambda>(n, _). n \<noteq> name) tbl = tbl"
  by (induction tbl) auto

lemma stop_names:
  "distinct (map fst tbl) \<Longrightarrow> fold stopServer (map fst tbl) (tbl, w + table_owns tbl) = ([], w)"
proof (induction tbl)
  case (Cons e tbl)
  obtain n s where e: "e = (n, s)" by fastforce
  have "stopServer n (e # tbl, w + table_owns (e # tbl)) = (tbl, w + table_owns tbl)"
    using server.stopped [of s "w + table_owns tbl"] filter_other [of n tbl] Cons.prems e
    by (auto simp: stopServer_def ac_simps)
  then show ?case using Cons e by simp
qed simp

lemma startServers_cases:
  "\<lbrakk>startServers os acme cfgs (map fst tbl) (tbl, w + table_owns tbl) = (err, (tbl', w')); distinct (map fst tbl)\<rbrakk> \<Longrightarrow>
    (case err of
       Some e \<Rightarrow> tbl' = [] \<and> leaks w w'
     | None \<Rightarrow> map fst tbl' = map fst tbl @ map ss_Name cfgs \<and> distinct (map fst tbl') \<and> w' = w + table_owns tbl')"
proof (induction cfgs arbitrary: tbl)
  case Nil
  then show ?case by auto
next
  case (Cons cfg cfgs)
  show ?case
  proof (cases "map_of tbl (ss_Name cfg)")
    case (Some s)
    then show ?thesis using Cons.prems stop_names [of tbl w] by (auto simp: startServer_def)
  next
    case None
    then have new: "ss_Name cfg \<notin> fst ` set tbl" by (simp add: map_of_eq_None_iff)
    obtain r w1 where s: "StartServer os acme cfg (w + table_owns tbl) = (r, w1)" by fastforce
    show ?thesis
    proof (cases r)
      case (Inl e)
      obtain leak where l: "w1 = (w + leak) + table_owns tbl" "\<forall>r \<in># leak. \<not> (\<exists>a. r = Socket a)"
        using StartServer_fails [OF s [unfolded Inl]] by (auto simp: leaks_def ac_simps)
      then have "fold stopServer (map fst tbl) (tbl, w1) = ([], w + leak)"
        using stop_names [OF Cons.prems(2), of "w + leak"] by simp
      then show ?thesis using Cons.prems(1) s Inl None l(2) by (auto simp: startServer_def leaks_def)
    next
      case (Inr sv)
      have "w1 = w + table_owns (tbl @ [(ss_Name cfg, sv)])"
        using server.started [OF s [unfolded Inr]] by (simp add: ac_simps)
      then have a: "startServers os acme cfgs (map fst (tbl @ [(ss_Name cfg, sv)]))
          (tbl @ [(ss_Name cfg, sv)], w + table_owns (tbl @ [(ss_Name cfg, sv)])) = (err, (tbl', w'))"
        using Cons.prems(1) s Inr None by (simp add: startServer_def)
      have b: "distinct (map fst (tbl @ [(ss_Name cfg, sv)]))" using new Cons.prems(2) by simp
      have eq: "map fst (tbl @ [(ss_Name cfg, sv)]) @ map ss_Name cfgs = map fst tbl @ map ss_Name (cfg # cfgs)"
        by simp
      show ?thesis using Cons.IH [OF a b] unfolding eq .
    qed
  qed
qed

section \<open>Properties\<close>

definition sockets :: "held \<Rightarrow> held" where
  "sockets w = filter_mset (\<lambda>r. case r of Socket _ \<Rightarrow> True | _ \<Rightarrow> False) w"

lemma leaks_sockets: "leaks w w' \<Longrightarrow> sockets w' = sockets w"
proof -
  assume "leaks w w'"
  then obtain leak where "w' = w + leak" "\<forall>r \<in># leak. \<not> (\<exists>a. r = Socket a)" by (auto simp: leaks_def)
  moreover from this(2) have "sockets leak = {#}"
    by (induction leak) (auto simp: sockets_def split: resource.splits)
  ultimately show ?thesis by (simp add: sockets_def)
qed

text \<open>C6: The servers of the service are started all or none: when all have started, each is in the table
  under its own name and stopping them gives back exactly what they took; when one of them
  cannot be started, or has the name of another one, those before it are stopped, the table is
  empty, nothing that was held before is lost and no socket is left open.\<close>

theorem start_servers_atomic:
  assumes "startServers os acme cfgs [] ([], w) = (err, (tbl, w'))"
  shows "case err of
      None \<Rightarrow> map fst tbl = map ss_Name cfgs \<and> distinct (map fst tbl) \<and> stopServers (tbl, w') = ([], w)
    | Some e \<Rightarrow> tbl = [] \<and> w \<subseteq># w' \<and> sockets w' = sockets w"
  using startServers_cases [of os acme cfgs "[]" w err tbl w'] assms stop_names [of tbl w]
  by (cases err) (auto simp: stopServers_def leaks_subset leaks_sockets)

definition demo_os :: os where
  "demo_os = \<lparr>os_fails = \<lambda>w r. r \<in># w, os_tls = \<lambda>_. True, os_trim = id, os_files = \<lambda>_. Inl EOF,
     os_new = \<lambda>a. Some [a], os_start = \<lambda>a. if a = 0 then None else Some []\<rparr>"

definition demo_server :: "string \<Rightarrow> ServerStartCfg" where
  "demo_server name = \<lparr>ss_Name = name, ss_Listeners = [\<lparr>lc_Address = ''localhost:8080'', lc_TLS = None\<rparr>],
     ss_Protocol = TcpStartCfg\<rparr>"

lemma start_servers_atomic_witness:
  "\<exists>e w'. startServers demo_os False [demo_server ''a'', demo_server ''b''] [] ([], {#}) = (Some e, ([], w')) \<and>
    sockets w' = {#}"
proof -
  have "SplitHostPort ''localhost:8080'' = Inr (''localhost'', ''8080'')" "ParseInt ''8080'' = Some 8080"
    by code_simp+
  then have "\<exists>e sw. startServers demo_os False [demo_server ''a'', demo_server ''b''] [] ([], {#}) = (Some e, sw)"
    by (simp add: startServer_def StartServer_def demo_server_def demo_os_def StartListener_def listen_def acquire_def)
  then obtain e tbl w' where r: "startServers demo_os False [demo_server ''a'', demo_server ''b''] [] ([], {#}) =
      (Some e, (tbl, w'))" by auto
  show ?thesis using start_servers_atomic [OF r] r by (simp add: sockets_def)
qed

text \<open>A handler that cannot be started leaks: once its access log is open and its action has been
  created and started, the failure of a nested handler leaves all of them, and whatever the
  nested handler itself leaks, open for good, since the caller gets no handler to stop.\<close>

theorem handler_start_leaks:
  assumes "open_log os lg w = (Inr (), w1)" "auth_starts os auth"
    and "os_new os action = Some new" "os_start os action = Some begun"
    and "StartHandlers os nested [] (take_parts (new @ begun) w1) = (Inl e, w')"
  shows "StartHandler os (HandlerStartCfg lg auth action nested) w = (Inl e, w') \<and>
    w + log_owns lg + mset (map ActionPart (new @ begun)) \<subseteq># w'"
proof -
  have "take_parts (new @ begun) w1 \<subseteq># w'"
    using StartHandler_fails(2) [of os nested "[]" "take_parts (new @ begun) w1" e w'] assms(5) leaks_subset by simp
  then show ?thesis using assms log_simps(1) [OF assms(1)] by (simp add: take_parts_def)
qed

lemma handler_start_leaks_witness:
  "\<exists>e w'. StartHandler demo_os (HandlerStartCfg (Some ''lg'') None 1 [HandlerStartCfg None None 0 []]) {#} = (Inl e, w') \<and>
    {#LogFile ''lg'', ActionPart 1#} \<subseteq># w'"
proof -
  have o: "open_log demo_os (Some ''lg'') {#} = (Inr (), {#LogFile ''lg''#})"
    by (simp add: open_log_def acquire_def demo_os_def)
  obtain w' where n: "StartHandlers demo_os [HandlerStartCfg None None 0 []] [] (take_parts ([1] @ []) {#LogFile ''lg''#}) =
      (Inl CannotStartAction, w')"
    by (simp add: open_log_def auth_starts_def demo_os_def)
  have "StartHandler demo_os (HandlerStartCfg (Some ''lg'') None 1 [HandlerStartCfg None None 0 []]) {#} =
      (Inl CannotStartAction, w') \<and>
    {#} + log_owns (Some ''lg'') + mset (map ActionPart ([1] @ [])) \<subseteq># w'"
    using o n by (intro handler_start_leaks) (simp_all add: auth_starts_def demo_os_def)
  then have "StartHandler demo_os (HandlerStartCfg (Some ''lg'') None 1 [HandlerStartCfg None None 0 []]) {#} =
      (Inl CannotStartAction, w')" "{#LogFile ''lg'', ActionPart 1#} \<subseteq># w'"
    by (simp_all only:) (simp add: log_owns_def add_mset_commute)
  then show ?thesis by blast
qed

end
