(* ===== verification/Service.thy ===== *)
theory Service
  imports Lifecycle Load_Balancer
begin

text \<open>
  The service and the order in which it starts and stops its parts: \<open>Start\<close> and \<open>Stop\<close> of
  \<open>src/pkg/service/service.go\<close>, the load balancers (\<open>load_balancers.go\<close>), the ACME client
  (\<open>acme.go\<close>) and the control API (\<open>control_api.go\<close>), on the servers of \<open>Lifecycle\<close>. The
  client that gets the certificates is a library: only whether it can be started matters here.
\<close>

section \<open>Load balancers\<close>

record LoadBalancerCfg =
  lbc_Name :: string
  lbc_Servers :: "HostAddress list"
  lbc_HealthProbe :: "HealthProbeCfg option"

type_synonym balancer_table = "(string \<times> LoadBalancer) list"

datatype service_error =
    CannotStartACMEClient | DuplicateLoadBalancer string | CannotStartServer start_error
  | CannotDeleteSocket string | CannotListenControl start_error

definition startLoadBalancer :: "LoadBalancerCfg \<Rightarrow> balancer_table \<Rightarrow> service_error option \<times> balancer_table" where
  "startLoadBalancer cfg tbl =
     (if map_of tbl (lbc_Name cfg) \<noteq> None then (Some (DuplicateLoadBalancer (lbc_Name cfg)), tbl)
      else (None, tbl @ [(lbc_Name cfg, StartLoadBalancer (lbc_Servers cfg) (lbc_HealthProbe cfg))]))"

definition stopLoadBalancer :: "string \<Rightarrow> balancer_table \<Rightarrow> balancer_table" where
  "stopLoadBalancer name tbl = filter (\<lambda>(n, _). n \<noteq> name) tbl"

fun startLoadBalancers ::
  "LoadBalancerCfg list \<Rightarrow> string list \<Rightarrow> balancer_table \<Rightarrow> service_error option \<times> balancer_table" where
  "startLoadBalancers [] startedNames tbl = (None, tbl)"
| "startLoadBalancers (cfg # cfgs) startedNames tbl = (case startLoadBalancer cfg tbl of
     (Some e, tbl) \<Rightarrow> (Some e, fold stopLoadBalancer startedNames tbl)
   | (None, tbl) \<Rightarrow> startLoadBalancers cfgs (startedNames @ [lbc_Name cfg]) tbl)"

definition stopLoadBalancers :: "balancer_table \<Rightarrow> balancer_table" where
  "stopLoadBalancers tbl = fold stopLoadBalancer (map fst tbl) tbl"

section \<open>The service\<close>

text \<open>The configuration: whether there is an ACME client, and the path of the control API.\<close>

record ServiceCfg =
  sc_ACME :: bool
  sc_LoadBalancers :: "LoadBalancerCfg list"
  sc_Servers :: "ServerStartCfg list"
  sc_ControlAPI :: "string option"

record service_parts =
  sp_acme :: bool
  sp_balancers :: balancer_table
  sp_servers :: server_table
  sp_control :: bool
  sp_held :: held

text \<open>Besides the operating system of the servers: whether the ACME client can be started and whether
  a file that is left of the control API is deleted or does not exist.\<close>

record service_world =
  sw_os :: os
  sw_acme :: bool
  sw_remove :: bool

definition no_parts :: "held \<Rightarrow> service_parts" where
  "no_parts w = \<lparr>sp_acme = False, sp_balancers = [], sp_servers = [], sp_control = False, sp_held = w\<rparr>"

definition startACMEClient :: "service_world \<Rightarrow> ServiceCfg \<Rightarrow> service_parts \<Rightarrow> service_error option \<times> service_parts" where
  "startACMEClient sw cfg p =
     (if \<not> sc_ACME cfg then (None, p)
      else if \<not> sw_acme sw then (Some CannotStartACMEClient, p)
      else (None, p\<lparr>sp_acme := True\<rparr>))"

definition ControlAPI_Start ::
  "service_world \<Rightarrow> string \<Rightarrow> service_parts \<Rightarrow> service_error option \<times> service_parts" where
  "ControlAPI_Start sw path p =
     (if \<not> sw_remove sw then (Some (CannotDeleteSocket path), p)
      else (case acquire (sw_os sw) (Socket path) (sp_held p) of
          (Inl e, w) \<Rightarrow> (Some (CannotListenControl e), p\<lparr>sp_held := w\<rparr>)
        | (Inr _, w) \<Rightarrow> (None, p\<lparr>sp_held := w, sp_control := True\<rparr>)))"

definition startControlAPI :: "service_world \<Rightarrow> ServiceCfg \<Rightarrow> service_parts \<Rightarrow> service_error option \<times> service_parts" where
  "startControlAPI sw cfg p = (case sc_ControlAPI cfg of
     None \<Rightarrow> (None, p)
   | Some path \<Rightarrow> ControlAPI_Start sw path p)"

definition service_balancers :: "ServiceCfg \<Rightarrow> service_parts \<Rightarrow> service_error option \<times> service_parts" where
  "service_balancers cfg p = (case startLoadBalancers (sc_LoadBalancers cfg) [] [] of
     (e, tbl) \<Rightarrow> (e, p\<lparr>sp_balancers := tbl\<rparr>))"

definition service_servers :: "service_world \<Rightarrow> ServiceCfg \<Rightarrow> service_parts \<Rightarrow> service_error option \<times> service_parts" where
  "service_servers sw cfg p =
     (case startServers (sw_os sw) (sc_ACME cfg) (sc_Servers cfg) [] ([], sp_held p) of
        (e, (tbl, w)) \<Rightarrow> (map_option CannotStartServer e, p\<lparr>sp_servers := tbl, sp_held := w\<rparr>))"

text \<open>One part after the other, until one cannot be started.\<close>

definition start_next ::
  "(service_parts \<Rightarrow> service_error option \<times> service_parts) \<Rightarrow>
     service_error option \<times> service_parts \<Rightarrow> service_error option \<times> service_parts" where
  "start_next f r = (case r of (Some e, p) \<Rightarrow> (Some e, p) | (None, p) \<Rightarrow> f p)"

definition Service_Start :: "service_world \<Rightarrow> ServiceCfg \<Rightarrow> service_parts \<Rightarrow> service_error option \<times> service_parts" where
  "Service_Start sw cfg p =
     start_next (startControlAPI sw cfg) (start_next (service_servers sw cfg) (start_next (service_balancers cfg)
       (startACMEClient sw cfg p)))"

definition stopControlAPI :: "ServiceCfg \<Rightarrow> service_parts \<Rightarrow> service_parts" where
  "stopControlAPI cfg p = (case sc_ControlAPI cfg of
     None \<Rightarrow> p
   | Some path \<Rightarrow> p\<lparr>sp_control := False, sp_held := release (Socket path) (sp_held p)\<rparr>)"

definition Service_Stop :: "ServiceCfg \<Rightarrow> service_parts \<Rightarrow> service_parts" where
  "Service_Stop cfg p =
     (let p = stopControlAPI cfg p;
          (tbl, w) = stopServers (sp_servers p, sp_held p);
          p = p\<lparr>sp_servers := tbl, sp_held := w\<rparr>;
          p = p\<lparr>sp_balancers := stopLoadBalancers (sp_balancers p)\<rparr>
      in if sc_ACME cfg then p\<lparr>sp_acme := False\<rparr> else p)"

section \<open>Lemmas\<close>

lemma stop_all_balancers: "set (map fst tbl) \<subseteq> set names \<Longrightarrow> fold stopLoadBalancer names tbl = []"
proof (induction names arbitrary: tbl)
  case (Cons name names)
  have "set (map fst (stopLoadBalancer name tbl)) \<subseteq> set names"
    using Cons.prems by (auto simp: stopLoadBalancer_def)
  then show ?case using Cons.IH by simp
qed (auto simp: stopLoadBalancer_def)

lemma stopLoadBalancers_all: "stopLoadBalancers tbl = []"
  by (simp add: stopLoadBalancers_def stop_all_balancers)

lemma startLoadBalancers_cases:
  "startLoadBalancers cfgs (map fst tbl) tbl = (err, tbl') \<Longrightarrow> distinct (map fst tbl) \<Longrightarrow>
    (case err of
       Some e \<Rightarrow> tbl' = []
     | None \<Rightarrow> map fst tbl' = map fst tbl @ map lbc_Name cfgs \<and> distinct (map fst tbl'))"
proof (induction cfgs arbitrary: tbl)
  case (Cons cfg cfgs)
  show ?case
  proof (cases "map_of tbl (lbc_Name cfg)")
    case (Some lb)
    then show ?thesis using Cons.prems stop_all_balancers [of tbl "map fst tbl"] by (auto simp: startLoadBalancer_def)
  next
    case None
    let ?tbl = "tbl @ [(lbc_Name cfg, StartLoadBalancer (lbc_Servers cfg) (lbc_HealthProbe cfg))]"
    have new: "lbc_Name cfg \<notin> fst ` set tbl" using None by (simp add: map_of_eq_None_iff)
    have "startLoadBalancers cfgs (map fst ?tbl) ?tbl = (err, tbl')"
      using Cons.prems(1) None by (simp add: startLoadBalancer_def)
    moreover have "distinct (map fst ?tbl)" using Cons.prems(2) new by simp
    ultimately have "case err of Some e \<Rightarrow> tbl' = []
        | None \<Rightarrow> map fst tbl' = map fst ?tbl @ map lbc_Name cfgs \<and> distinct (map fst tbl')"
      by (rule Cons.IH)
    moreover have "map fst ?tbl @ map lbc_Name cfgs = map fst tbl @ map lbc_Name (cfg # cfgs)" by simp
    ultimately show ?thesis by (simp only:)
  qed
qed simp

lemma distinct_balancers_start:
  "distinct (map fst tbl @ map lbc_Name cfgs) \<Longrightarrow> fst (startLoadBalancers cfgs names tbl) = None"
proof (induction cfgs arbitrary: names tbl)
  case (Cons cfg cfgs)
  then have "map_of tbl (lbc_Name cfg) = None" by (simp add: map_of_eq_None_iff)
  then show ?case using Cons.prems
    Cons.IH [of "tbl @ [(lbc_Name cfg, StartLoadBalancer (lbc_Servers cfg) (lbc_HealthProbe cfg))]"]
    by (simp add: startLoadBalancer_def)
qed simp

lemma startServers_ok:
  assumes "startServers os acme cfgs [] ([], w) = (None, (tbl, w'))"
  shows "map fst tbl = map ss_Name cfgs" "w' = w + table_owns tbl" "stopServers (tbl, w + v + table_owns tbl) = ([], w + v)"
proof -
  have r: "map fst tbl = map ss_Name cfgs \<and> distinct (map fst tbl) \<and> w' = w + table_owns tbl"
    using startServers_cases [of os acme cfgs "[]" w None tbl w'] assms by auto
  then show "map fst tbl = map ss_Name cfgs" "w' = w + table_owns tbl" by simp_all
  have "fold stopServer (map fst tbl) (tbl, w + v + table_owns tbl) = ([], w + v)" by (rule stop_names) (use r in blast)
  then show "stopServers (tbl, w + v + table_owns tbl) = ([], w + v)" by (simp add: stopServers_def)
qed

section \<open>Properties\<close>

lemma started_service_stops:
  assumes "Service_Start sw cfg (no_parts w) = (None, p)"
  shows "sp_acme p = sc_ACME cfg \<and> map fst (sp_balancers p) = map lbc_Name (sc_LoadBalancers cfg) \<and>
    map fst (sp_servers p) = map ss_Name (sc_Servers cfg) \<and> sp_control p = (sc_ControlAPI cfg \<noteq> None) \<and>
    Service_Stop cfg p = no_parts w"
proof -
  obtain e1 lbs where lbs: "startLoadBalancers (sc_LoadBalancers cfg) [] [] = (e1, lbs)" by fastforce
  obtain e2 tbl w2 where servers: "startServers (sw_os sw) (sc_ACME cfg) (sc_Servers cfg) [] ([], w) = (e2, (tbl, w2))"
    by (metis prod.exhaust)
  let ?p0 = "(no_parts w)\<lparr>sp_acme := sc_ACME cfg\<rparr>"
  let ?p1 = "?p0\<lparr>sp_balancers := lbs\<rparr>"
  let ?p2 = "?p1\<lparr>sp_servers := tbl, sp_held := w2\<rparr>"
  have "startACMEClient sw cfg (no_parts w) = (None, ?p0)"
    using assms by (auto simp: Service_Start_def start_next_def startACMEClient_def no_parts_def split: if_splits prod.splits)
  moreover from this have e1: "e1 = None"
    using assms by (cases e1) (simp_all add: Service_Start_def start_next_def service_balancers_def lbs)
  moreover from this calculation have e2: "e2 = None"
    using assms by (cases e2) (simp_all add: Service_Start_def start_next_def service_balancers_def service_servers_def lbs servers no_parts_def)
  ultimately have control: "startControlAPI sw cfg ?p2 = (None, p)"
    using assms by (simp add: Service_Start_def start_next_def service_balancers_def service_servers_def lbs servers no_parts_def)
  note s = startServers_ok [OF servers [unfolded e2]]
  have names: "map fst lbs = map lbc_Name (sc_LoadBalancers cfg)"
    using startLoadBalancers_cases [of "sc_LoadBalancers cfg" "[]" e1 lbs] lbs e1 by simp
  show ?thesis
  proof (cases "sc_ControlAPI cfg")
    case None
    then have "p = ?p2" using control by (simp add: startControlAPI_def)
    then show ?thesis using None names s(1,2) s(3) [of "{#}"]
      by (simp add: Let_def Service_Stop_def stopControlAPI_def stopLoadBalancers_all no_parts_def)
  next
    case (Some path)
    then have p: "p = ?p2\<lparr>sp_held := add_mset (Socket path) w2, sp_control := True\<rparr>"
      using control by (auto simp: startControlAPI_def ControlAPI_Start_def acquire_def split: if_splits)
    then show ?thesis using Some names s(1,2) s(3) [of "{#}"]
      by (simp add: Let_def Service_Stop_def stopControlAPI_def stopLoadBalancers_all no_parts_def release_def)
  qed
qed


text \<open>A service that cannot be started does not stop what it has started: when the servers cannot be
  started, which stops the servers, the ACME client and all load balancers go on running; when
  the control API cannot be, the servers go on, too, with their sockets.\<close>

theorem failed_start_keeps_parts:
  assumes "sc_ACME cfg \<longrightarrow> sw_acme sw" "distinct (map lbc_Name (sc_LoadBalancers cfg))"
    and "startServers (sw_os sw) (sc_ACME cfg) (sc_Servers cfg) [] ([], w) = (err, (tbl, w'))"
    and "err = None \<longrightarrow> sc_ControlAPI cfg = Some path \<and> \<not> sw_remove sw"
  shows "\<exists>e p. Service_Start sw cfg (no_parts w) = (Some e, p) \<and> sp_acme p = sc_ACME cfg \<and>
    map fst (sp_balancers p) = map lbc_Name (sc_LoadBalancers cfg) \<and>
    map fst (sp_servers p) = (if err = None then map ss_Name (sc_Servers cfg) else []) \<and> sp_held p = w'"
proof -
  obtain lbs where lbs: "startLoadBalancers (sc_LoadBalancers cfg) [] [] = (None, lbs)"
    using distinct_balancers_start [of "[]" "sc_LoadBalancers cfg" "[]"] assms(2) by (metis append_Nil list.map(1) prod.collapse)
  then have names: "map fst lbs = map lbc_Name (sc_LoadBalancers cfg)"
    using startLoadBalancers_cases [of "sc_LoadBalancers cfg" "[]" None lbs] by simp
  have acme: "startACMEClient sw cfg (no_parts w) = (None, (no_parts w)\<lparr>sp_acme := sc_ACME cfg\<rparr>)"
    using assms(1) by (simp add: startACMEClient_def no_parts_def)
  show ?thesis
  proof (cases err)
    case None
    then show ?thesis using acme lbs names assms(3,4) startServers_ok(1) [of "sw_os sw" "sc_ACME cfg" "sc_Servers cfg" w tbl w']
      by (simp add: Service_Start_def start_next_def service_balancers_def service_servers_def startControlAPI_def
          ControlAPI_Start_def no_parts_def)
  next
    case (Some e)
    then have "tbl = []" using startServers_cases [of "sw_os sw" "sc_ACME cfg" "sc_Servers cfg" "[]" w err tbl w'] assms(3) by simp
    then show ?thesis using Some acme lbs names assms(3)
      by (simp add: Service_Start_def start_next_def service_balancers_def service_servers_def no_parts_def)
  qed
qed

definition demo_service :: ServiceCfg where
  "demo_service = \<lparr>sc_ACME = False,
     sc_LoadBalancers = [\<lparr>lbc_Name = ''b'', lbc_Servers = [], lbc_HealthProbe = None\<rparr>], sc_Servers = [],
     sc_ControlAPI = Some ''/run/b''\<rparr>"


theorem failed_start_keeps_parts_witness:
  "\<exists>e p. Service_Start \<lparr>sw_os = demo_os, sw_acme = True, sw_remove = False\<rparr> demo_service (no_parts {#}) = (Some e, p) \<and>
    map fst (sp_balancers p) = [''b'']"
  using failed_start_keeps_parts [of demo_service "\<lparr>sw_os = demo_os, sw_acme = True, sw_remove = False\<rparr>" "{#}" None "[]" "{#}"
    "''/run/b''"] by (auto simp: demo_service_def)

end
