(* ===== verification/Service_Configuration.thy ===== *)
theory Service_Configuration
  imports Configuration Service
begin

text \<open>
  The configuration of the service: the TLS block of a listener (\<open>src/pkg/netutils/tls.go\<close>), the
  health probes and the load balancers (\<open>src/pkg/boulevard/health_probe.go\<close>, \<open>load_balancer.go\<close>),
  the listeners and the servers (\<open>src/pkg/boulevard/listener.go\<close>, \<open>server.go\<close>) and the sections of
  the file (\<open>src/pkg/service/cfg.go\<close>). As in \<open>Configuration\<close>, a block holds the answers of the BCL
  library. The result \<open>None\<close> is a file that the service refuses; a panic of the reader is
  a refusal, too, that ends the program.
\<close>

section \<open>Blocks\<close>

text \<open>A block has a name, its entries, and blocks in it, found by their type.\<close>

datatype bcl_block =
  Block (bl_Name: string) (bl_Element: bcl_element) (bl_Find: "string \<Rightarrow> bcl_block option") (bl_FindAll: "string \<Rightarrow> bcl_block list")

definition entry_text :: "bcl_block \<Rightarrow> string \<Rightarrow> string option" where
  "entry_text b name = Option.bind (el_FindEntry (bl_Element b) name) (\<lambda>e. text_value e 0)"

definition entry_int :: "bcl_block \<Rightarrow> string \<Rightarrow> int option" where
  "entry_int b name = Option.bind (el_FindEntry (bl_Element b) name) (\<lambda>e. en_Int e 0)"

text \<open>\<open>MaybeEntryValues\<close>: the value of an entry, or what the destination holds when there is none.\<close>

definition value_or :: "'v \<Rightarrow> 'v option \<Rightarrow> 'v" where
  "value_or d v = (case v of None \<Rightarrow> d | Some x \<Rightarrow> x)"

fun all_read :: "'v option list \<Rightarrow> 'v list option" where
  "all_read [] = Some []"
| "all_read (None # vs) = None"
| "all_read (Some v # vs) = map_option ((#) v) (all_read vs)"

section \<open>TLS\<close>

text \<open>The version of an entry that is missing is the empty string, which no version parses: 0, the
  default of the TLS library. Without a block \<open>acme\<close> there must be two files.\<close>

definition read_version :: "bcl_block \<Rightarrow> string \<Rightarrow> u16" where
  "read_version b name = value_or 0 (ParseTLSVersion (value_or [] (entry_text b name)))"

definition TLSCfg_ReadBCLElement :: "(string \<times> u16) list \<Rightarrow> bcl_block \<Rightarrow> TLSCfg option" where
  "TLSCfg_ReadBCLElement suites b =
     (let domains = (case bl_Find b ''acme'' of
            None \<Rightarrow> []
          | Some a \<Rightarrow> map (\<lambda>e. value_or_empty e 0) (el_FindEntries (bl_Element a) ''domain''));
          names = map (\<lambda>e. value_or_empty e 0) (el_FindEntries (bl_Element b) ''cipher_suite'')
      in if bl_Find b ''acme'' \<noteq> None \<and> length domains = 0 then None
         else if bl_Find b ''acme'' = None \<and>
           (entry_text b ''certificate_file'' = None \<or> entry_text b ''private_key_file'' = None) then None
         else if \<not> list_all (\<lambda>d. ValidateBCLDomainName d = Some None) domains \<or>
           \<not> list_all (ValidateBCLTLSCipherSuite suites) names \<or>
           list_ex (\<lambda>name. case entry_text b name of None \<Rightarrow> False | Some s \<Rightarrow> \<not> ValidateBCLTLSVersion s)
             [''min_version'', ''max_version''] then None
         else Some \<lparr>TlsDomains = domains, MinVersion = read_version b ''min_version'',
           MaxVersion = read_version b ''max_version'', CipherSuites = map (\<lambda>n. value_or 0 (map_of suites n)) names\<rparr>)"

section \<open>Load balancers\<close>

text \<open>The status that a response must have: 200, unless there is a block \<open>success\<close>.\<close>

definition HTTPHealthTestCfg_ReadBCLElement :: "bcl_block \<Rightarrow> (string \<times> string \<times> int) option" where
  "HTTPHealthTestCfg_ReadBCLElement b =
     (let meth = value_or ''GET'' (entry_text b ''method'');
          status = (case bl_Find b ''success'' of
            None \<Rightarrow> 200
          | Some s \<Rightarrow> value_or 0 (entry_int s ''status''))
      in if \<not> ValidateBCLMethod meth then None
         else if (case bl_Find b ''success'' of None \<Rightarrow> False
           | Some s \<Rightarrow> (case entry_int s ''status'' of None \<Rightarrow> False | Some st \<Rightarrow> \<not> ValidateBCLStatus st)) then None
         else map_option (\<lambda>path. (meth, path, status)) (entry_text b ''path''))"

text \<open>\<open>MaybeElement\<close> finds an entry or a block.\<close>

definition has_element :: "bcl_block \<Rightarrow> string \<Rightarrow> bool" where
  "has_element b name \<longleftrightarrow> el_FindEntry (bl_Element b) name \<noteq> None \<or> bl_Find b name \<noteq> None"

definition HealthProbeCfg_ReadBCLElement :: "bcl_block \<Rightarrow> HealthProbeCfg option" where
  "HealthProbeCfg_ReadBCLElement b =
     (let cfg = (\<lambda>http. \<lparr>SuccessThreshold = value_or 1 (entry_int b ''success_threshold''),
            FailureThreshold = value_or 1 (entry_int b ''failure_threshold''),
            ProbeTCP = has_element b ''tcp'', ProbeHTTP = http\<rparr>)
      in case bl_Find b ''http'' of
           None \<Rightarrow> Some (cfg None)
         | Some h \<Rightarrow> map_option (\<lambda>t. cfg (Some t)) (HTTPHealthTestCfg_ReadBCLElement h))"

definition read_server :: "bcl_entry \<Rightarrow> HostAddress option" where
  "read_server e = (case HostAddress_ReadBCLValue (text_value e 0) of Some (Inr a) \<Rightarrow> Some a | _ \<Rightarrow> None)"

definition LoadBalancerCfg_ReadBCLElement :: "bcl_block \<Rightarrow> LoadBalancerCfg option" where
  "LoadBalancerCfg_ReadBCLElement b =
     (case all_read (map read_server (el_FindEntries (bl_Element b) ''server'')) of
        None \<Rightarrow> None
      | Some servers \<Rightarrow>
          if length servers = 0 then None
          else (case bl_Find b ''health_probe'' of
              None \<Rightarrow> Some \<lparr>lbc_Name = bl_Name b, lbc_Servers = servers, lbc_HealthProbe = None\<rparr>
            | Some p \<Rightarrow> map_option
                (\<lambda>probe. \<lparr>lbc_Name = bl_Name b, lbc_Servers = servers, lbc_HealthProbe = Some probe\<rparr>)
                (HealthProbeCfg_ReadBCLElement p)))"

section \<open>Servers\<close>

definition ListenerCfg_ReadBCLElement :: "(string \<times> u16) list \<Rightarrow> bcl_block \<Rightarrow> ListenerCfg option" where
  "ListenerCfg_ReadBCLElement suites b = (case entry_text b ''address'' of
     None \<Rightarrow> None
   | Some address \<Rightarrow>
       if ValidateBCLAddress address \<noteq> None then None
       else (case bl_Find b ''tls'' of
           None \<Rightarrow> Some \<lparr>lc_Address = address, lc_TLS = None\<rparr>
         | Some t \<Rightarrow> map_option (\<lambda>tls. \<lparr>lc_Address = address, lc_TLS = Some tls\<rparr>) (TLSCfg_ReadBCLElement suites t)))"

text \<open>The protocols of the program with the readers of their blocks. \<open>CheckBlocksOneOf\<close> wants one of
  them; the first that has a block is the protocol of the server.\<close>

type_synonym protocol_infos = "(string \<times> (bcl_block \<Rightarrow> ProtocolStartCfg option)) list"

fun find_protocol :: "protocol_infos \<Rightarrow> bcl_block \<Rightarrow> ProtocolStartCfg option" where
  "find_protocol [] b = None"
| "find_protocol ((name, extract) # infos) b = (case bl_Find b name of
     None \<Rightarrow> find_protocol infos b
   | Some p \<Rightarrow> extract p)"

definition read_server_block ::
  "protocol_infos \<Rightarrow> (string \<times> u16) list \<Rightarrow> bcl_block \<Rightarrow> ServerStartCfg option" where
  "read_server_block infos suites b =
     (case (find_protocol infos b, all_read (map (ListenerCfg_ReadBCLElement suites) (bl_FindAll b ''listener''))) of
        (Some proto, Some ls) \<Rightarrow> Some \<lparr>ss_Name = bl_Name b, ss_Listeners = ls, ss_Protocol = proto\<rparr>
      | _ \<Rightarrow> None)"

definition initServers ::
  "protocol_infos \<Rightarrow> (string \<times> u16) list \<Rightarrow> bcl_block \<Rightarrow> ServerStartCfg list option" where
  "initServers infos suites doc = all_read (map (read_server_block infos suites) (bl_FindAll doc ''server''))"

definition initLoadBalancers :: "bcl_block \<Rightarrow> LoadBalancerCfg list option" where
  "initLoadBalancers doc = all_read (map LoadBalancerCfg_ReadBCLElement (bl_FindAll doc ''load_balancer''))"

section \<open>The file\<close>

definition ControlAPICfg_ReadBCLElement :: "bcl_block \<Rightarrow> string option" where
  "ControlAPICfg_ReadBCLElement b = entry_text b ''path''"

definition ServiceCfg_Load :: "protocol_infos \<Rightarrow> (string \<times> u16) list \<Rightarrow> bcl_block \<Rightarrow> ServiceCfg option" where
  "ServiceCfg_Load infos suites doc =
     (case (initLoadBalancers doc, initServers infos suites doc) of
        (Some lbs, Some servers) \<Rightarrow>
          let cfg = (\<lambda>api. \<lparr>sc_ACME = bl_Find doc ''acme'' \<noteq> None, sc_LoadBalancers = lbs, sc_Servers = servers,
                sc_ControlAPI = api\<rparr>)
          in (case bl_Find doc ''control_api'' of
              None \<Rightarrow> Some (cfg None)
            | Some c \<Rightarrow> map_option (\<lambda>path. cfg (Some path)) (ControlAPICfg_ReadBCLElement c))
      | _ \<Rightarrow> None)"

section \<open>Lemmas\<close>

lemma all_read_set: "all_read vs = Some xs \<Longrightarrow> set vs = Some ` set xs"
proof (induction vs arbitrary: xs)
  case (Cons v vs)
  then show ?case by (cases v) auto
qed simp

lemma all_read_map: "all_read (map f bs) = Some xs \<Longrightarrow> x \<in> set xs \<Longrightarrow> \<exists>b \<in> set bs. f b = Some x"
  using all_read_set [of "map f bs" xs] by (auto simp: set_eq_iff) (metis imageE imageI)

lemma balancer_servers: "LoadBalancerCfg_ReadBCLElement b = Some cfg \<Longrightarrow> lbc_Servers cfg \<noteq> []"
  by (auto simp: LoadBalancerCfg_ReadBCLElement_def split: option.splits if_splits)

lemma startLoadBalancers_started:
  "startLoadBalancers cfgs names tbl = (err, tbl') \<Longrightarrow> (name, lb) \<in> set tbl' \<Longrightarrow>
    (name, lb) \<in> set tbl \<or> (\<exists>cfg \<in> set cfgs. lb = StartLoadBalancer (lbc_Servers cfg) (lbc_HealthProbe cfg))"
proof (induction cfgs arbitrary: names tbl)
  case (Cons cfg cfgs)
  have stop: "set (fold stopLoadBalancer ns t) \<subseteq> set t" for ns t
    by (induction ns arbitrary: t) (fastforce simp: stopLoadBalancer_def)+
  show ?case
  proof (cases "map_of tbl (lbc_Name cfg)")
    case None
    then show ?thesis using Cons.prems Cons.IH [of "names @ [lbc_Name cfg]"]
      by (fastforce simp: startLoadBalancer_def)
  next
    case (Some lb')
    then show ?thesis using Cons.prems stop [of names tbl] by (auto simp: startLoadBalancer_def)
  qed
qed simp

lemma start_next_None: "start_next f r = (None, p) \<Longrightarrow> \<exists>q. r = (None, q) \<and> f q = (None, p)"
  by (cases r; cases "fst r") (simp_all add: start_next_def)

lemma keeps_balancers:
  "startControlAPI sw cfg q = (e, p) \<Longrightarrow> sp_balancers p = sp_balancers q"
  "service_servers sw cfg q = (e, p) \<Longrightarrow> sp_balancers p = sp_balancers q"
  by (auto simp: startControlAPI_def ControlAPI_Start_def service_servers_def acquire_def split: option.splits if_splits prod.splits)

lemma started_balancers:
  assumes "Service_Start sw cfg (no_parts w) = (None, p)" "(name, lb) \<in> set (sp_balancers p)"
  shows "\<exists>c \<in> set (sc_LoadBalancers cfg). lb = StartLoadBalancer (lbc_Servers c) (lbc_HealthProbe c)"
proof -
  obtain e lbs where lbs: "startLoadBalancers (sc_LoadBalancers cfg) [] [] = (e, lbs)" by fastforce
  obtain q3 where 3: "start_next (service_servers sw cfg) (start_next (service_balancers cfg)
      (startACMEClient sw cfg (no_parts w))) = (None, q3)" "startControlAPI sw cfg q3 = (None, p)"
    using start_next_None [OF assms(1) [unfolded Service_Start_def]] by blast
  obtain q2 where 2: "start_next (service_balancers cfg) (startACMEClient sw cfg (no_parts w)) = (None, q2)"
      "service_servers sw cfg q2 = (None, q3)" using start_next_None [OF 3(1)] by blast
  obtain q1 where "service_balancers cfg q1 = (None, q2)" using start_next_None [OF 2(1)] by blast
  then have "q2 = q1\<lparr>sp_balancers := lbs\<rparr>" by (simp add: service_balancers_def lbs)
  then have "sp_balancers q2 = lbs" by simp
  then have "sp_balancers p = lbs" using keeps_balancers(1) [OF 3(2)] keeps_balancers(2) [OF 2(2)] by simp
  then show ?thesis using startLoadBalancers_started [OF lbs] assms(2) by auto
qed

section \<open>Properties\<close>

text \<open>C20: Every load balancer of a service that has been started from its file can be used: it has a server,
  the index of the next one is that of a server, and asking for an address always returns, with
  the address of a server or none, and leaves a balancer that can be used.\<close>

theorem configured_balancers_usable:
  assumes "ServiceCfg_Load infos suites doc = Some cfg" "Service_Start sw cfg (no_parts w) = (None, p)"
    and "(name, lb) \<in> set (sp_balancers p)"
  shows "lb_ok lb \<and> lb_Servers lb \<noteq> [] \<and> (\<exists>address lb'. LoadBalancer_Address lb = Some (address, lb') \<and> lb_ok lb')"
proof -
  obtain c where c: "c \<in> set (sc_LoadBalancers cfg)" "lb = StartLoadBalancer (lbc_Servers c) (lbc_HealthProbe c)"
    using started_balancers [OF assms(2,3)] by blast
  have "initLoadBalancers doc = Some (sc_LoadBalancers cfg)"
    using assms(1) by (auto simp: ServiceCfg_Load_def Let_def split: option.splits)
  from all_read_map [OF this [unfolded initLoadBalancers_def] c(1)]
  obtain b where "LoadBalancerCfg_ReadBCLElement b = Some c" ..
  then have servers: "lbc_Servers c \<noteq> []" by (rule balancer_servers)
  then have ok: "lb_ok lb" using c(2) StartLoadBalancer_ok by blast
  then have ne: "lb_Servers lb \<noteq> []" by (auto simp: lb_ok_def)
  have "\<exists>address lb'. LoadBalancer_Address lb = Some (address, lb') \<and> lb_ok lb'"
    unfolding LoadBalancer_Address_rotation [OF ok] using ok ne by (auto simp: lb_ok_def split: option.split)
  then show ?thesis using ok ne by blast
qed

text \<open>Outcomes of the tests of a probe: an HTTP test has no status below 100.\<close>

definition real_outcome :: "(HealthTest \<Rightarrow> test_outcome) \<Rightarrow> bool" where
  "real_outcome out \<longleftrightarrow> (\<forall>m path st. (\<exists>e. out (HTTPHealthTest m path st) = NoRequest e) \<or>
     (\<exists>e. out (HTTPHealthTest m path st) = Responded (Inl e)) \<or>
     (\<exists>status \<ge> 100. out (HTTPHealthTest m path st) = Responded (Inr status)))"

lemma zero_status_fails:
  assumes "real_outcome out" "HTTPHealthTest m path 0 \<in> set tests"
  shows "run_tests out tests \<noteq> None"
proof -
  have fails: "HealthTest_Execute (HTTPHealthTest m path 0) (out (HTTPHealthTest m path 0)) \<noteq> None"
    using assms(1) [unfolded real_outcome_def, rule_format, of m path 0] by auto
  show ?thesis using assms(2)
  proof (induction tests)
    case (Cons t ts)
    then show ?case using fails by (cases "HealthTest_Execute t (out t)") auto
  qed simp
qed

lemma failing_ticks:
  assumes "\<forall>out \<in> set outs. real_outcome out" "lbs_probe s = Some pr" "HTTPHealthTest m path 0 \<in> set (hp_tests pr)"
    and "hp_state pr = HealthProbeStateFailed" "\<not> lbs_healthy s"
  shows "\<not> lbs_healthy (fold watch_tick outs s)"
  using assms
proof (induction outs arbitrary: s)
  case (Cons out outs)
  have "HealthProbe_Execute out pr = ((False, run_tests out (hp_tests pr)), pr)"
    using zero_status_fails [of out m path "hp_tests pr"] Cons.prems
    by (auto simp: HealthProbe_Execute_def probe_step_def probe_ok_def)
  then have "watch_tick out s = s" using Cons.prems by (cases s) (simp add: watch_tick_def)
  then show ?case using Cons by simp
qed simp

text \<open>A health probe with an empty block \<open>success\<close> expects the status 0, which no response has: with a
  failure threshold of at most two, a server that is watched by it is taken out of service by
  the second test and never comes back, however well it answers.\<close>

theorem empty_success_block_fails:
  assumes "HTTPHealthTestCfg_ReadBCLElement b = Some test" "bl_Find b ''success'' = Some block" "entry_int block ''status'' = None"
    and "ProbeHTTP probe = Some test" "FailureThreshold probe \<le> 2" "\<forall>out \<in> set outs. real_outcome out" "2 \<le> length outs"
    and "s \<in> set (lb_Servers (StartLoadBalancer addresses (Some probe)))"
  shows "\<not> lbs_healthy (fold watch_tick outs s)"
proof -
  obtain m path where test: "test = (m, path, 0)"
    using assms(1-3) by (auto simp: HTTPHealthTestCfg_ReadBCLElement_def Let_def value_or_def split: if_splits)
  let ?pr = "NewHealthProbe probe"
  have s: "lbs_healthy s" "lbs_probe s = Some ?pr" using assms(8) by (auto simp: StartLoadBalancer_def)
  have mem: "HTTPHealthTest m path 0 \<in> set (hp_tests ?pr)" using assms(4) test by (simp add: NewHealthProbe_def)
  obtain o1 o2 rest where outs: "outs = o1 # o2 # rest" using assms(7) by (cases outs; cases "tl outs") auto
  have fail: "run_tests o1 (hp_tests ?pr) \<noteq> None" "run_tests o2 (hp_tests ?pr) \<noteq> None"
    using zero_status_fails [OF _ mem] assms(6) outs by auto
  let ?p1 = "?pr\<lparr>hp_state := HealthProbeStateFailing, hp_count := 1\<rparr>"
  let ?p2 = "?pr\<lparr>hp_state := HealthProbeStateFailed, hp_count := 2\<rparr>"
  have w: "wrap64 2 = 2" by (simp add: wrap64_def)
  have 1: "watch_tick o1 s = s\<lparr>lbs_probe := Some ?p1\<rparr>"
    using s fail(1) by (auto simp: watch_tick_def HealthProbe_Execute_def probe_step_def probe_ok_def NewHealthProbe_def Let_def)
  have 2: "watch_tick o2 (s\<lparr>lbs_probe := Some ?p1\<rparr>) = s\<lparr>lbs_probe := Some ?p2, lbs_healthy := False\<rparr>"
    using s fail(2) assms(5) w
    by (auto simp: watch_tick_def HealthProbe_Execute_def probe_step_def probe_ok_def NewHealthProbe_def Let_def)
  have "\<not> lbs_healthy (fold watch_tick rest (s\<lparr>lbs_probe := Some ?p2, lbs_healthy := False\<rparr>))"
    by (rule failing_ticks [where pr = ?p2]) (use assms(6) outs mem in auto)
  then show ?thesis using 1 2 outs by simp
qed

definition demo_block :: "string \<Rightarrow> (string \<times> string) list \<Rightarrow> (string \<times> bcl_block) list \<Rightarrow> bcl_block" where
  "demo_block name entries blocks = Block name
     \<lparr>el_IsBlock = True, el_FindEntry = \<lambda>n. map_option (\<lambda>v. demo_entry [v]) (map_of entries n),
      el_FindEntries = \<lambda>n. map (\<lambda>(_, v). demo_entry [v]) (filter (\<lambda>(k, _). k = n) entries)\<rparr>
     (map_of blocks) (\<lambda>n. map snd (filter (\<lambda>(k, _). k = n) blocks))"

definition demo_file :: bcl_block where
  "demo_file = demo_block [] [] [(''load_balancer'', demo_block ''b'' [(''server'', ''web:80'')] [])]"

definition demo_probe_block :: bcl_block where
  "demo_probe_block = demo_block [] [(''path'', ''/health'')] [(''success'', demo_block [] [] [])]"

lemma demo_entry_text [simp]: "text_value (demo_entry (v # vs)) 0 = Some v"
  by (simp add: demo_entry_def text_value_def)

theorem configured_balancers_usable_witness:
  "\<exists>cfg p lb. ServiceCfg_Load [] [] demo_file = Some cfg \<and>
    Service_Start \<lparr>sw_os = demo_os, sw_acme = True, sw_remove = True\<rparr> cfg (no_parts {#}) = (None, p) \<and>
    sp_balancers p = [(''b'', lb)] \<and> lb_ok lb"
proof -
  let ?cfg = "\<lparr>sc_ACME = False, sc_LoadBalancers = [\<lparr>lbc_Name = ''b'', lbc_Servers = [\<lparr>Hostname = ''web'', HostIP = [], HostPort = 80\<rparr>],
      lbc_HealthProbe = None\<rparr>], sc_Servers = [], sc_ControlAPI = None\<rparr>"
  let ?lb = "StartLoadBalancer [\<lparr>Hostname = ''web'', HostIP = [], HostPort = 80\<rparr>] None"
  have "HostAddress_ReadBCLValue (Some ''web:80'') = Some (Inr \<lparr>Hostname = ''web'', HostIP = [], HostPort = 80\<rparr>)" by code_simp
  then have cfg: "ServiceCfg_Load [] [] demo_file = Some ?cfg"
    by (simp add: ServiceCfg_Load_def initLoadBalancers_def initServers_def demo_file_def demo_block_def
        LoadBalancerCfg_ReadBCLElement_def read_server_def)
  let ?sw = "\<lparr>sw_os = demo_os, sw_acme = True, sw_remove = True\<rparr>"
  obtain p where p: "Service_Start ?sw ?cfg (no_parts {#}) = (None, p)" "sp_balancers p = [(''b'', ?lb)]"
    by (simp add: Service_Start_def start_next_def startACMEClient_def service_balancers_def service_servers_def
        startControlAPI_def startLoadBalancer_def)
  show ?thesis using configured_balancers_usable [OF cfg p(1), of "''b''" ?lb] cfg p by auto
qed

theorem empty_success_block_fails_witness:
  "\<exists>test. HTTPHealthTestCfg_ReadBCLElement demo_probe_block = Some test \<and>
    \<not> lbs_healthy (fold watch_tick [\<lambda>_. Responded (Inr 200), \<lambda>_. Responded (Inr 200), \<lambda>_. Responded (Inr 200)]
      \<lparr>lbs_Address = \<lparr>Hostname = ''web'', HostIP = [], HostPort = 80\<rparr>, lbs_healthy = True,
       lbs_probe = Some (NewHealthProbe \<lparr>SuccessThreshold = 1, FailureThreshold = 1, ProbeTCP = False, ProbeHTTP = Some test\<rparr>)\<rparr>)"
proof -
  let ?test = "(''GET'', ''/health'', 0 :: int)"
  let ?pr = "\<lparr>SuccessThreshold = 1, FailureThreshold = 1, ProbeTCP = False, ProbeHTTP = Some ?test\<rparr>"
  let ?outs = "[\<lambda>_. Responded (Inr 200), \<lambda>_. Responded (Inr 200), \<lambda>_. Responded (Inr 200)]"
  have t: "HTTPHealthTestCfg_ReadBCLElement demo_probe_block = Some ?test"
    by (simp add: HTTPHealthTestCfg_ReadBCLElement_def demo_probe_block_def demo_block_def entry_text_def entry_int_def
        value_or_def ValidateBCLMethod_def methods_def)
  have b: "bl_Find demo_probe_block ''success'' = Some (demo_block [] [] [])" "entry_int (demo_block [] [] []) ''status'' = None"
    by (simp_all add: demo_probe_block_def demo_block_def entry_int_def)
  have "\<forall>out \<in> set ?outs. real_outcome out" by (simp add: real_outcome_def)
  from empty_success_block_fails [OF t b, of ?pr ?outs
      "\<lparr>lbs_Address = \<lparr>Hostname = ''web'', HostIP = [], HostPort = 80\<rparr>, lbs_healthy = True, lbs_probe = Some (NewHealthProbe ?pr)\<rparr>"
      "[\<lparr>Hostname = ''web'', HostIP = [], HostPort = 80\<rparr>]", OF _ _ this]
  have "\<not> lbs_healthy (fold watch_tick ?outs \<lparr>lbs_Address = \<lparr>Hostname = ''web'', HostIP = [], HostPort = 80\<rparr>, lbs_healthy = True,
       lbs_probe = Some (NewHealthProbe ?pr)\<rparr>)" by (simp add: StartLoadBalancer_def del: fold_simps)
  then show ?thesis using t by blast
qed

end
