(* ===== verification/Http_Status.thy ===== *)
theory Http_Status
  imports Http_Server "HOL-Library.Char_ord" "HOL-Library.List_Lexorder"
begin

text \<open>
  What happens beside the requests in an HTTP server, and what it shows of itself: the rotation
  of the logs and the collection of the rate limiters (\<open>src/pkg/protocols/http/protocol.go\<close>),
  the count of the connections (\<open>server.go\<close>), the status of the servers (\<open>status.go\<close>,
  \<open>src/pkg/service/servers.go\<close>, \<open>service.go\<close>, \<open>src/pkg/boulevard/listener.go\<close>), the views (\<open>view.go\<close>) and the
  status action (\<open>action_status.go\<close>). The templates and the JSON encoder are arguments.
\<close>

section \<open>Maintenance\<close>

text \<open>The logger of the protocol has a reference of its own, like those of the handlers.\<close>

definition reopen :: "(string \<Rightarrow> io_error + writer) \<Rightarrow> nat option \<Rightarrow> server_state \<Rightarrow> server_state" where
  "reopen open_file l sv = (case l of
     None \<Rightarrow> sv
   | Some i \<Rightarrow> sv\<lparr>sv_loggers := (sv_loggers sv)(i := snd (AccessLogger_Reopen open_file (sv_loggers sv i)))\<rparr>)"

fun rotateHandlerLoggers ::
  "(string \<Rightarrow> io_error + writer) \<Rightarrow> 'a Handler list \<Rightarrow> server_state \<Rightarrow> server_state" where
  "rotateHandlerLoggers open_file [] sv = sv"
| "rotateHandlerLoggers open_file (Handler h hs # rest) sv =
     rotateHandlerLoggers open_file rest (rotateHandlerLoggers open_file hs (reopen open_file (h_AccessLogger h) sv))"

definition RotateLogFiles ::
  "(string \<Rightarrow> io_error + writer) \<Rightarrow> Protocol \<Rightarrow> nat option \<Rightarrow> server_state \<Rightarrow> server_state" where
  "RotateLogFiles open_file p accessLogger sv =
     rotateHandlerLoggers open_file (p_Handlers p) (reopen open_file accessLogger sv)"

text \<open>The signal \<open>SIGUSR1\<close> rotates the logs of all servers; those of the TCP protocol have none.\<close>

definition rotateLogFiles ::
  "(string \<Rightarrow> io_error + writer) \<Rightarrow> (Protocol \<times> nat option \<times> server_state) list \<Rightarrow>
     (Protocol \<times> nat option \<times> server_state) list" where
  "rotateLogFiles open_file servers = map (\<lambda>(p, al, sv). (p, al, RotateLogFiles open_file p al sv)) servers"

fun gc_handlers :: "'a Handler list \<Rightarrow> server_state \<Rightarrow> server_state" where
  "gc_handlers [] sv = sv"
| "gc_handlers (Handler h hs # rest) sv =
     gc_handlers rest (gc_handlers hs (case h_RateLimiter h of
        None \<Rightarrow> sv
      | Some (i, _) \<Rightarrow> sv\<lparr>sv_limiters := (sv_limiters sv)(i := RateLimiter_GC (sv_limiters sv i))\<rparr>))"

definition gcRateLimiters :: "Protocol \<Rightarrow> server_state \<Rightarrow> server_state" where
  "gcRateLimiters p sv = gc_handlers (p_Handlers p) sv"

section \<open>Counting connections\<close>

text \<open>The states \<open>net/http\<close> gives a connection; the counter is an \<open>atomic.Int64\<close>.\<close>

datatype ConnState = StateNew | StateActive | StateIdle | StateHijacked | StateClosed

definition connState :: "ConnState \<Rightarrow> int \<Rightarrow> int" where
  "connState state nbConnections = (case state of
     StateNew \<Rightarrow> wrap64 (nbConnections + 1)
   | StateClosed \<Rightarrow> wrap64 (nbConnections - 1)
   | _ \<Rightarrow> nbConnections)"

section \<open>Status\<close>

record ListenerStatus =
  lst_Address :: string
  lst_TLS :: bool
  lst_ACME :: bool
  lst_ACMEDomains :: "string list"

definition Listener_Status :: "string \<Rightarrow> TLSCfg option \<Rightarrow> ListenerStatus" where
  "Listener_Status address tls = (case tls of
     None \<Rightarrow> \<lparr>lst_Address = address, lst_TLS = False, lst_ACME = False, lst_ACMEDomains = []\<rparr>
   | Some cfg \<Rightarrow> \<lparr>lst_Address = address, lst_TLS = True, lst_ACME = length (TlsDomains cfg) > 0,
       lst_ACMEDomains = TlsDomains cfg\<rparr>)"

text \<open>A running server, with the name of its protocol and the number of connections that its
  protocol gives as its data.\<close>

record status_source =
  src_Name :: string
  src_Protocol :: string
  src_NbConnections :: int
  src_Listeners :: "(string \<times> TLSCfg option) list"

record ServerStatus =
  srs_Name :: string
  srs_Listeners :: "ListenerStatus list"
  srs_Protocol :: string
  srs_ProtocolData :: int

definition server_status :: "status_source \<Rightarrow> ServerStatus" where
  "server_status s = \<lparr>srs_Name = src_Name s, srs_Listeners = map (\<lambda>(a, tls). Listener_Status a tls) (src_Listeners s),
     srs_Protocol = src_Protocol s, srs_ProtocolData = src_NbConnections s\<rparr>"

definition serverStatuses :: "(string \<times> status_source) list \<Rightarrow> (string \<times> ServerStatus) list" where
  "serverStatuses servers = map (\<lambda>(name, s). (name, server_status s)) servers"

section \<open>Views\<close>

datatype view_format = RenderJSON | RenderText | RenderHTML

record 'd view_world =
  vw_parse_float :: "string \<Rightarrow> quality option"
  vw_uni :: "string \<Rightarrow> string"
  vw_sorter :: "MediaRange list \<Rightarrow> MediaRange list"
  vw_reason :: "int \<Rightarrow> string"
  vw_marshal :: "'d \<Rightarrow> string option"
  vw_text :: "string \<Rightarrow> 'd \<Rightarrow> string option"
  vw_html :: "string \<Rightarrow> 'd \<Rightarrow> string option"

definition statusMediaTypes :: "MediaType list" where
  "statusMediaTypes = [MediaTypeText, MediaTypeHTML, MediaTypeJSON]"

text \<open>The \<open>switch\<close> compares pointers, and the three types differ.\<close>

definition view_format :: "'d view_world \<Rightarrow> 'a RequestContext \<Rightarrow> view_format option" where
  "view_format w ctx =
     (let t = ctx_NegotiateMediaType (vw_parse_float w) (vw_uni w) (vw_sorter w) statusMediaTypes ctx in
      if t = Some MediaTypeJSON then Some RenderJSON
      else if t = Some MediaTypeText then Some RenderText
      else if t = Some MediaTypeHTML then Some RenderHTML
      else None)"

definition render_as :: "'d view_world \<Rightarrow> view_format \<Rightarrow> string \<Rightarrow> 'd \<Rightarrow> string option" where
  "render_as w f name x = (case f of
     RenderJSON \<Rightarrow> map_option (\<lambda>content. content @ [CHR 0x0A]) (vw_marshal w x)
   | RenderText \<Rightarrow> vw_text w name x
   | RenderHTML \<Rightarrow> vw_html w name x)"

text \<open>No format is a call of a nil function (\<open>None\<close>).\<close>

definition View_Render :: "'d view_world \<Rightarrow> string \<Rightarrow> 'd \<Rightarrow> 'a RequestContext \<Rightarrow> string option option" where
  "View_Render w name x ctx = map_option (\<lambda>f. render_as w f name x) (view_format w ctx)"

definition sorted_statuses :: "(string \<times> ServerStatus) list \<Rightarrow> ServerStatus list" where
  "sorted_statuses statusTable = map (\<lambda>name. the (map_of statusTable name)) (sort (map fst statusTable))"

definition StatusAction_HandleRequest ::
  "ServerStatus list view_world \<Rightarrow> (string \<times> status_source) list \<Rightarrow> 'a RequestContext \<Rightarrow> 'a RequestContext outcome" where
  "StatusAction_HandleRequest w servers ctx =
     (case View_Render w ''status'' (sorted_statuses (serverStatuses servers)) ctx of
        None \<Rightarrow> Panicked ctx
      | Some None \<Rightarrow> ReplyError (vw_reason w) 500 ctx
      | Some (Some content) \<Rightarrow> Reply 200 (Some content) ctx)"

section \<open>Lemmas\<close>

text \<open>The answer of the server depends on its state only through the decisions of the limiters.\<close>

definition same_decisions :: "world \<Rightarrow> server_state \<Rightarrow> server_state \<Rightarrow> bool" where
  "same_decisions w sv sv' \<longleftrightarrow> (\<forall>i addr. fst (RateLimiter_Update (w_clock w) (sv_limiters sv i) 1 addr (w_start w)) =
     fst (RateLimiter_Update (w_clock w) (sv_limiters sv' i) 1 addr (w_start w)))"

lemma limit_request_cong: "same_decisions w sv sv' \<Longrightarrow> fst (limit_request w ctx sv) = fst (limit_request w ctx sv')"
  by (cases "ctx_RateLimiter ctx") (simp_all add: limit_request_def same_decisions_def split_beta)

lemma dispatch_cong:
  assumes "same_decisions w sv sv'"
  shows "fst (dispatch w act p ctx sv) = fst (dispatch w act p ctx sv')"
proof -
  obtain h ctx1 where h: "findHandler (p_Handlers p) ctx = (h, ctx1)" by fastforce
  obtain ok sv1 where l: "limit_request w ctx1 sv = (ok, sv1)" by fastforce
  moreover obtain sv2 where "limit_request w ctx1 sv' = (ok, sv2)"
    using limit_request_cong [OF assms, of ctx1] l by (cases "limit_request w ctx1 sv'") simp
  ultimately show ?thesis using h
    by (simp add: dispatch_def split: option.split bool.split outcome.split prod.split)
qed

lemma handle_request_cong:
  "same_decisions w sv sv' \<Longrightarrow> fst (handle_request w act p ctx sv) = fst (handle_request w act p ctx sv')"
  using dispatch_cong [of w sv sv' act p]
  by (simp add: handle_request_def split: option.split bool.split outcome.split prod.split)

lemma OnRequestHandled_fst: "fst (OnRequestHandled w ctx sv) = set_var ''http.response_time'' (w_response_time w) ctx"
  by (simp add: OnRequestHandled_def Let_def split: option.split)

lemma ServeHTTP_cong:
  assumes "same_decisions w sv sv'"
  shows "fst (ServeHTTP w act p al req out sv) = fst (ServeHTTP w act p al req out sv')"
proof -
  let ?ctx = "(NewRequestContext (w_uni w) req out)\<lparr>ctx_AccessLogger := al\<rparr>"
  obtain r sv1 where r: "handle_request w act p ?ctx sv = (r, sv1)" by fastforce
  moreover obtain sv2 where "handle_request w act p ?ctx sv' = (r, sv2)"
    using handle_request_cong [OF assms, of act p ?ctx] r by (cases "handle_request w act p ?ctx sv'") simp
  ultimately show ?thesis by (cases r) (simp_all add: ServeHTTP_def split_beta OnRequestHandled_fst)
qed

section \<open>What maintenance changes\<close>

fun handler_loggers :: "'a Handler list \<Rightarrow> nat list" where
  "handler_loggers [] = []"
| "handler_loggers (Handler h hs # rest) =
     (case h_AccessLogger h of None \<Rightarrow> [] | Some i \<Rightarrow> [i]) @ handler_loggers hs @ handler_loggers rest"

fun handler_limiters :: "'a Handler list \<Rightarrow> nat list" where
  "handler_limiters [] = []"
| "handler_limiters (Handler h hs # rest) =
     (case h_RateLimiter h of None \<Rightarrow> [] | Some (i, _) \<Rightarrow> [i]) @ handler_limiters hs @ handler_limiters rest"

definition protocol_loggers :: "Protocol \<Rightarrow> nat option \<Rightarrow> nat list" where
  "protocol_loggers p al = (case al of None \<Rightarrow> [] | Some i \<Rightarrow> [i]) @ handler_loggers (p_Handlers p)"

lemma reopen_simps [simp]:
  "sv_limiters (reopen f l sv) = sv_limiters sv"
  "sv_loggers (reopen f l sv) i =
    (if l = Some i then snd (AccessLogger_Reopen f (sv_loggers sv i)) else sv_loggers sv i)"
  by (auto simp: reopen_def split: option.split)

lemma rotateHandlerLoggers_limiters [simp]: "sv_limiters (rotateHandlerLoggers f hs sv) = sv_limiters sv"
  by (induction f hs sv rule: rotateHandlerLoggers.induct) simp_all

lemma rotateHandlerLoggers_loggers:
  "distinct (handler_loggers hs) \<Longrightarrow> sv_loggers (rotateHandlerLoggers f hs sv) i =
    (if i \<in> set (handler_loggers hs) then snd (AccessLogger_Reopen f (sv_loggers sv i)) else sv_loggers sv i)"
  by (induction f hs sv rule: rotateHandlerLoggers.induct) (auto split: option.splits)

lemma RateLimiter_GC_idem: "RateLimiter_GC (RateLimiter_GC rl) = RateLimiter_GC rl"
proof -
  have "gc_table (gc_table t) = gc_table t" for t by (auto simp: gc_table_def fun_eq_iff split: option.split)
  then show ?thesis by (simp add: RateLimiter_GC_def split_beta)
qed

lemma gc_handlers_limiters:
  "sv_limiters (gc_handlers hs sv) i =
    (if i \<in> set (handler_limiters hs) then RateLimiter_GC (sv_limiters sv i) else sv_limiters sv i)"
  by (induction hs sv rule: gc_handlers.induct) (auto simp: RateLimiter_GC_idem split: option.split)

section \<open>The states of connections\<close>

text \<open>The changes of state that \<open>net/http\<close> documents: a connection begins as new, is active while a
  request is handled and idle between requests; hijacked and closed are final.\<close>

fun next_state :: "ConnState option \<Rightarrow> ConnState \<Rightarrow> bool" where
  "next_state None s = (s = StateNew)"
| "next_state (Some StateNew) s = (s = StateActive \<or> s = StateClosed)"
| "next_state (Some StateActive) s = (s = StateIdle \<or> s = StateHijacked \<or> s = StateClosed)"
| "next_state (Some StateIdle) s = (s = StateActive \<or> s = StateClosed)"
| "next_state (Some StateHijacked) s = False"
| "next_state (Some StateClosed) s = False"

type_synonym conn_states = "(nat \<Rightarrow> ConnState option) \<times> int"

inductive conn_step :: "conn_states \<Rightarrow> conn_states \<Rightarrow> bool" where
  changes: "next_state (st c) s \<Longrightarrow> conn_step (st, n) (st(c \<mapsto> s), connState s n)"

text \<open>The connections the counter counts: all that have not been closed.\<close>

definition not_closed :: "(nat \<Rightarrow> ConnState option) \<Rightarrow> nat set" where
  "not_closed st = {c. st c \<noteq> None \<and> st c \<noteq> Some StateClosed}"

definition seen :: "(nat \<Rightarrow> ConnState option) \<Rightarrow> nat set" where
  "seen st = {c. st c \<noteq> None}"

definition conn_inv :: "conn_states \<Rightarrow> bool" where
  "conn_inv x \<longleftrightarrow> finite (seen (fst x)) \<and> (card (seen (fst x)) < 2 ^ 63 \<longrightarrow> snd x = int (card (not_closed (fst x))))"

lemma seen_upd: "seen (st(c \<mapsto> s)) = insert c (seen st)"
  by (auto simp: seen_def)

lemma not_closed_upd: "not_closed (st(c \<mapsto> s)) = (if s = StateClosed then not_closed st - {c} else insert c (not_closed st))"
  by (auto simp: not_closed_def)

lemma not_closed_seen: "not_closed st \<subseteq> seen st"
  by (auto simp: not_closed_def seen_def)

lemma next_state_open: "next_state (Some s) s' \<Longrightarrow> s \<noteq> StateClosed \<and> s' \<noteq> StateNew"
  by (cases s; cases s') simp_all

lemma conn_step_inv: "conn_step x y \<Longrightarrow> conn_inv x \<Longrightarrow> conn_inv y"
proof (induction rule: conn_step.induct)
  case (changes st c s n)
  have fin: "finite (seen st)" using changes.prems by (simp add: conn_inv_def)
  have fin': "finite (not_closed st)" using fin not_closed_seen finite_subset by blast
  have le: "card (not_closed st) \<le> card (seen st)" by (rule card_mono [OF fin not_closed_seen])
  show ?case
  proof (cases "st c")
    case None
    then have s: "s = StateNew" using changes.hyps by simp
    have new: "c \<notin> seen st" "c \<notin> not_closed st" using None by (simp_all add: seen_def not_closed_def)
    then have "card (seen (st(c \<mapsto> s))) = Suc (card (seen st))" using fin by (simp add: seen_upd)
    then show ?thesis using changes.prems s new fin fin' le
      by (auto simp: conn_inv_def seen_upd not_closed_upd connState_def int64_def intro!: wrap64_id)
  next
    case (Some s0)
    then have s0: "s0 \<noteq> StateClosed" "s \<noteq> StateNew" using changes.hyps next_state_open by auto
    have old: "c \<in> seen st" "c \<in> not_closed st" using Some s0 by (simp_all add: seen_def not_closed_def)
    then have "0 < card (not_closed st)" using fin' card_gt_0_iff by blast
    then have "wrap64 (int (card (not_closed st)) - 1) = int (card (not_closed st - {c}))" if "card (seen st) < 2 ^ 63"
      using that le old fin' by (subst wrap64_id) (auto simp: int64_def of_nat_diff)
    then show ?thesis using changes.prems s0 old fin
      by (cases s) (auto simp: conn_inv_def seen_upd not_closed_upd connState_def insert_absorb)
  qed
qed

lemma conn_reachable_inv: "conn_step\<^sup>*\<^sup>* (\<lambda>_. None, 0) x \<Longrightarrow> conn_inv x"
proof (induction rule: rtranclp_induct)
  case base
  then show ?case by (simp add: conn_inv_def seen_def not_closed_def)
next
  case (step y z)
  then show ?case using conn_step_inv by blast
qed

section \<open>Properties\<close>


text \<open>The rotation of the logs reopens every log file of the server once, those of the nested handlers
  too: a logger whose file can be opened goes on in the new file and has closed the old one
  with everything written to it; one whose file cannot be opened goes on in the old one.\<close>

theorem rotation_reopens_all:
  assumes "distinct (protocol_loggers p al)"
  shows "sv_loggers (RotateLogFiles f p al sv) i =
    (let l = sv_loggers sv i in
     if i \<notin> set (protocol_loggers p al) then l
     else (case f (al_filePath l) of
         Inl _ \<Rightarrow> l
       | Inr new \<Rightarrow> l\<lparr>al_file := Some new, al_closed := al_closed l @ (case al_file l of None \<Rightarrow> [] | Some old \<Rightarrow> [old])\<rparr>))"
proof -
  have d: "distinct (handler_loggers (p_Handlers p))" "al \<noteq> Some j \<or> j \<notin> set (handler_loggers (p_Handlers p))" for j
    using assms by (auto simp: protocol_loggers_def split: option.splits)
  have "sv_loggers (RotateLogFiles f p al sv) i =
      (if i \<in> set (protocol_loggers p al) then snd (AccessLogger_Reopen f (sv_loggers sv i)) else sv_loggers sv i)"
    using d(2) [of i]
    by (cases al) (auto simp: RotateLogFiles_def rotateHandlerLoggers_loggers [OF d(1)] protocol_loggers_def)
  moreover have "snd (AccessLogger_Reopen f l) = (case f (al_filePath l) of Inl _ \<Rightarrow> l
      | Inr new \<Rightarrow> l\<lparr>al_file := Some new, al_closed := al_closed l @ (case al_file l of None \<Rightarrow> [] | Some old \<Rightarrow> [old])\<rparr>)" for l
    by (cases "f (al_filePath l)"; cases "al_file l") (simp_all add: AccessLogger_Reopen_def)
  ultimately show ?thesis by (simp add: Let_def)
qed

text \<open>The number of connections in the status is that of the open connections only as long as none is
  hijacked: in every sequence of the state changes that the HTTP library documents, the counter
  is the number of open connections plus the number of all connections that were ever
  hijacked, which an upgraded connection is, even long after they are gone.\<close>

theorem hijacked_counted_forever:
  assumes "conn_step\<^sup>*\<^sup>* (\<lambda>_. None, 0) (st, n)" "card {c. st c \<noteq> None} < 2 ^ 63"
  shows "n = int (card {c. st c \<in> Some ` {StateNew, StateActive, StateIdle}}) + int (card {c. st c = Some StateHijacked})"
proof -
  have inv: "finite (seen st)" "n = int (card (not_closed st))"
    using conn_reachable_inv [OF assms(1)] assms(2) by (simp_all add: conn_inv_def seen_def)
  let ?live = "{c. st c \<in> Some ` {StateNew, StateActive, StateIdle}}" and ?hj = "{c. st c = Some StateHijacked}"
  have eq: "not_closed st = ?live \<union> ?hj"
  proof (intro set_eqI)
    fix c show "c \<in> not_closed st \<longleftrightarrow> c \<in> ?live \<union> ?hj"
      by (cases "st c"; cases "the (st c)") (auto simp: not_closed_def)
  qed
  have "finite (not_closed st)" using inv(1) not_closed_seen finite_subset by blast
  then have "finite ?live" "finite ?hj" unfolding eq by simp_all
  moreover have "?live \<inter> ?hj = {}" by auto
  ultimately show ?thesis using inv(2) unfolding eq by (simp add: card_Un_disjoint)
qed

lemma first_match_mem: "first_match rs ts = Some t \<Longrightarrow> t \<in> set ts"
  by (induction rs) (auto dest: find_SomeD split: option.splits)

lemma view_format_some: "view_format w ctx \<noteq> None"
proof -
  have "\<exists>t \<in> set statusMediaTypes. NegotiateMediaType sorter ranges statusMediaTypes = Some t" for sorter ranges
    using first_match_mem [of "sorter ranges" statusMediaTypes]
    by (auto simp: NegotiateMediaType_def statusMediaTypes_def split: option.split)
  then obtain t where "t \<in> set statusMediaTypes"
      "ctx_NegotiateMediaType (vw_parse_float w) (vw_uni w) (vw_sorter w) statusMediaTypes ctx = Some t"
    unfolding ctx_NegotiateMediaType_def Let_def by blast
  then show ?thesis by (auto simp: view_format_def statusMediaTypes_def Let_def)
qed

lemma sorted_statuses_names:
  assumes "\<forall>(name, s) \<in> set servers. src_Name s = name"
  shows "map srs_Name (sorted_statuses (serverStatuses servers)) = sort (map fst servers)"
proof -
  have "srs_Name (the (map_of (serverStatuses servers) n)) = n" if n: "n \<in> set (map fst servers)" for n
  proof -
    obtain s where s: "map_of servers n = Some s" using n by (cases "map_of servers n") (auto simp: map_of_eq_None_iff)
    then have "src_Name s = n" using assms map_of_SomeD [OF s] by auto
    moreover have "map_of (serverStatuses servers) n = Some (server_status s)"
      using s by (simp add: serverStatuses_def map_of_map split_beta comp_def)
    ultimately show ?thesis by (simp add: server_status_def)
  qed
  then have "map (srs_Name \<circ> (\<lambda>name. the (map_of (serverStatuses servers) name))) (sort (map fst servers)) = sort (map fst servers)"
    by (intro map_idI) simp
  moreover have "map fst (serverStatuses servers) = map fst servers" by (simp add: serverStatuses_def split_beta comp_def)
  ultimately show ?thesis by (simp only: sorted_statuses_def map_map)
qed

lemma sorted_statuses_mset:
  assumes "distinct (map fst servers)"
  shows "mset (sorted_statuses (serverStatuses servers)) = mset (map (\<lambda>(_, s). server_status s) servers)"
proof -
  have d: "distinct (map fst (serverStatuses servers))" using assms by (simp add: serverStatuses_def split_beta comp_def)
  have 1: "map (\<lambda>n. the (map_of (serverStatuses servers) n)) (map fst (serverStatuses servers)) = map snd (serverStatuses servers)"
    using d by (auto simp: map_of_is_SomeI)
  have 2: "mset (sorted_statuses (serverStatuses servers)) =
      mset (map (\<lambda>n. the (map_of (serverStatuses servers) n)) (map fst (serverStatuses servers)))"
    by (simp only: sorted_statuses_def mset_map mset_sort)
  have 3: "map snd (serverStatuses servers) = map (\<lambda>(_, s). server_status s) servers"
    by (simp add: serverStatuses_def split_beta)
  show ?thesis unfolding 2 1 3 ..
qed

text \<open>The status action describes every running server once, in the order of their names, in the format
  negotiated with the client; a rendering that fails is an internal error. The header is sent
  as it is: no field says which of the three formats the body has.\<close>

theorem status_action_answers:
  assumes "client_status ctx = None" "room (rw_out (ctx_Writer ctx)) = None"
    and "distinct (map fst servers)" "\<forall>(name, s) \<in> set servers. src_Name s = name"
  shows "\<exists>f statuses. view_format w ctx = Some f \<and> sorted (map srs_Name statuses) \<and>
    mset statuses = mset (map (\<lambda>(_, s). server_status s) servers) \<and>
    (case render_as w f ''status'' statuses of
       None \<Rightarrow> StatusAction_HandleRequest w servers ctx = ReplyError (vw_reason w) 500 ctx
     | Some content \<Rightarrow> \<exists>ctx'. StatusAction_HandleRequest w servers ctx = Done ctx' \<and>
         rw_sent (ctx_Writer ctx') = Some (200, rw_header (ctx_Writer ctx)) \<and>
         sent (rw_out (ctx_Writer ctx')) = sent (rw_out (ctx_Writer ctx)) @ bytes_of content)"
proof -
  obtain f where f: "view_format w ctx = Some f" using view_format_some by blast
  let ?st = "sorted_statuses (serverStatuses servers)"
  have ok: "sorted (map srs_Name ?st)" using sorted_statuses_names [OF assms(4)] by simp
  have reply: "\<exists>ctx'. Reply 200 (Some content) ctx = Done ctx' \<and>
      rw_sent (ctx_Writer ctx') = Some (200, rw_header (ctx_Writer ctx)) \<and>
      sent (rw_out (ctx_Writer ctx')) = sent (rw_out (ctx_Writer ctx)) @ bytes_of content" for content
    using assms(1,2) Write_conn_unlimited [of "rw_out (ctx_Writer ctx)" "bytes_of content"]
    by (auto simp: Reply_def ResponseWriter_WriteHeader_def net_WriteHeader_def ResponseWriter_Write_def client_status_def Let_def
        split: prod.split)
  show ?thesis
    by (rule exI [of _ f], rule exI [of _ ?st])
      (use f ok reply sorted_statuses_mset [OF assms(3)] in
        \<open>simp add: StatusAction_HandleRequest_def View_Render_def split: option.split\<close>)
qed

definition demo_limits_state :: server_state where
  "demo_limits_state = \<lparr>sv_limiters = \<lambda>_. NewRateLimiter 0 \<lparr>CfgGlobal = None, CfgPerIPv4 = [], CfgPerIPv6 = [], CfgAddresses = []\<rparr>,
     sv_loggers = \<lambda>_. demo_logger\<rparr>"


theorem rotation_reopens_all_witness:
  "al_file (sv_loggers (RotateLogFiles (\<lambda>_. Inr \<lparr>sent = [7], room = None, werr = EOF\<rparr>) demo_protocol (Some 0)
      demo_limits_state) 0) = Some \<lparr>sent = [7], room = None, werr = EOF\<rparr>"
proof -
  have "distinct (protocol_loggers demo_protocol (Some 0))" "0 \<in> set (protocol_loggers demo_protocol (Some 0))"
    by (simp_all add: protocol_loggers_def demo_protocol_def demo_handler_def)
  then show ?thesis using rotation_reopens_all [of demo_protocol "Some 0"] by (simp add: Let_def)
qed

definition demo_conns :: "nat \<Rightarrow> ConnState option" where
  "demo_conns = (\<lambda>_. None)(0 \<mapsto> StateNew, 0 \<mapsto> StateActive, 0 \<mapsto> StateHijacked)"

theorem hijacked_counted_forever_witness:
  "conn_step\<^sup>*\<^sup>* (\<lambda>_. None, 0) (demo_conns, 1) \<and>
    (1 :: int) = int (card {c. demo_conns c \<in> Some ` {StateNew, StateActive, StateIdle}}) + int (card {c. demo_conns c = Some StateHijacked})"
proof -
  have w: "wrap64 1 = 1" by (simp add: wrap64_def)
  have 1: "conn_step (\<lambda>_. None, 0) ((\<lambda>_. None)(0 \<mapsto> StateNew), 1)"
    using changes [of "\<lambda>_. None" 0 StateNew 0] by (simp add: connState_def w)
  have 2: "conn_step ((\<lambda>_. None)(0 \<mapsto> StateNew), 1) ((\<lambda>_. None)(0 \<mapsto> StateNew, 0 \<mapsto> StateActive), 1)"
    using changes [of "(\<lambda>_. None)(0 \<mapsto> StateNew)" 0 StateActive 1] by (simp add: connState_def)
  have 3: "conn_step ((\<lambda>_. None)(0 \<mapsto> StateNew, 0 \<mapsto> StateActive), 1) (demo_conns, 1)"
    using changes [of "(\<lambda>_. None)(0 \<mapsto> StateNew, 0 \<mapsto> StateActive)" 0 StateHijacked 1]
    by (simp add: connState_def demo_conns_def)
  have r: "conn_step\<^sup>*\<^sup>* (\<lambda>_. None, 0) (demo_conns, 1)"
    using 1 2 3 by (meson rtranclp.rtrancl_into_rtrancl rtranclp.rtrancl_refl)
  have "{c. demo_conns c \<noteq> None} = {0}" by (auto simp: demo_conns_def)
  then show ?thesis using r hijacked_counted_forever [OF r] by simp
qed

definition demo_view_world :: "ServerStatus list view_world" where
  "demo_view_world = \<lparr>vw_parse_float = \<lambda>_. None, vw_uni = id, vw_sorter = id, vw_reason = \<lambda>_. ''Error'', vw_marshal = \<lambda>_. Some ''{}'',
     vw_text = \<lambda>_ _. Some ''text'', vw_html = \<lambda>_ _. Some ''html''\<rparr>"

definition demo_source :: status_source where
  "demo_source = \<lparr>src_Name = ''web'', src_Protocol = ''http'', src_NbConnections = 3, src_Listeners = [(''[::]:80'', None)]\<rparr>"

theorem status_action_answers_witness:
  "\<exists>ctx'. StatusAction_HandleRequest demo_view_world [(''web'', demo_source)]
      (NewRequestContext id demo_request \<lparr>sent = [], room = None, werr = EOF\<rparr> :: nat RequestContext) = Done ctx' \<and>
    rw_sent (ctx_Writer ctx') = Some (200, [])"
proof -
  let ?ctx = "NewRequestContext id demo_request \<lparr>sent = [], room = None, werr = EOF\<rparr> :: nat RequestContext"
  have ctx: "client_status ?ctx = None" "room (rw_out (ctx_Writer ?ctx)) = None" "rw_header (ctx_Writer ?ctx) = []"
    by (simp_all add: NewRequestContext_def NewResponseWriter_def client_status_def)
  have some: "\<exists>c. render_as demo_view_world f n x = Some c" for f n x
    by (cases f) (simp_all add: render_as_def demo_view_world_def)
  have servers: "distinct (map fst [(''web'', demo_source)])" "\<forall>(name, s) \<in> set [(''web'', demo_source)]. src_Name s = name"
    by (simp_all add: demo_source_def)
  from status_action_answers [OF ctx(1,2) servers, of demo_view_world] obtain f statuses where
    r: "case render_as demo_view_world f ''status'' statuses of
       None \<Rightarrow> StatusAction_HandleRequest demo_view_world [(''web'', demo_source)] ?ctx = ReplyError (vw_reason demo_view_world) 500 ?ctx
     | Some content \<Rightarrow> \<exists>ctx'. StatusAction_HandleRequest demo_view_world [(''web'', demo_source)] ?ctx = Done ctx' \<and>
         rw_sent (ctx_Writer ctx') = Some (200, rw_header (ctx_Writer ?ctx)) \<and>
         sent (rw_out (ctx_Writer ctx')) = sent (rw_out (ctx_Writer ?ctx)) @ bytes_of content" by blast
  obtain c where "render_as demo_view_world f ''status'' statuses = Some c" using some by blast
  then show ?thesis using r ctx(3) by auto
qed

end
