(* ===== verification/Control_API.thy ===== *)
theory Control_API
  imports Http_Server
begin

text \<open>
  The control API of the service and its client: \<open>ServeHTTP\<close> of \<open>src/pkg/service/control_api.go\<close> with
  the handlers of \<open>control_api_handler.go\<close> and \<open>control_api_status.go\<close>, \<open>Call\<close> of
  \<open>src/pkg/service/client.go\<close>, and \<open>ReplyJSON\<close> of \<open>src/pkg/protocols/http/request_context.go\<close>. The
  JSON encoder and decoder of the libraries are arguments, and so is the HTTP client.
\<close>

section \<open>JSON replies\<close>

text \<open>The status goes to the response writer, not through \<open>Reply\<close>: no variable is set.\<close>

definition send_json :: "int \<Rightarrow> string option \<Rightarrow> 'a RequestContext \<Rightarrow> 'a RequestContext outcome" where
  "send_json status data ctx =
     (let ctx = set_header ''Content-Type'' (MediaType_String MediaTypeJSON) ctx in
      case ResponseWriter_WriteHeader status (ctx_Writer ctx) of
        Panicked w \<Rightarrow> Panicked (ctx\<lparr>ctx_Writer := w\<rparr>)
      | Done w \<Rightarrow> Done (ctx\<lparr>ctx_Writer := (case data of
            None \<Rightarrow> w
          | Some text \<Rightarrow> snd (ResponseWriter_Write (bytes_of (text @ [CHR 0x0A])) w))\<rparr>))"

definition ReplyJSON ::
  "(int \<Rightarrow> string) \<Rightarrow> ('v \<Rightarrow> string option) \<Rightarrow> int \<Rightarrow> 'v option \<Rightarrow> 'a RequestContext \<Rightarrow> 'a RequestContext outcome" where
  "ReplyJSON reason encode status val ctx = (case val of
     None \<Rightarrow> send_json status None ctx
   | Some v \<Rightarrow> (case encode v of
       None \<Rightarrow> ReplyError reason 500 ctx
     | Some text \<Rightarrow> send_json status (Some text) ctx))"

section \<open>The server\<close>

datatype api_value = ServiceStatus string | ControlAPIError string string

definition hStatus ::
  "(int \<Rightarrow> string) \<Rightarrow> (api_value \<Rightarrow> string option) \<Rightarrow> string \<Rightarrow> 'a RequestContext \<Rightarrow> 'a RequestContext outcome" where
  "hStatus reason encode buildId ctx = ReplyJSON reason encode 200 (Some (ServiceStatus buildId)) ctx"

definition ControlAPIHandler_ReplyError ::
  "(int \<Rightarrow> string) \<Rightarrow> (api_value \<Rightarrow> string option) \<Rightarrow> int \<Rightarrow> string \<Rightarrow> string \<Rightarrow> 'a RequestContext \<Rightarrow> 'a RequestContext outcome" where
  "ControlAPIHandler_ReplyError reason encode status code msg ctx =
     ReplyJSON reason encode status (Some (ControlAPIError code msg)) ctx"

definition control_operation ::
  "(int \<Rightarrow> string) \<Rightarrow> (api_value \<Rightarrow> string option) \<Rightarrow> string \<Rightarrow> 'a RequestContext \<Rightarrow> 'a RequestContext outcome" where
  "control_operation reason encode buildId ctx =
     (let req = ctx_Request ctx in
      if ReqMethod req \<noteq> ''GET'' \<and> ReqMethod req \<noteq> ''POST'' then
        ReplyError2 405 ''HTTP method not supported'' (set_header ''Allow'' ''GET, POST'' ctx)
      else
        let op = Trim (UrlPath req) ''/'' in
        if op = ''status'' then hStatus reason encode buildId ctx
        else ControlAPIHandler_ReplyError reason encode 404 ''unknown_operation'' ''unknown operation'' ctx)"

text \<open>The deferred calls are those of the HTTP server.\<close>

definition ControlAPI_ServeHTTP ::
  "world \<Rightarrow> (api_value \<Rightarrow> string option) \<Rightarrow> string \<Rightarrow> nat option \<Rightarrow> Request \<Rightarrow> writer \<Rightarrow> server_state \<Rightarrow> auth_context \<times> server_state" where
  "ControlAPI_ServeHTTP w encode buildId accessLogger req out sv =
     (case control_operation (w_reason w) encode buildId
         ((NewRequestContext (w_uni w) req out)\<lparr>ctx_AccessLogger := accessLogger\<rparr>) of
        Done ctx \<Rightarrow> OnRequestHandled w ctx sv
      | Panicked ctx \<Rightarrow> (case OnRequestHandled w ctx sv of
          (ctx, sv) \<Rightarrow> (Recover (w_reason w) (Panicked ctx), sv)))"

section \<open>The client\<close>

datatype call_detail = APIError string string | OtherError string

datatype call_error =
    CannotEncodeRequest | CannotSendRequest | CannotReadBody | RequestFailed int call_detail | CannotDecodeResponse

text \<open>What \<open>http.NewRequest\<close> makes of the operation; the request has no header of its own.\<close>

definition call_request :: "string \<Rightarrow> Request" where
  "call_request op = \<lparr>ReqMethod = ''POST'', UrlPath = ''/'' @ op, UrlRawQuery = [], UrlHost = [], UrlText = ''/'' @ op,
     ReqProto = ''HTTP/1.1'', ProtoMajor = 1, ProtoMinor = 1, ReqHeader = [], ReqHost = ''localhost'',
     RemoteAddr = ''@'', ReqTLS = False\<rparr>"

text \<open>\<open>send\<close> is the library's client: \<open>None\<close> when the request cannot be sent, otherwise the status and the
  body, if it can be read. A caller without a destination for the response gives no decoder.\<close>

definition Client_Call ::
  "('b \<Rightarrow> string option) \<Rightarrow> (string \<Rightarrow> (string \<times> string) option) \<Rightarrow> (Request \<Rightarrow> string option \<Rightarrow> (int \<times> string option) option) \<Rightarrow>
     string \<Rightarrow> 'b option \<Rightarrow> (string \<Rightarrow> 'v option) option \<Rightarrow> call_error + 'v option" where
  "Client_Call marshal unmarshal_error send op reqBody decode =
     (let body = (case reqBody of None \<Rightarrow> Some None | Some b \<Rightarrow> map_option Some (marshal b)) in
      case body of
        None \<Rightarrow> Inl CannotEncodeRequest
      | Some data \<Rightarrow> (case send (call_request op) data of
          None \<Rightarrow> Inl CannotSendRequest
        | Some (_, None) \<Rightarrow> Inl CannotReadBody
        | Some (status, Some resBody) \<Rightarrow>
            if status < 200 \<or> status > 399 then
              Inl (RequestFailed status (case unmarshal_error resBody of
                  Some (code, msg) \<Rightarrow> APIError code msg
                | None \<Rightarrow> OtherError resBody))
            else (case decode of
                None \<Rightarrow> Inr None
              | Some d \<Rightarrow> (case d resBody of None \<Rightarrow> Inl CannotDecodeResponse | Some v \<Rightarrow> Inr (Some v)))))"

section \<open>Properties\<close>

text \<open>What the server sends for a request on a connection without a limit.\<close>

definition answer :: "auth_context \<Rightarrow> (int \<times> http_header) option \<times> bytes" where
  "answer ctx = (rw_sent (ctx_Writer ctx), sent (rw_out (ctx_Writer ctx)))"

lemma send_json_sent:
  assumes "client_status ctx = None" "room (rw_out (ctx_Writer ctx)) = None" "200 \<le> status" "status \<le> 999"
  shows "\<exists>ctx'. send_json status (Some text) ctx = Done ctx' \<and>
    answer ctx' = (Some (status, SetField (rw_header (ctx_Writer ctx)) ''Content-Type'' (MediaType_String MediaTypeJSON)),
      sent (rw_out (ctx_Writer ctx)) @ bytes_of (text @ [CHR 0x0A]))"
  using assms
  by (auto simp: send_json_def answer_def client_status_def set_header_def ResponseWriter_WriteHeader_def net_WriteHeader_def
      ResponseWriter_Write_def Let_def)

lemma Reply_answer:
  assumes "client_status ctx = None" "room (rw_out (ctx_Writer ctx)) = None" "200 \<le> status" "status \<le> 999"
  shows "\<exists>ctx'. Reply status (Some text) ctx = Done ctx' \<and>
    answer ctx' = (Some (status, rw_header (ctx_Writer ctx)), sent (rw_out (ctx_Writer ctx)) @ bytes_of text)"
  using assms
  by (auto simp: Reply_def answer_def client_status_def ResponseWriter_WriteHeader_def net_WriteHeader_def
      ResponseWriter_Write_def Let_def)

lemma OnRequestHandled_answer: "answer (fst (OnRequestHandled w ctx sv)) = answer ctx"
  by (simp add: OnRequestHandled_def answer_def Let_def split: option.split)

lemma new_context [simp]:
  "client_status ((NewRequestContext uni req out)\<lparr>ctx_AccessLogger := al\<rparr>) = None"
  "rw_out (ctx_Writer (NewRequestContext uni req out)) = out" "rw_header (ctx_Writer (NewRequestContext uni req out)) = []"
  "ctx_Request (NewRequestContext uni req out) = req"
  by (simp_all add: NewRequestContext_def NewResponseWriter_def client_status_def)

text \<open>The answer of the control API to every request.\<close>

definition control_answer ::
  "(api_value \<Rightarrow> string option) \<Rightarrow> string \<Rightarrow> Request \<Rightarrow> int \<times> string" where
  "control_answer encode buildId req =
     (if ReqMethod req \<notin> {''GET'', ''POST''} then (405, ''HTTP method not supported'')
      else if Trim (UrlPath req) ''/'' = ''status'' then (200, the (encode (ServiceStatus buildId)))
      else (404, the (encode (ControlAPIError ''unknown_operation'' ''unknown operation''))))"

lemma ControlAPI_answer:
  assumes "room out = None" "\<And>v. encode v \<noteq> None"
  shows "\<exists>h. answer (fst (ControlAPI_ServeHTTP w encode buildId al req out sv)) =
    (Some (fst (control_answer encode buildId req), h),
     sent out @ bytes_of (snd (control_answer encode buildId req) @ [CHR 0x0A]))"
proof -
  let ?ctx = "(NewRequestContext (w_uni w) req out)\<lparr>ctx_AccessLogger := al\<rparr> :: auth_context"
  let ?bad = "set_header ''Content-Type'' (MediaType_String MediaTypeText) (set_header ''Allow'' ''GET, POST'' ?ctx)"
  have r: "client_status ?bad = None" "room (rw_out (ctx_Writer ?bad)) = None" "sent (rw_out (ctx_Writer ?bad)) = sent out"
    using assms(1) by (simp_all add: client_status_def set_header_def NewRequestContext_def NewResponseWriter_def)
  obtain st er where e: "encode (ServiceStatus buildId) = Some st"
      "encode (ControlAPIError ''unknown_operation'' ''unknown operation'') = Some er" using assms(2) by blast
  have "\<exists>ctx' h. control_operation (w_reason w) encode buildId ?ctx = Done ctx' \<and>
      answer ctx' = (Some (fst (control_answer encode buildId req), h),
        sent out @ bytes_of (snd (control_answer encode buildId req) @ [CHR 0x0A]))"
  proof (cases "ReqMethod req \<in> {''GET'', ''POST''}")
    case False
    then have eq: "control_operation (w_reason w) encode buildId ?ctx = Reply 405 (Some (''HTTP method not supported'' @ [CHR 0x0A])) ?bad"
      "control_answer encode buildId req = (405, ''HTTP method not supported'')"
      by (simp_all add: control_operation_def control_answer_def ReplyError2_def)
    show ?thesis unfolding eq using Reply_answer [OF r(1,2), of 405 "''HTTP method not supported'' @ [CHR 0x0A]"] r(3) by auto
  next
    case True
    define status where "status = fst (control_answer encode buildId req)"
    define msg where "msg = snd (control_answer encode buildId req)"
    have eq: "control_operation (w_reason w) encode buildId ?ctx = send_json status (Some msg) ?ctx"
      using True e by (auto simp: control_operation_def control_answer_def hStatus_def ControlAPIHandler_ReplyError_def
          ReplyJSON_def Let_def status_def msg_def)
    have "200 \<le> status" "status \<le> 999" using True by (auto simp: status_def control_answer_def)
    from send_json_sent [of ?ctx, OF _ _ this, of msg] show ?thesis unfolding eq using assms(1)
      unfolding status_def [symmetric] msg_def [symmetric] by auto
  qed
  then obtain ctx' h where "control_operation (w_reason w) encode buildId ?ctx = Done ctx'"
      "answer ctx' = (Some (fst (control_answer encode buildId req), h),
        sent out @ bytes_of (snd (control_answer encode buildId req) @ [CHR 0x0A]))" by blast
  then show ?thesis using OnRequestHandled_answer [of w ctx' sv] by (simp add: ControlAPI_ServeHTTP_def)
qed

text \<open>The client on one end of a connection and the control API on the other.\<close>

definition loopback ::
  "world \<Rightarrow> (api_value \<Rightarrow> string option) \<Rightarrow> string \<Rightarrow> nat option \<Rightarrow> server_state \<Rightarrow>
     Request \<Rightarrow> string option \<Rightarrow> (int \<times> string option) option" where
  "loopback w encode buildId al sv req body =
     (let (sending, content) = answer (fst (ControlAPI_ServeHTTP w encode buildId al req \<lparr>sent = [], room = None, werr = EOF\<rparr> sv))
      in case sending of None \<Rightarrow> None | Some (status, _) \<Rightarrow> Some (status, Some (string_of content)))"

lemma client_call_answer:
  assumes "\<And>v. encode v \<noteq> None" "decode (the (encode (ServiceStatus buildId)) @ [CHR 0x0A]) = Some (ServiceStatus buildId)"
    and "unmarshal_error (the (encode (ControlAPIError ''unknown_operation'' ''unknown operation'')) @ [CHR 0x0A]) =
      Some (''unknown_operation'', ''unknown operation'')"
  shows "Client_Call marshal unmarshal_error (loopback w encode buildId al sv) op (None :: 'b option) (Some decode) =
    (if Trim op ''/'' = ''status'' then Inr (Some (ServiceStatus buildId))
     else Inl (RequestFailed 404 (APIError ''unknown_operation'' ''unknown operation'')))"
proof -
  have "Trim (''/'' @ op) ''/'' = Trim op ''/''" by (simp add: Trim_def TrimLeft_def)
  then have "control_answer encode buildId (call_request op) =
      (if Trim op ''/'' = ''status'' then (200, the (encode (ServiceStatus buildId)))
       else (404, the (encode (ControlAPIError ''unknown_operation'' ''unknown operation''))))"
    by (simp add: control_answer_def call_request_def)
  moreover obtain h where "answer (fst (ControlAPI_ServeHTTP w encode buildId al (call_request op) \<lparr>sent = [], room = None, werr = EOF\<rparr> sv)) =
      (Some (fst (control_answer encode buildId (call_request op)), h),
       bytes_of (snd (control_answer encode buildId (call_request op)) @ [CHR 0x0A]))"
    using ControlAPI_answer [of "\<lparr>sent = [], room = None, werr = EOF\<rparr>" encode w buildId al "call_request op" sv] assms(1) by auto
  ultimately show ?thesis using assms(2,3)
    by (simp add: Client_Call_def loopback_def Let_def del: bytes_of_simps)
qed

text \<open>C21: A call of the client is what the service answers: a client that calls the operation \<open>status\<close>, with
  any slashes around it, gets the build identifier of the service, and one that calls any
  other operation gets the error that the service reports, with its code and its message, as
  long as the decoders invert the encoder on the values of the API.\<close>

theorem control_call:
  assumes "\<And>v. encode v \<noteq> None" "decode (the (encode (ServiceStatus buildId)) @ [CHR 0x0A]) = Some (ServiceStatus buildId)"
    and "unmarshal_error (the (encode (ControlAPIError ''unknown_operation'' ''unknown operation'')) @ [CHR 0x0A]) =
      Some (''unknown_operation'', ''unknown operation'')"
  shows "Client_Call marshal unmarshal_error (loopback w encode buildId al sv) op (None :: 'b option) (Some decode) =
    (if Trim op ''/'' = ''status'' then Inr (Some (ServiceStatus buildId))
     else Inl (RequestFailed 404 (APIError ''unknown_operation'' ''unknown operation'')))"
  using assms by (rule client_call_answer)

definition demo_encode :: "api_value \<Rightarrow> string option" where
  "demo_encode v = Some (case v of ServiceStatus b \<Rightarrow> CHR ''s'' # b | ControlAPIError code msg \<Rightarrow> ''e'')"

theorem control_call_witness:
  "Client_Call (\<lambda>_. None) (\<lambda>_. Some (''unknown_operation'', ''unknown operation''))
      (loopback demo_world demo_encode ''1.0'' None
        \<lparr>sv_limiters = \<lambda>_. NewRateLimiter 0 \<lparr>CfgGlobal = None, CfgPerIPv4 = [], CfgPerIPv6 = [], CfgAddresses = []\<rparr>,
         sv_loggers = \<lambda>_. demo_logger\<rparr>)
      ''status'' (None :: nat option) (Some (\<lambda>body. Some (ServiceStatus (butlast (tl body))))) =
    Inr (Some (ServiceStatus ''1.0''))"
proof -
  have "Trim ''status'' ''/'' = ''status''" by code_simp
  then show ?thesis by (subst control_call) (simp_all add: demo_encode_def)
qed

end
