(* ===== verification/Responses.thy ===== *)
theory Responses
  imports Http_Server
begin

text \<open>
  What the server needs from an action so that every request is answered. The locale
  \<open>responding\<close> states the contract between \<open>ServeHTTP\<close> (\<open>src/pkg/protocols/http/server.go\<close>)
  and the actions it runs: started on a context on which nothing has been sent, a valid action
  sends a response, or panics before it has chosen a status, so that \<open>Recover\<close> can answer.
\<close>

section \<open>The contract\<close>

definition fresh :: "'a RequestContext \<Rightarrow> bool" where
  "fresh ctx \<longleftrightarrow> client_status ctx = None \<and> rw_Status (ctx_Writer ctx) = 0"

fun responded :: "'a RequestContext outcome \<Rightarrow> bool" where
  "responded (Done ctx) \<longleftrightarrow> client_status ctx \<noteq> None"
| "responded (Panicked ctx) \<longleftrightarrow> fresh ctx \<or> client_status ctx \<noteq> None"

fun handler_actions :: "'a Handler list \<Rightarrow> nat list" where
  "handler_actions [] = []"
| "handler_actions (Handler h hs # rest) =
     (case h_Action h of None \<Rightarrow> [] | Some a \<Rightarrow> [a]) @ handler_actions hs @ handler_actions rest"

lemma fresh_cong: "ctx_Writer ctx' = ctx_Writer ctx \<Longrightarrow> fresh ctx' \<longleftrightarrow> fresh ctx"
  by (simp add: fresh_def client_status_def)

lemma fresh_headers [simp]:
  "fresh (set_header k v ctx) \<longleftrightarrow> fresh ctx" "fresh (add_header k v ctx) \<longleftrightarrow> fresh ctx" "fresh (set_var k v ctx) \<longleftrightarrow> fresh ctx"
  by (simp_all add: fresh_def client_status_def set_header_def add_header_def)

lemma fresh_status: "fresh ctx \<Longrightarrow> client_status ctx = None"
  by (simp add: fresh_def)

lemma responded_Reply: "fresh ctx \<Longrightarrow> 200 \<le> s \<Longrightarrow> s \<le> 999 \<Longrightarrow> responded (Reply s body ctx)"
  using Reply_sent [of ctx s body] by (auto simp: fresh_def)

lemma responded_ReplyError2: "fresh ctx \<Longrightarrow> 200 \<le> s \<Longrightarrow> s \<le> 999 \<Longrightarrow> responded (ReplyError2 s msg ctx)"
  using ReplyError2_sent [of ctx s msg] by (auto simp: fresh_def)

lemma responded_ReplyError: "fresh ctx \<Longrightarrow> 200 \<le> s \<Longrightarrow> s \<le> 999 \<Longrightarrow> responded (ReplyError reason s ctx)"
  by (simp add: ReplyError_def responded_ReplyError2)

lemmas responded_replies = responded_Reply responded_ReplyError2 responded_ReplyError

definition answers :: "('a RequestContext \<Rightarrow> 'a RequestContext outcome) \<Rightarrow> bool" where
  "answers f \<longleftrightarrow> (\<forall>ctx. fresh ctx \<longrightarrow> responded (f ctx))"

section \<open>The checks of the server\<close>

lemma visited_actions:
  "h \<in> set (visited hs ctx) \<Longrightarrow> h_Action h = Some a \<Longrightarrow> a \<in> set (handler_actions hs)"
  by (induction hs ctx rule: visited.induct) (auto split: if_splits)

lemma found_action:
  assumes "findHandler hs ctx = (Some h, ctx')" "h_Action h = Some a"
  shows "a \<in> set (handler_actions hs)"
proof -
  let ?vs = "filter (\<lambda>h. \<not> h_NextHandler h) (visited hs ctx)"
  have "Some h = (case rev ?vs of [] \<Rightarrow> None | h # _ \<Rightarrow> Some h)"
    using find_handler_visited [OF assms(1) [unfolded findHandler_def]] by blast
  then have "h \<in> set (rev ?vs)" by (cases "rev ?vs") simp_all
  then have "h \<in> set (visited hs ctx)" by simp
  then show ?thesis by (rule visited_actions [OF _ assms(2)])
qed

text \<open>An authentication refuses with an answer, lets the request through, or, with an incomplete
  configuration, panics before anything is sent.\<close>

fun auth_responded :: "(auth_error option \<times> 'a RequestContext) outcome \<Rightarrow> bool" where
  "auth_responded (Done (err, ctx)) \<longleftrightarrow> (if err = None then fresh ctx else client_status ctx \<noteq> None)"
| "auth_responded (Panicked (err, ctx)) \<longleftrightarrow> fresh ctx"

lemma reply_with_responds: "fresh ctx \<Longrightarrow> 200 \<le> s \<Longrightarrow> s \<le> 999 \<Longrightarrow> auth_responded (reply_with s msg err ctx)"
  using ReplyError2_sent [of ctx s msg] by (auto simp: reply_with_def fresh_def)

lemma AuthenticateRequest_responds:
  assumes "fresh ctx"
  shows "auth_responded (AuthenticateRequest hash hmac uni quote auth ctx)"
proof -
  have "fresh (setWWWAuthenticate quote scheme info ctx)" for scheme info
    using assms by (simp add: setWWWAuthenticate_def)
  moreover have "fresh (ctx\<lparr>ctx_Username := u\<rparr>)" for u using assms by (simp add: fresh_def client_status_def)
  ultimately show ?thesis using assms
    by (cases auth)
      (auto simp: BasicAuth_AuthenticateRequest_def BearerAuth_AuthenticateRequest_def Let_def
        split: sum.split option.split prod.split intro!: reply_with_responds)
qed

text \<open>The same for the result of the check in \<open>dispatch\<close>.\<close>

lemma authenticate_request_cases_fresh:
  assumes "fresh c"
  obtains (panic) b c' where "authenticate_request w c = Panicked (b, c')" "fresh c'"
    | (refused) c' where "authenticate_request w c = Done (False, c')" "client_status c' \<noteq> None"
    | (run) c' where "authenticate_request w c = Done (True, c')" "fresh c'"
proof (cases "ctx_Auth c")
  case None
  then show ?thesis using assms by (intro run) (simp_all add: authenticate_request_def)
next
  case (Some auth)
  let ?r = "AuthenticateRequest (w_hash w) (w_hmac w) (w_uni w) (w_quote w) auth c"
  note r = AuthenticateRequest_responds [OF assms, of "w_hash w" "w_hmac w" "w_uni w" "w_quote w" auth]
  show ?thesis
  proof (cases ?r)
    case (Done p)
    obtain err c' where p: "p = (err, c')" by fastforce
    show ?thesis
    proof (cases err)
      case None
      then show ?thesis using r Done p Some by (intro run [of c']) (simp_all add: authenticate_request_def)
    next
      case (Some e)
      then show ?thesis using r Done p \<open>ctx_Auth c = Some auth\<close>
        by (intro refused [of c']) (simp_all add: authenticate_request_def)
    qed
  next
    case (Panicked p)
    obtain err c' where p: "p = (err, c')" by fastforce
    then show ?thesis using r Panicked Some by (intro panic [of False c']) (simp_all add: authenticate_request_def)
  qed
qed

lemma handleTLS_responds:
  assumes "fresh ctx"
  shows "case handleTLS url p ctx of
      Done (done, ctx') \<Rightarrow> if done then client_status ctx' \<noteq> None else ctx' = ctx
    | Panicked (_, ctx') \<Rightarrow> False"
proof (cases "tls_accepted p (ctx_Request ctx)")
  case True
  then show ?thesis by (simp add: handleTLS_accepted)
next
  case False
  obtain ctx' where "handleTLS url p ctx = Done (True, ctx')" "client_status ctx' \<in> {Some 426, Some 301}"
    using handleTLS_refused [OF False fresh_status [OF assms]] by blast
  then show ?thesis by auto
qed

section \<open>The interface\<close>

locale responding =
  fixes act :: actions and valid :: "nat \<Rightarrow> bool"
  assumes responds: "\<lbrakk>valid i; fresh ctx\<rbrakk> \<Longrightarrow> responded (act i ctx)"
begin

lemma dispatch_responds:
  assumes "list_all valid (handler_actions (p_Handlers p))" "fresh ctx"
  shows "responded (fst (dispatch w act p ctx sv))"
proof -
  obtain r c where f: "findHandler (p_Handlers p) ctx = (r, c)" by fastforce
  have c: "fresh c" using fresh_cong [of c ctx] findHandler_keeps [OF f] assms(2) by blast
  obtain pass sv' where l: "limit_request w c sv = (pass, sv')" by fastforce
  have run: "responded (run_action w act h c')" if "r = Some h" "fresh c'" for h c'
  proof (cases "h_Action h")
    case None
    then show ?thesis using that by (simp add: run_action_def responded_replies)
  next
    case (Some a)
    then have "valid a" using assms(1) found_action [OF f [unfolded that(1)]] by (simp add: list_all_iff)
    then show ?thesis using Some responds [OF _ that(2)] by (simp add: run_action_def)
  qed
  show ?thesis
  proof (cases r)
    case None
    then show ?thesis using f c by (simp add: dispatch_def responded_replies)
  next
    case (Some h)
    show ?thesis
    proof (cases pass)
      case True
      show ?thesis
        by (cases rule: authenticate_request_cases_fresh [OF c, where w = w])
          (use f l Some True run [OF Some] in \<open>auto simp: dispatch_def\<close>)
    next
      case False
      then show ?thesis using f l Some c by (simp add: dispatch_def responded_replies)
    qed
  qed
qed

lemma handle_request_responds:
  assumes "list_all valid (handler_actions (p_Handlers p))" "fresh ctx"
  shows "responded (fst (handle_request w act p ctx sv))"
proof -
  obtain e1 c1 where 1: "IdentifyClient ctx = (e1, c1)" by fastforce
  obtain e2 c2 where 2: "IdentifyRequestHost c1 = (e2, c2)" by fastforce
  have c1: "fresh c1" using fresh_cong [of c1 ctx] IdentifyClient_keeps [OF 1] assms(2) by blast
  have c2: "fresh c2" using fresh_cong [of c2 c1] IdentifyRequestHost_keeps [OF 2] c1 by blast
  have "fresh (handleHSTS p c2)" using c2 by (simp add: handleHSTS_def)
  then show ?thesis
    using 1 2 c1 c2 handleTLS_responds [OF c2, of "w_https_url w" p] dispatch_responds [OF assms(1), of "handleHSTS p c2" w sv]
    by (cases e1; cases e2)
      (auto simp: handle_request_def responded_replies split: outcome.splits prod.splits bool.splits if_splits)
qed

lemma request_answered:
  assumes "list_all valid (handler_actions (p_Handlers p))"
  shows "client_status (fst (ServeHTTP w act p lg req out sv)) \<noteq> None"
proof -
  let ?ctx = "(NewRequestContext (w_uni w) req out)\<lparr>ctx_AccessLogger := lg\<rparr>"
  have "fresh ?ctx" by (simp add: fresh_def NewRequestContext_def client_status_def NewResponseWriter_def)
  then have r: "responded (fst (handle_request w act p ?ctx sv))" by (rule handle_request_responds [OF assms])
  obtain res sv1 where h: "handle_request w act p ?ctx sv = (res, sv1)" by fastforce
  have logged: "ctx_Writer (fst (OnRequestHandled w c s)) = ctx_Writer c" for c s
    by (simp add: OnRequestHandled_def Let_def split: option.split)
  have status: "client_status c' = client_status c" if "ctx_Writer c' = ctx_Writer c" for c c' :: auth_context
    using that by (simp add: client_status_def)
  show ?thesis
  proof (cases res)
    case (Done c)
    then show ?thesis using r h status [OF logged [of c sv1]] by (simp add: ServeHTTP_def)
  next
    case (Panicked c)
    obtain c2 sv2 where o: "OnRequestHandled w c sv1 = (c2, sv2)" by fastforce
    have w: "ctx_Writer c2 = ctx_Writer c" using logged [of c sv1] o by simp
    have "client_status (Recover (w_reason w) (Panicked c2)) \<noteq> None"
    proof (cases "fresh c2")
      case True
      then show ?thesis
        using ReplyError2_sent [of c2 500 "Itoa 500 @ '' '' @ w_reason w 500"]
        by (auto simp: Recover_def ReplyError_def fresh_def)
    next
      case False
      then have sent: "client_status c2 \<noteq> None" using r h Panicked w status [OF w] by (simp add: fresh_cong [OF w])
      have "client_status c3 \<noteq> None" if "ReplyError (w_reason w) 500 c2 = Done c3 \<or> ReplyError (w_reason w) 500 c2 = Panicked c3" for c3
        using that sent
        by (auto simp: ReplyError_def ReplyError2_def Reply_def client_status_def set_header_def ResponseWriter_WriteHeader_def
            net_WriteHeader_def ResponseWriter_Write_def Let_def split: option.splits outcome.splits prod.splits if_splits)
      then show ?thesis using sent by (auto simp: Recover_def split: outcome.split)
    qed
    then show ?thesis using h Panicked o by (simp add: ServeHTTP_def)
  qed
qed

end

end
