(* ===== verification/Action_Configuration.thy ===== *)
theory Action_Configuration
  imports Service_Configuration Responses Fastcgi_Action Reverse_Proxy "HOL-Library.Monad_Syntax"
begin

text \<open>
  The blocks of handlers and of their actions: the methods \<open>ReadBCLElement\<close> of the files
  \<open>action_*.go\<close>, \<open>auth.go\<close>, \<open>access_logger.go\<close>, \<open>handler.go\<close> and \<open>protocol.go\<close> in
  \<open>src/pkg/protocols/http\<close> and of \<open>protocol.go\<close> in \<open>src/pkg/protocols/tcp\<close>, and what \<open>StartHandler\<close>
  makes of them. As in \<open>Service_Configuration\<close>, \<open>None\<close> is a file that is refused. The last section
  composes the file, the tree of handlers, the checks of the server and the actions.
\<close>

section \<open>Elements\<close>

text \<open>An element is an entry or a block; \<open>MaybeElement\<close> takes the one that has the name.\<close>

datatype bcl_found = FoundEntry bcl_entry | FoundBlock bcl_block

definition find_element :: "bcl_block \<Rightarrow> string \<Rightarrow> bcl_found option" where
  "find_element b name = (case el_FindEntry (bl_Element b) name of
     Some e \<Rightarrow> Some (FoundEntry e)
   | None \<Rightarrow> map_option FoundBlock (bl_Find b name))"

text \<open>What the readers get from libraries: the variables of the environment for format strings, the
  validation of positive integers and the reading of durations by BCL, the scheme of a URL, the
  mapping of letters, and what \<open>Values\<close> stores when it is also given the string \<open>hmac\<close>.\<close>

record file_world =
  fw_env :: "string \<rightharpoonup> string"
  fw_positive :: "int \<Rightarrow> bool"
  fw_duration :: "bcl_entry \<Rightarrow> nat \<Rightarrow> int option"
  fw_scheme :: "string \<Rightarrow> string option"
  fw_uni :: "string \<Rightarrow> string"
  fw_hmac :: "bcl_entry \<Rightarrow> (HashAlgorithm \<times> bytes) option"

text \<open>\<open>Values\<close> with one and with two destinations; \<open>MaybeEntryValues\<close> and \<open>EntryValues\<close>.\<close>

definition entry_value :: "(bcl_entry \<Rightarrow> nat \<Rightarrow> 'v option) \<Rightarrow> bcl_entry \<Rightarrow> 'v option" where
  "entry_value get e = (if en_CheckNb e 1 then get e 0 else None)"

definition entry_pair ::
  "(bcl_entry \<Rightarrow> nat \<Rightarrow> 'v option) \<Rightarrow> (bcl_entry \<Rightarrow> nat \<Rightarrow> 'u option) \<Rightarrow> bcl_entry \<Rightarrow> ('v \<times> 'u) option" where
  "entry_pair get1 get2 e =
     (if en_CheckNb e 2 then do { v \<leftarrow> get1 e 0; u \<leftarrow> get2 e 1; Some (v, u) } else None)"

definition maybe_entry :: "'v \<Rightarrow> (bcl_entry \<Rightarrow> 'v option) \<Rightarrow> bcl_block \<Rightarrow> string \<Rightarrow> 'v option" where
  "maybe_entry d get b name = (case el_FindEntry (bl_Element b) name of None \<Rightarrow> Some d | Some e \<Rightarrow> get e)"

definition the_entry :: "(bcl_entry \<Rightarrow> 'v option) \<Rightarrow> bcl_block \<Rightarrow> string \<Rightarrow> 'v option" where
  "the_entry get b name = Option.bind (el_FindEntry (bl_Element b) name) get"

definition maybe_block :: "(bcl_block \<Rightarrow> 'v option) \<Rightarrow> bcl_block \<Rightarrow> string \<Rightarrow> 'v option option" where
  "maybe_block get b name = (case bl_Find b name of None \<Rightarrow> Some None | Some x \<Rightarrow> map_option Some (get x))"

definition maybe_element :: "(bcl_found \<Rightarrow> 'v option) \<Rightarrow> bcl_block \<Rightarrow> string \<Rightarrow> 'v option option" where
  "maybe_element get b name = (case find_element b name of None \<Rightarrow> Some None | Some x \<Rightarrow> map_option Some (get x))"

text \<open>Values of the types of the program.\<close>

definition valid_value :: "('v \<Rightarrow> bool) \<Rightarrow> (bcl_entry \<Rightarrow> nat \<Rightarrow> 'v option) \<Rightarrow> bcl_entry \<Rightarrow> nat \<Rightarrow> 'v option" where
  "valid_value ok get e i = Option.bind (get e i) (\<lambda>v. if ok v then Some v else None)"

definition read_format :: "file_world \<Rightarrow> bcl_entry \<Rightarrow> nat \<Rightarrow> FormatString option" where
  "read_format fw e i = right_value (FormatString_ReadBCLValue (fw_env fw) (text_value e i))"

definition ValidateBCLHTTPURI :: "file_world \<Rightarrow> string \<Rightarrow> bool" where
  "ValidateBCLHTTPURI fw s \<longleftrightarrow> (case fw_scheme fw s of
     None \<Rightarrow> False
   | Some scheme \<Rightarrow> ToLower (fw_uni fw) scheme \<in> {''http'', ''https''})"

abbreviation read_status :: "bcl_entry \<Rightarrow> nat \<Rightarrow> int option" where
  "read_status \<equiv> valid_value ValidateBCLStatus en_Int"

section \<open>Actions\<close>

definition header_entries :: "file_world \<Rightarrow> bcl_block \<Rightarrow> string \<Rightarrow> (string \<times> FormatString) list option" where
  "header_entries fw b name = all_read (map (entry_pair text_value (read_format fw)) (el_FindEntries (bl_Element b) name))"

definition header_block :: "file_world \<Rightarrow> bcl_block \<Rightarrow> string \<Rightarrow> HeaderOp list option" where
  "header_block fw b name = (case bl_Find b name of
     None \<Rightarrow> Some []
   | Some h \<Rightarrow> do {
       sets \<leftarrow> header_entries fw h ''set'';
       adds \<leftarrow> header_entries fw h ''add'';
       removes \<leftarrow> header_entries fw h ''remove'';
       Some (HeaderOps_ReadBCLElement
         (\<lambda>kind. if kind = ''set'' then sets else if kind = ''add'' then adds else removes)) })"

text \<open>The status alone, or the status and the body; the second reading of the two values finds what
  the first has found.\<close>

definition ReplyActionCfg_ReadBCLElement :: "file_world \<Rightarrow> bcl_found \<Rightarrow> ReplyActionCfg option" where
  "ReplyActionCfg_ReadBCLElement fw elt = (case elt of
     FoundBlock b \<Rightarrow> do {
       status \<leftarrow> maybe_entry 200 (entry_value read_status) b ''status'';
       header \<leftarrow> header_block fw b ''header'';
       body \<leftarrow> maybe_entry None (map_option Some \<circ> entry_value (read_format fw)) b ''body'';
       Some \<lparr>ra_Status = status, ra_Header = header, ra_Body = body\<rparr> }
   | FoundEntry e \<Rightarrow>
       if en_NbValues e = 1 then
         map_option (\<lambda>status. \<lparr>ra_Status = status, ra_Header = [], ra_Body = None\<rparr>) (entry_value read_status e)
       else if en_NbValues e = 2 then
         map_option (\<lambda>(status, body). \<lparr>ra_Status = status, ra_Header = [], ra_Body = Some body\<rparr>)
           (entry_pair read_status (read_format fw) e)
       else None)"

definition RedirectActionCfg_ReadBCLElement :: "file_world \<Rightarrow> bcl_found \<Rightarrow> RedirectActionCfg option" where
  "RedirectActionCfg_ReadBCLElement fw elt = (case elt of
     FoundBlock b \<Rightarrow> do {
       status \<leftarrow> maybe_entry 302 (entry_value read_status) b ''status'';
       uri \<leftarrow> the_entry (entry_value (read_format fw)) b ''uri'';
       header \<leftarrow> header_block fw b ''header'';
       body \<leftarrow> maybe_entry None (map_option Some \<circ> entry_value (read_format fw)) b ''body'';
       Some \<lparr>rd_Status = status, rd_URI = uri, rd_Header = header, rd_Body = body\<rparr> }
   | FoundEntry e \<Rightarrow>
       map_option (\<lambda>(status, uri). \<lparr>rd_Status = status, rd_URI = uri, rd_Header = [], rd_Body = None\<rparr>)
         (entry_pair read_status (read_format fw) e))"

text \<open>Whether there is a view, and its limit, which no other code reads.\<close>

definition ServeActionIndexViewCfg_ReadBCLElement :: "bcl_found \<Rightarrow> (bool \<times> int) option" where
  "ServeActionIndexViewCfg_ReadBCLElement elt = (case elt of
     FoundBlock b \<Rightarrow> map_option (\<lambda>maxFiles. (True, maxFiles)) (maybe_entry 1000 (entry_value en_Int) b ''max_files'')
   | FoundEntry e \<Rightarrow> map_option (\<lambda>enabled. (enabled, 0)) (entry_value en_Bool e))"

definition ServeActionFileNotFoundCfg_ReadBCLElement :: "file_world \<Rightarrow> bcl_block \<Rightarrow> ReplyActionCfg option option" where
  "ServeActionFileNotFoundCfg_ReadBCLElement fw b = maybe_element (ReplyActionCfg_ReadBCLElement fw) b ''reply''"

definition ServeActionCfg_ReadBCLElement :: "file_world \<Rightarrow> bcl_found \<Rightarrow> ServeActionCfg option" where
  "ServeActionCfg_ReadBCLElement fw elt = (case elt of
     FoundBlock b \<Rightarrow>
       if el_FindEntries (bl_Element b) ''index_file'' \<noteq> [] \<and> el_FindEntry (bl_Element b) ''index_redirect'' \<noteq> None
       then None
       else do {
         path \<leftarrow> the_entry (entry_value (read_format fw)) b ''path'';
         indexFiles \<leftarrow> all_read (map (entry_value text_value) (el_FindEntries (bl_Element b) ''index_file''));
         indexRedirect \<leftarrow> maybe_entry None (map_option Some \<circ> entry_pair read_status (read_format fw)) b ''index_redirect'';
         view \<leftarrow> maybe_element ServeActionIndexViewCfg_ReadBCLElement b ''index_view'';
         notFound \<leftarrow> maybe_block (ServeActionFileNotFoundCfg_ReadBCLElement fw) b ''file_not_found'';
         Some \<lparr>sa_Path = path, sa_IndexFiles = indexFiles, sa_IndexRedirect = indexRedirect,
           sa_IndexView = (case view of None \<Rightarrow> False | Some (enabled, _) \<Rightarrow> enabled),
           sa_FileNotFound = (case notFound of None \<Rightarrow> None | Some r \<Rightarrow> r)\<rparr> }
   | FoundEntry e \<Rightarrow>
       map_option (\<lambda>path. \<lparr>sa_Path = path, sa_IndexFiles = [], sa_IndexRedirect = None, sa_IndexView = False,
         sa_FileNotFound = None\<rparr>) (entry_value (read_format fw) e))"

text \<open>Exactly one of a URI and a load balancer.\<close>

definition ReverseProxyActionCfg_ReadBCLElement :: "file_world \<Rightarrow> bcl_found \<Rightarrow> ReverseProxyActionCfg option" where
  "ReverseProxyActionCfg_ReadBCLElement fw elt = (case elt of
     FoundBlock b \<Rightarrow>
       if has_element b ''uri'' \<longleftrightarrow> has_element b ''load_balancer'' then None
       else do {
         uri \<leftarrow> maybe_entry [] (entry_value (valid_value (ValidateBCLHTTPURI fw) text_value)) b ''uri'';
         name \<leftarrow> maybe_entry [] (entry_value text_value) b ''load_balancer'';
         requestHeader \<leftarrow> header_block fw b ''request_header'';
         responseHeader \<leftarrow> header_block fw b ''response_header'';
         Some \<lparr>rp_URI = uri, rp_LoadBalancerName = name, rp_RequestHeader = requestHeader,
           rp_ResponseHeader = responseHeader\<rparr> }
   | FoundEntry e \<Rightarrow>
       map_option (\<lambda>uri. \<lparr>rp_URI = uri, rp_LoadBalancerName = [], rp_RequestHeader = [], rp_ResponseHeader = []\<rparr>)
         (entry_value (valid_value (ValidateBCLHTTPURI fw) text_value) e))"

text \<open>The address of the application and the rest of the block. A later parameter replaces an earlier
  one of the same name.\<close>

definition read_size :: "file_world \<Rightarrow> bcl_block \<Rightarrow> string \<Rightarrow> int option option" where
  "read_size fw = maybe_entry None (map_option Some \<circ> entry_value (valid_value (fw_positive fw) en_Int))"

definition FastCGIActionCfg_ReadBCLElement :: "file_world \<Rightarrow> bcl_block \<Rightarrow> (string \<times> FastCGIActionCfg) option" where
  "FastCGIActionCfg_ReadBCLElement fw b = do {
     address \<leftarrow> the_entry (entry_value (valid_value (\<lambda>a. ValidateBCLAddress a = None) text_value)) b ''address'';
     parameters \<leftarrow> all_read (map (entry_pair text_value text_value) (el_FindEntries (bl_Element b) ''parameter''));
     path \<leftarrow> maybe_entry [] (entry_value text_value) b ''path'';
     defaultScript \<leftarrow> maybe_entry [] (entry_value text_value) b ''default_script'';
     scriptRegexp \<leftarrow> maybe_entry [] (entry_value text_value) b ''script_regexp'';
     directory \<leftarrow> maybe_entry [] (entry_value text_value) b ''temporary_directory'';
     requestMemory \<leftarrow> read_size fw b ''request_body_memory_buffer_size'';
     maxRequest \<leftarrow> read_size fw b ''max_request_body_size'';
     responseMemory \<leftarrow> read_size fw b ''response_body_memory_buffer_size'';
     maxResponse \<leftarrow> read_size fw b ''max_response_body_size'';
     timeout \<leftarrow> maybe_entry None (map_option Some \<circ> entry_value (fw_duration fw)) b ''request_timeout'';
     Some (address, \<lparr>fc_Parameters = fold (\<lambda>(k, v). put_limit k v) parameters [], fc_Path = path,
       fc_DefaultScript = defaultScript, fc_ScriptRegexp = scriptRegexp, fc_TemporaryDirectory = directory,
       fc_RequestBodyMemoryBufferSize = requestMemory, fc_MaxRequestBodySize = maxRequest,
       fc_ResponseBodyMemoryBufferSize = responseMemory, fc_MaxResponseBodySize = maxResponse,
       fc_RequestTimeout = timeout\<rparr>) }"

section \<open>Authentication and access logs\<close>

definition HashAlgorithm_ReadBCLValue :: "bcl_entry \<Rightarrow> nat \<Rightarrow> HashAlgorithm option" where
  "HashAlgorithm_ReadBCLValue e i = Option.bind (text_value e i)
     (map_of [(''SHA-256'', HashAlgorithmSHA256), (''SHA-512'', HashAlgorithmSHA512),
        (''SHA3-256'', HashAlgorithmSHA3256), (''SHA3-512'', HashAlgorithmSHA3512)])"

definition SecretsCfg_ReadBCLElement :: "file_world \<Rightarrow> bcl_block \<Rightarrow> SecretsCfg option" where
  "SecretsCfg_ReadBCLElement fw b =
     (if has_element b ''hash'' \<longleftrightarrow> has_element b ''hmac'' then None
      else do {
        hash \<leftarrow> maybe_entry None (map_option Some \<circ> entry_value HashAlgorithm_ReadBCLValue) b ''hash'';
        hmac \<leftarrow> maybe_entry None (map_option Some \<circ> fw_hmac fw) b ''hmac'';
        Some \<lparr>SecretsHash = hash, SecretsHMAC = hmac\<rparr> })"

definition AuthCfg_ReadBCLElement :: "file_world \<Rightarrow> bcl_block \<Rightarrow> AuthCfg option" where
  "AuthCfg_ReadBCLElement fw b =
     (if bl_Find b ''basic'' \<noteq> None \<longleftrightarrow> bl_Find b ''bearer'' \<noteq> None then None
      else do {
        secrets \<leftarrow> maybe_block (SecretsCfg_ReadBCLElement fw) b ''secrets'';
        realm \<leftarrow> maybe_entry [] (entry_value text_value) b ''realm'';
        Some \<lparr>CfgSecrets = secrets, CfgRealm = realm,
          CfgBasic = map_option (BasicAuthCfg_ReadBCLElement \<circ> bl_Element) (bl_Find b ''basic''),
          CfgBearer = map_option (BearerAuthCfg_ReadBCLElement \<circ> bl_Element) (bl_Find b ''bearer'')\<rparr> })"

definition AccessLoggerCfg_ReadBCLElement :: "file_world \<Rightarrow> bcl_block \<Rightarrow> AccessLoggerCfg option" where
  "AccessLoggerCfg_ReadBCLElement fw b = do {
     path \<leftarrow> the_entry (entry_value (read_format fw)) b ''path'';
     format \<leftarrow> the_entry (entry_value (read_format fw)) b ''format'';
     Some \<lparr>AlPath = path, AlFormat = format\<rparr> }"

section \<open>Handlers\<close>

datatype ActionCfg =
    ReplyCfg ReplyActionCfg
  | RedirectCfg RedirectActionCfg
  | ServeCfg ServeActionCfg
  | ProxyCfg ReverseProxyActionCfg
  | StatusCfg
  | FastCGICfg string FastCGIActionCfg

datatype HandlerFileCfg =
  HandlerFileCfg (hf_Match: MatchCfg) (hf_AccessLogger: "AccessLoggerCfg option") (hf_Auth: "AuthCfg option")
    (hf_RateLimiter: "RateLimiterCfg option") (hf_Action: ActionCfg) (hf_NextHandler: bool)
    (hf_Handlers: "HandlerFileCfg list")

text \<open>The actions of a block, at most one of them, and the choice of \<open>StartHandler\<close>: an empty reply
  when there is none. An application is always a block.\<close>

definition default_reply :: ReplyActionCfg where
  "default_reply = \<lparr>ra_Status = 200, ra_Header = [], ra_Body = None\<rparr>"

definition read_fastcgi :: "file_world \<Rightarrow> bcl_found \<Rightarrow> (string \<times> FastCGIActionCfg) option" where
  "read_fastcgi fw elt = (case elt of FoundEntry _ \<Rightarrow> None | FoundBlock b \<Rightarrow> FastCGIActionCfg_ReadBCLElement fw b)"

definition at_most_one :: "bcl_block \<Rightarrow> string list \<Rightarrow> bool" where
  "at_most_one b names \<longleftrightarrow> length (filter (has_element b) names) \<le> 1"

definition choose_action ::
  "ReplyActionCfg option \<Rightarrow> RedirectActionCfg option \<Rightarrow> ServeActionCfg option \<Rightarrow> ReverseProxyActionCfg option \<Rightarrow> bool \<Rightarrow>
     (string \<times> FastCGIActionCfg) option \<Rightarrow> ActionCfg" where
  "choose_action reply redir serve proxy status fastcgi = (case reply of
     Some cfg \<Rightarrow> ReplyCfg cfg
   | None \<Rightarrow> (case redir of
       Some cfg \<Rightarrow> RedirectCfg cfg
     | None \<Rightarrow> (case serve of
         Some cfg \<Rightarrow> ServeCfg cfg
       | None \<Rightarrow> (case proxy of
           Some cfg \<Rightarrow> ProxyCfg cfg
         | None \<Rightarrow>
             if status then StatusCfg
             else (case fastcgi of
                 Some (address, cfg) \<Rightarrow> FastCGICfg address cfg
               | None \<Rightarrow> ReplyCfg default_reply)))))"

definition read_action :: "file_world \<Rightarrow> bcl_block \<Rightarrow> ActionCfg option" where
  "read_action fw b =
     (if \<not> at_most_one b [''reply'', ''redirect'', ''serve'', ''reverse_proxy'', ''status'', ''fastcgi''] then None
      else do {
        reply \<leftarrow> maybe_element (ReplyActionCfg_ReadBCLElement fw) b ''reply'';
        redir \<leftarrow> maybe_element (RedirectActionCfg_ReadBCLElement fw) b ''redirect'';
        serve \<leftarrow> maybe_element (ServeActionCfg_ReadBCLElement fw) b ''serve'';
        proxy \<leftarrow> maybe_element (ReverseProxyActionCfg_ReadBCLElement fw) b ''reverse_proxy'';
        fastcgi \<leftarrow> maybe_element (read_fastcgi fw) b ''fastcgi'';
        Some (choose_action reply redir serve proxy (has_element b ''status'') fastcgi) })"

definition read_limits :: "bcl_found \<Rightarrow> RateLimiterCfg option" where
  "read_limits elt = Some (RateLimiterCfg_ReadBCLElement (case elt of
     FoundEntry _ \<Rightarrow> \<lparr>el_IsBlock = False, el_FindEntry = \<lambda>_. None, el_FindEntries = \<lambda>_. []\<rparr>
   | FoundBlock b \<Rightarrow> (bl_Element b)\<lparr>el_IsBlock := True\<rparr>))"

primrec HandlerCfg_ReadBCLElement :: "bcl_block \<Rightarrow> file_world \<Rightarrow> HandlerFileCfg option" where
  "HandlerCfg_ReadBCLElement (Block name elt found foundAll) = (\<lambda>fw.
     let b = Block name elt found foundAll in
     do {
       logger \<leftarrow> maybe_block (AccessLoggerCfg_ReadBCLElement fw) b ''access_logs'';
       auth \<leftarrow> maybe_block (AuthCfg_ReadBCLElement fw) b ''authentication'';
       limits \<leftarrow> maybe_element read_limits b ''request_rate_limits'';
       action \<leftarrow> read_action fw b;
       nested \<leftarrow> all_read (map (\<lambda>r. r fw) ((map HandlerCfg_ReadBCLElement \<circ> foundAll) ''handler''));
       Some (HandlerFileCfg (read_matches elt) logger auth limits action
         (el_FindEntry elt ''next_handler'' \<noteq> None) nested) })"

text \<open>What \<open>StartHandler\<close> builds, when it succeeds (the resources it takes are in \<open>Lifecycle\<close>). The
  handlers have numbers, in the order in which they start, that refer to their access logs,
  their limiters and their actions.\<close>

fun start_tree ::
  "(string \<Rightarrow> string) \<Rightarrow> (string \<Rightarrow> io_error + string) \<Rightarrow> nat \<Rightarrow> HandlerFileCfg list \<Rightarrow> (Auth Handler list \<times> nat) option" where
  "start_tree trim files n [] = Some ([], n)"
| "start_tree trim files n (HandlerFileCfg spec logger auth limits action next_handler nested # rest) = do {
     auth' \<leftarrow> (case auth of
         None \<Rightarrow> Some None
       | Some cfg \<Rightarrow> (case NewAuth trim files cfg of Some (Inr a) \<Rightarrow> Some (Some a) | _ \<Rightarrow> None));
     (hs, m) \<leftarrow> start_tree trim files (Suc n) nested;
     (hs', k) \<leftarrow> start_tree trim files m rest;
     Some (Handler \<lparr>h_Match = spec, h_AccessLogger = map_option (\<lambda>_. n) logger, h_Auth = auth',
         h_RateLimiter = map_option (\<lambda>cfg. (n, RateLimiterCfg_IsEmpty cfg)) limits,
         h_NextHandler = next_handler, h_Action = Some n\<rparr> hs # hs', k) }"

fun tree_actions :: "HandlerFileCfg list \<Rightarrow> (MatchCfg \<times> ActionCfg) list" where
  "tree_actions [] = []"
| "tree_actions (HandlerFileCfg spec logger auth limits action next_handler nested # rest) =
     (spec, action) # tree_actions nested @ tree_actions rest"

text \<open>The actions of the handlers by their numbers. \<open>others\<close> are those that keep connections or
  describe the server.\<close>

definition site_actions ::
  "Auth action_world \<Rightarrow> actions \<Rightarrow> (MatchCfg \<times> ActionCfg) list \<Rightarrow> actions" where
  "site_actions aw others acts i ctx = (case acts ! i of
     (_, ReplyCfg cfg) \<Rightarrow> ReplyAction_HandleRequest cfg ctx
   | (_, RedirectCfg cfg) \<Rightarrow> RedirectAction_HandleRequest aw cfg ctx
   | (spec, ServeCfg cfg) \<Rightarrow> ServeAction_HandleRequest aw (HasPaths spec) cfg ctx
   | _ \<Rightarrow> others i ctx)"

section \<open>Protocols\<close>

record HttpProtocolCfg =
  hp_Handlers :: "HandlerFileCfg list"
  hp_AccessLogger :: "AccessLoggerCfg option"
  hp_TLSHandling :: TLSHandling
  hp_HSTS :: bool
  hp_DebugLogVariables :: bool
  hp_LogGoServerErrors :: bool
  hp_UnencryptedHTTP2 :: bool

definition TLSHandling_Read :: "bcl_entry \<Rightarrow> TLSHandling option" where
  "TLSHandling_Read e =
     (if en_OneOf e 0 [''accept'', ''reject'', ''require'', ''redirect''] then Option.bind (entry_value text_value e)
        (map_of [(''accept'', TLSHandlingAccept), (''reject'', TLSHandlingReject), (''require'', TLSHandlingRequire),
           (''redirect'', TLSHandlingRedirect)])
      else None)"

definition HttpProtocolCfg_ReadBCLElement :: "file_world \<Rightarrow> bcl_block \<Rightarrow> HttpProtocolCfg option" where
  "HttpProtocolCfg_ReadBCLElement fw b = do {
     handlers \<leftarrow> all_read (map (\<lambda>h. HandlerCfg_ReadBCLElement h fw) (bl_FindAll b ''handler''));
     logger \<leftarrow> maybe_block (AccessLoggerCfg_ReadBCLElement fw) b ''access_logs'';
     tls \<leftarrow> maybe_entry TLSHandlingAccept TLSHandling_Read b ''tls'';
     hsts \<leftarrow> maybe_entry False (entry_value en_Bool) b ''hsts'';
     variables \<leftarrow> maybe_entry False (entry_value en_Bool) b ''debug_log_variables'';
     goErrors \<leftarrow> maybe_entry False (entry_value en_Bool) b ''log_go_server_errors'';
     http2 \<leftarrow> maybe_entry False (entry_value en_Bool) b ''unencrypted_http2'';
     Some \<lparr>hp_Handlers = handlers, hp_AccessLogger = logger, hp_TLSHandling = tls, hp_HSTS = hsts,
       hp_DebugLogVariables = variables, hp_LogGoServerErrors = goErrors, hp_UnencryptedHTTP2 = http2\<rparr> }"

record TcpProtocolCfg =
  tp_ReadBufferSize :: int
  tp_WriteBufferSize :: int
  tp_Address :: string
  tp_LogTLSErrors :: bool

abbreviation read_address :: "bcl_entry \<Rightarrow> string option" where
  "read_address \<equiv> entry_value (valid_value (\<lambda>a. ValidateBCLAddress a = None) text_value)"

definition TcpReverseProxy_ReadBCLElement :: "bcl_found \<Rightarrow> string option" where
  "TcpReverseProxy_ReadBCLElement elt = (case elt of
     FoundBlock b \<Rightarrow> the_entry read_address b ''address''
   | FoundEntry e \<Rightarrow> read_address e)"

definition TcpProtocolCfg_ReadBCLElement :: "file_world \<Rightarrow> bcl_block \<Rightarrow> TcpProtocolCfg option" where
  "TcpProtocolCfg_ReadBCLElement fw b = do {
     readSize \<leftarrow> maybe_entry 16384 (entry_value (valid_value (fw_positive fw) en_Int)) b ''read_buffer_size'';
     writeSize \<leftarrow> maybe_entry 16384 (entry_value (valid_value (fw_positive fw) en_Int)) b ''write_buffer_size'';
     address \<leftarrow> Option.bind (find_element b ''reverse_proxy'') TcpReverseProxy_ReadBCLElement;
     logErrors \<leftarrow> maybe_entry False (entry_value en_Bool) b ''log_tls_errors'';
     Some \<lparr>tp_ReadBufferSize = readSize, tp_WriteBufferSize = writeSize, tp_Address = address,
       tp_LogTLSErrors = logErrors\<rparr> }"

section \<open>What an accepted file guarantees\<close>

definition status_ok :: "int \<Rightarrow> bool" where
  "status_ok s \<longleftrightarrow> s = 0 \<or> 200 \<le> s \<and> s \<le> 999"

fun valid_action :: "ActionCfg \<Rightarrow> bool" where
  "valid_action (ReplyCfg cfg) \<longleftrightarrow> status_ok (ra_Status cfg)"
| "valid_action (RedirectCfg cfg) \<longleftrightarrow> status_ok (rd_Status cfg)"
| "valid_action (ServeCfg cfg) \<longleftrightarrow>
     (\<forall>s uri. sa_IndexRedirect cfg = Some (s, uri) \<longrightarrow> status_ok s) \<and>
     (\<forall>reply. sa_FileNotFound cfg = Some reply \<longrightarrow> status_ok (ra_Status reply))"
| "valid_action _ \<longleftrightarrow> True"

lemma read_status_ok: "read_status e i = Some s \<Longrightarrow> status_ok s"
  by (auto simp: valid_value_def ValidateBCLStatus_def status_ok_def bind_eq_Some_conv split: if_splits)

lemma entry_status_ok:
  "entry_value read_status e = Some s \<Longrightarrow> status_ok s" "entry_pair read_status get e = Some (s, v) \<Longrightarrow> status_ok s"
  by (auto simp: entry_value_def entry_pair_def bind_eq_Some_conv intro: read_status_ok split: if_splits)

lemma maybe_status_ok: "maybe_entry d (entry_value read_status) b name = Some s \<Longrightarrow> status_ok d \<Longrightarrow> status_ok s"
  by (auto simp: maybe_entry_def intro: entry_status_ok split: option.splits)

lemma reply_valid: "ReplyActionCfg_ReadBCLElement fw elt = Some cfg \<Longrightarrow> status_ok (ra_Status cfg)"
  by (auto simp: ReplyActionCfg_ReadBCLElement_def bind_eq_Some_conv
      dest!: maybe_status_ok intro: entry_status_ok split: bcl_found.splits if_splits) (simp_all add: status_ok_def)

lemma redirect_valid: "RedirectActionCfg_ReadBCLElement fw elt = Some cfg \<Longrightarrow> status_ok (rd_Status cfg)"
  by (auto simp: RedirectActionCfg_ReadBCLElement_def bind_eq_Some_conv
      dest!: maybe_status_ok intro: entry_status_ok split: bcl_found.splits if_splits) (simp_all add: status_ok_def)

lemma maybe_elementD: "maybe_element get b name = Some (Some v) \<Longrightarrow> \<exists>elt. get elt = Some v"
  by (auto simp: maybe_element_def split: option.splits)

lemma not_found_valid:
  "maybe_block (ServeActionFileNotFoundCfg_ReadBCLElement fw) b name = Some (Some (Some reply)) \<Longrightarrow> status_ok (ra_Status reply)"
  by (auto simp: maybe_block_def ServeActionFileNotFoundCfg_ReadBCLElement_def
      dest!: maybe_elementD intro: reply_valid split: option.splits)

lemma index_redirect_valid:
  "maybe_entry None (map_option Some \<circ> entry_pair read_status get) b name = Some (Some (s, uri)) \<Longrightarrow> status_ok s"
  by (auto simp: maybe_entry_def intro: entry_status_ok split: option.splits)

lemma serve_valid:
  assumes "ServeActionCfg_ReadBCLElement fw elt = Some cfg"
  shows "valid_action (ServeCfg cfg)"
proof (cases elt)
  case (FoundEntry e)
  then show ?thesis using assms by (auto simp: ServeActionCfg_ReadBCLElement_def)
next
  case (FoundBlock b)
  obtain notFound where
      "maybe_entry None (map_option Some \<circ> entry_pair read_status (read_format fw)) b ''index_redirect'' = Some (sa_IndexRedirect cfg)"
      "maybe_block (ServeActionFileNotFoundCfg_ReadBCLElement fw) b ''file_not_found'' = Some notFound"
      "sa_FileNotFound cfg = (case notFound of None \<Rightarrow> None | Some r \<Rightarrow> r)"
    using assms unfolding ServeActionCfg_ReadBCLElement_def FoundBlock bcl_found.case
    by (cases "el_FindEntries (bl_Element b) ''index_file'' \<noteq> [] \<and> el_FindEntry (bl_Element b) ''index_redirect'' \<noteq> None")
      (auto simp: bind_eq_Some_conv)
  then show ?thesis by (cases notFound) (auto dest: index_redirect_valid not_found_valid)
qed

lemma choose_action_valid:
  assumes "\<And>c. reply = Some c \<Longrightarrow> status_ok (ra_Status c)" "\<And>c. redir = Some c \<Longrightarrow> status_ok (rd_Status c)"
    "\<And>c. serve = Some c \<Longrightarrow> valid_action (ServeCfg c)"
  shows "valid_action (choose_action reply redir serve proxy status fastcgi)"
  using assms unfolding choose_action_def
  by (cases reply; cases redir; cases serve) (simp_all add: default_reply_def status_ok_def split: option.split)

lemma read_action_valid:
  assumes "read_action fw b = Some a"
  shows "valid_action a"
proof -
  obtain reply redir serve proxy fastcgi where
      r: "maybe_element (ReplyActionCfg_ReadBCLElement fw) b ''reply'' = Some reply"
        "maybe_element (RedirectActionCfg_ReadBCLElement fw) b ''redirect'' = Some redir"
        "maybe_element (ServeActionCfg_ReadBCLElement fw) b ''serve'' = Some serve"
    and a: "a = choose_action reply redir serve proxy (has_element b ''status'') fastcgi"
    using assms unfolding read_action_def by (auto simp: bind_eq_Some_conv split: if_splits)
  show ?thesis unfolding a
  proof (rule choose_action_valid)
    show "status_ok (ra_Status c)" if "reply = Some c" for c using maybe_elementD [OF r(1) [unfolded that]] reply_valid by blast
    show "status_ok (rd_Status c)" if "redir = Some c" for c using maybe_elementD [OF r(2) [unfolded that]] redirect_valid by blast
    show "valid_action (ServeCfg c)" if "serve = Some c" for c using maybe_elementD [OF r(3) [unfolded that]] serve_valid by blast
  qed
qed

lemma tree_actions_append: "tree_actions (xs @ ys) = tree_actions xs @ tree_actions ys"
proof (induction xs)
  case (Cons x xs)
  then show ?case by (cases x) simp
qed simp

lemma all_tree_actions: "set (tree_actions cfgs) = (\<Union>c \<in> set cfgs. set (tree_actions [c]))"
proof (induction cfgs)
  case (Cons c cfgs)
  then show ?case using tree_actions_append [of "[c]" cfgs] by simp
qed simp

lemma tree_actionsD: "x \<in> set (tree_actions cfgs) \<Longrightarrow> \<exists>c \<in> set cfgs. x \<in> set (tree_actions [c])"
  by (subst (asm) all_tree_actions) simp

lemma handler_valid: "HandlerCfg_ReadBCLElement b fw = Some cfg \<Longrightarrow> (spec, a) \<in> set (tree_actions [cfg]) \<Longrightarrow> valid_action a"
proof (induction b arbitrary: cfg spec a)
  case (Block name elt found foundAll)
  let ?b = "Block name elt found foundAll"
  obtain spec0 lg auth limits act nxt nested where cfg: "cfg = HandlerFileCfg spec0 lg auth limits act nxt nested"
    by (cases cfg)
  have act: "read_action fw ?b = Some act"
    and nested: "all_read (map (\<lambda>b. HandlerCfg_ReadBCLElement b fw) (foundAll ''handler'')) = Some nested"
    using Block.prems(1) unfolding cfg by (auto simp: Let_def bind_eq_Some_conv comp_def)
  consider "a = act" | "(spec, a) \<in> set (tree_actions nested)" using Block.prems(2) unfolding cfg by auto
  then show ?case
  proof cases
    case 1
    then show ?thesis using read_action_valid [OF act] by simp
  next
    case 2
    then obtain c where c: "c \<in> set nested" "(spec, a) \<in> set (tree_actions [c])" using tree_actionsD by blast
    then obtain b where "b \<in> set (foundAll ''handler'')" "HandlerCfg_ReadBCLElement b fw = Some c"
      using all_read_map [OF nested] by blast
    then show ?thesis using Block.IH(2) c(2) by blast
  qed
qed

text \<open>The numbers of the handlers of a tree.\<close>

lemma start_tree_Cons:
  assumes "start_tree trim files n (HandlerFileCfg spec lg auth limits act nxt nested # rest) = Some (hs, k)"
  shows "\<exists>h hs1 m hs2. start_tree trim files (Suc n) nested = Some (hs1, m) \<and>
    start_tree trim files m rest = Some (hs2, k) \<and> hs = Handler h hs1 # hs2 \<and> h_Action h = Some n"
proof -
  obtain hs1 m where 1: "start_tree trim files (Suc n) nested = Some (hs1, m)"
    using assms by (auto simp: bind_eq_Some_conv simp del: split_paired_Ex)
  obtain hs2 k' where 2: "start_tree trim files m rest = Some (hs2, k')"
    using assms 1 by (auto simp: bind_eq_Some_conv simp del: split_paired_Ex)
  have "\<exists>h. hs = Handler h hs1 # hs2 \<and> h_Action h = Some n \<and> k = k'"
    using assms 1 2 by (auto simp: bind_eq_Some_conv simp del: split_paired_Ex)
  then show ?thesis using 1 2 by blast
qed

lemma start_tree_numbers:
  "start_tree trim files n cfgs = Some (hs, k) \<Longrightarrow>
    k = n + length (tree_actions cfgs) \<and> set (handler_actions hs) \<subseteq> {n..<k}"
proof (induction cfgs arbitrary: n hs k rule: tree_actions.induct)
  case (2 spec lg auth limits act nxt nested rest)
  obtain h hs1 m hs2 where t: "start_tree trim files (Suc n) nested = Some (hs1, m)"
    "start_tree trim files m rest = Some (hs2, k)" "hs = Handler h hs1 # hs2" "h_Action h = Some n"
    using start_tree_Cons [OF 2(3)] by blast
  show ?case using 2(1) [OF t(1)] 2(2) [OF t(2)] t(3,4) by auto
qed simp

section \<open>The actions answer\<close>

lemma fresh_apply [simp]: "fresh (apply_to_response ops ctx) \<longleftrightarrow> fresh ctx"
  by (simp add: fresh_def client_status_def apply_to_response_def)

lemma reply_responds: "status_ok (ra_Status cfg) \<Longrightarrow> fresh ctx \<Longrightarrow> responded (ReplyAction_HandleRequest cfg ctx)"
  by (auto simp: ReplyAction_HandleRequest_def Let_def status_ok_def intro!: responded_replies)

lemma redirect_responds: "status_ok s \<Longrightarrow> fresh ctx \<Longrightarrow> responded (redirect aw s uri ops body ctx)"
  by (auto simp: redirect_def Let_def status_ok_def intro!: responded_replies split: option.split)

lemma serve_responds:
  assumes "valid_action (ServeCfg cfg)" "\<And>path. answers (aw_serve_content aw path)" "fresh ctx"
  shows "responded (ServeAction_HandleRequest aw hasPaths cfg ctx)"
proof -
  have content: "responded (aw_serve_content aw path ctx)" for path using assms(2,3) by (simp add: answers_def)
  have "responded (serveIndexView aw path ctx)" for path
    using assms(3) by (auto simp: serveIndexView_def intro!: responded_replies split: option.split)
  then have "responded (serve_directory aw cfg path ctx)" for path
    using assms(1,3) content
    by (auto simp: serve_directory_def intro!: redirect_responds responded_replies split: option.split)
  then show ?thesis using assms(1,3) content
    by (auto simp: ServeAction_HandleRequest_def Let_def intro!: reply_responds responded_replies
        split: stat_result.split file_mode.split open_result.split option.split)
qed

definition valid_number :: "Auth action_world \<Rightarrow> actions \<Rightarrow> (MatchCfg \<times> ActionCfg) list \<Rightarrow> nat \<Rightarrow> bool" where
  "valid_number aw others acts i \<longleftrightarrow> i < length acts \<and> valid_action (snd (acts ! i)) \<and>
     (\<forall>path. answers (aw_serve_content aw path)) \<and> answers (others i)"

interpretation site: responding "site_actions aw others acts" "valid_number aw others acts" for aw others acts
proof
  fix i and ctx :: auth_context
  assume v: "valid_number aw others acts i" and f: "fresh ctx"
  obtain spec cfg where a: "acts ! i = (spec, cfg)" by fastforce
  show "responded (site_actions aw others acts i ctx)"
  proof (cases cfg)
    case (ServeCfg c)
    then show ?thesis using v f a serve_responds [of c aw ctx "HasPaths spec"] by (simp add: valid_number_def site_actions_def)
  qed (use v f a in \<open>auto simp: valid_number_def site_actions_def RedirectAction_HandleRequest_def answers_def
      intro!: reply_responds redirect_responds\<close>)
qed

section \<open>Properties\<close>


text \<open>A site with a handler that replies 404.\<close>

definition demo_file_world :: file_world where
  "demo_file_world = \<lparr>fw_env = \<lambda>_. None, fw_positive = \<lambda>n. 0 < n, fw_duration = \<lambda>_ _. None, fw_scheme = \<lambda>_. None,
     fw_uni = id, fw_hmac = \<lambda>_. None\<rparr>"

definition demo_site :: bcl_block where
  "demo_site = demo_block [] [] [(''handler'', demo_block [] [(''reply'', ''404'')] [])]"

definition demo_site_cfg :: HttpProtocolCfg where
  "demo_site_cfg = \<lparr>hp_Handlers = [HandlerFileCfg empty_MatchCfg None None None
       (ReplyCfg \<lparr>ra_Status = 404, ra_Header = [], ra_Body = None\<rparr>) False []],
     hp_AccessLogger = None, hp_TLSHandling = TLSHandlingAccept, hp_HSTS = False, hp_DebugLogVariables = False,
     hp_LogGoServerErrors = False, hp_UnencryptedHTTP2 = False\<rparr>"

lemma demo_reply_read:
  "ReplyActionCfg_ReadBCLElement demo_file_world (FoundEntry (demo_entry [''404''])) =
    Some \<lparr>ra_Status = 404, ra_Header = [], ra_Body = None\<rparr>"
proof -
  have "ParseInt ''404'' = Some 404" by code_simp
  then show ?thesis
    by (simp add: ReplyActionCfg_ReadBCLElement_def entry_value_def valid_value_def demo_entry_def ValidateBCLStatus_def)
qed

lemma demo_site_read: "HttpProtocolCfg_ReadBCLElement demo_file_world demo_site = Some demo_site_cfg"
proof -
  have "read_action demo_file_world (demo_block [] [(''reply'', ''404'')] []) =
      Some (ReplyCfg \<lparr>ra_Status = 404, ra_Header = [], ra_Body = None\<rparr>)"
    by (simp add: read_action_def at_most_one_def has_element_def maybe_element_def find_element_def demo_block_def
        choose_action_def demo_reply_read)
  then show ?thesis
    by (simp add: HttpProtocolCfg_ReadBCLElement_def demo_site_def demo_site_cfg_def demo_block_def maybe_entry_def
        maybe_block_def maybe_element_def find_element_def read_matches_def)
qed

definition demo_site_handlers :: "Auth Handler list" where
  "demo_site_handlers = [Handler \<lparr>h_Match = empty_MatchCfg, h_AccessLogger = None, h_Auth = None, h_RateLimiter = None,
     h_NextHandler = False, h_Action = Some 0\<rparr> []]"

definition demo_content_world :: "Auth action_world" where
  "demo_content_world = \<lparr>aw_reason = \<lambda>_. ''Error'', aw_parse_uri = Some, aw_render_redirect = \<lambda>_ _ _. None,
     aw_render_index = \<lambda>_ _. None, aw_read_dir = \<lambda>_. None, aw_two_decimals = \<lambda>_ _. [], aw_stat = \<lambda>_. StatNotExist,
     aw_open = \<lambda>_. OpenNotExist, aw_serve_content = \<lambda>p ctx. Reply 200 (Some p) ctx\<rparr>"


end
