(* ===== verification/Certificates.thy ===== *)
theory Certificates
  imports Service_Configuration
begin

text \<open>
  The TLS side of a listener: \<open>listen\<close>, \<open>acmeTLSCfg\<close>, \<open>localTLSCfg\<close> and \<open>acmeCertificateName\<close> of
  \<open>src/pkg/boulevard/listener.go\<close>. The certificate comes from two files or from the ACME client;
  the client is a library, represented by what its methods answer.
\<close>

section \<open>Names of certificates\<close>

text \<open>\<open>shake\<close> is \<open>ShakeSum128\<close> with sixteen bytes.\<close>

definition unit_separator :: char where
  "unit_separator = CHR 0x1F"

definition acmeCertificateName :: "(bytes \<Rightarrow> bytes) \<Rightarrow> string \<Rightarrow> string list \<Rightarrow> string" where
  "acmeCertificateName shake serverName domains =
     (let key = Join domains [unit_separator]
      in serverName @ ''-'' @ EncodeToString (shake (bytes_of key)))"

section \<open>TLS configurations\<close>

text \<open>The block of a listener with its two files, and the configuration given to the TLS library:
  certificates that are loaded, or the name of the certificate that the ACME client provides.\<close>

record 'c tls_config =
  tc_Certificates :: "'c list"
  tc_GetCertificate :: "string option"
  tc_MinVersion :: u16
  tc_MaxVersion :: u16
  tc_CipherSuites :: "u16 list"

datatype certificate_error =
    CannotLoadCertificateFile string
  | CannotLoadPrivateKey string
  | InvalidKeyPair
  | CannotRequestCertificate
  | StartupInterrupted
  | CannotCreateListener

text \<open>What the outside answers: the contents of files, \<open>tls.X509KeyPair\<close>, whether
  \<open>RequestCertificate\<close> succeeds for a name and its domains, the events of the request until the wait
  ends, each with or without an error, \<open>WaitForCertificate\<close> in a context that is cancelled or not, and \<open>net.Listen\<close>.\<close>

record 'c tls_world =
  tw_file :: "string \<Rightarrow> bytes option"
  tw_key_pair :: "bytes \<Rightarrow> bytes \<Rightarrow> 'c option"
  tw_shake :: "bytes \<Rightarrow> bytes"
  tw_request :: "string \<Rightarrow> string list \<Rightarrow> bool"
  tw_events :: "string \<Rightarrow> bool list"
  tw_wait :: "string \<Rightarrow> bool \<Rightarrow> bool"
  tw_listen :: "string \<Rightarrow> bool"

definition empty_tls :: "'c tls_config" where
  "empty_tls = \<lparr>tc_Certificates = [], tc_GetCertificate = None, tc_MinVersion = 0, tc_MaxVersion = 0, tc_CipherSuites = []\<rparr>"

definition localTLSCfg :: "'c tls_world \<Rightarrow> string \<Rightarrow> string \<Rightarrow> certificate_error + 'c tls_config" where
  "localTLSCfg tw certPath keyPath = (case tw_file tw certPath of
     None \<Rightarrow> Inl (CannotLoadCertificateFile certPath)
   | Some certData \<Rightarrow> (case tw_file tw keyPath of
       None \<Rightarrow> Inl (CannotLoadPrivateKey keyPath)
     | Some keyData \<Rightarrow> (case tw_key_pair tw certData keyData of
         None \<Rightarrow> Inl InvalidKeyPair
       | Some cert \<Rightarrow> Inr (empty_tls\<lparr>tc_Certificates := [cert]\<rparr>))))"

text \<open>The goroutine that reads the events cancels the context of the listener at the first error; an
  event is \<open>True\<close> when it has an error. The result also says whether the context is cancelled.\<close>

definition acmeTLSCfg ::
  "'c tls_world \<Rightarrow> string \<Rightarrow> string list \<Rightarrow> (certificate_error + 'c tls_config) \<times> bool" where
  "acmeTLSCfg tw serverName domains =
     (let certName = acmeCertificateName (tw_shake tw) serverName domains in
      if \<not> tw_request tw certName domains then (Inl CannotRequestCertificate, False)
      else
        let cancelled = list_ex id (tw_events tw certName) in
        if \<not> tw_wait tw certName cancelled then (Inl StartupInterrupted, cancelled)
        else (Inr (empty_tls\<lparr>tc_GetCertificate := Some certName\<rparr>), cancelled))"

text \<open>A listener of a server: its address, its TLS block if any and the two files.\<close>

record tls_listener =
  tl_Address :: string
  tl_TLS :: "TLSCfg option"
  tl_CertificateFile :: string
  tl_PrivateKeyFile :: string

definition with_block :: "TLSCfg \<Rightarrow> 'c tls_config \<Rightarrow> 'c tls_config" where
  "with_block cfg tc =
     (let tc = tc\<lparr>tc_MinVersion := MinVersion cfg, tc_MaxVersion := MaxVersion cfg\<rparr>
      in if length (CipherSuites cfg) > 0 then tc\<lparr>tc_CipherSuites := CipherSuites cfg\<rparr> else tc)"

definition Listener_listen ::
  "'c tls_world \<Rightarrow> string \<Rightarrow> tls_listener \<Rightarrow> certificate_error + 'c tls_config option" where
  "Listener_listen tw serverName l =
     (let tlsCfg = (case tl_TLS l of
          None \<Rightarrow> Inr None
        | Some cfg \<Rightarrow>
            (case (if length (TlsDomains cfg) > 0 then fst (acmeTLSCfg tw serverName (TlsDomains cfg))
                   else localTLSCfg tw (tl_CertificateFile l) (tl_PrivateKeyFile l)) of
               Inl e \<Rightarrow> Inl e
             | Inr tc \<Rightarrow> Inr (Some (with_block cfg tc))))
      in case tlsCfg of
           Inl e \<Rightarrow> Inl e
         | Inr tc \<Rightarrow> if tw_listen tw (tl_Address l) then Inr tc else Inl CannotCreateListener)"

section \<open>Lemmas\<close>

lemma hex_digit_inj:
  assumes "m < 16" "n < 16" "hex_digit m = hex_digit n"
  shows "m = n"
proof -
  have code: "of_char (hex_digit d) = (if d < 10 then 48 + d else 87 + d)" if "d < 16" for d :: nat
    using that by (simp add: hex_digit_def)
  have "(of_char (hex_digit m) :: nat) = of_char (hex_digit n)" using assms(3) by simp
  then show ?thesis using assms(1,2) by (simp add: code split: if_splits)
qed

lemma hex_byte_inj: "hex_byte a = hex_byte b \<Longrightarrow> a = b"
proof -
  assume eq: "hex_byte a = hex_byte b"
  have less: "unat x div 16 < 16" for x :: byte using unat_byte [of x] by linarith
  have "unat a div 16 = unat b div 16" "unat a mod 16 = unat b mod 16"
    using eq less hex_digit_inj by (simp_all add: hex_byte_def)
  then have "unat a = unat b" by (metis div_mult_mod_eq)
  then show "a = b" by (simp add: word_unat_eq_iff)
qed

lemma EncodeToString_inj: "EncodeToString as = EncodeToString bs \<Longrightarrow> as = bs"
proof (induction as arbitrary: bs)
  case Nil
  then show ?case by (cases bs) (simp_all add: EncodeToString_def hex_byte_def)
next
  case (Cons a as)
  then obtain b cs where bs: "bs = b # cs" by (cases bs) (simp_all add: EncodeToString_def hex_byte_def)
  have "hex_byte a = hex_byte b" "EncodeToString as = EncodeToString cs"
    using Cons.prems unfolding bs EncodeToString_def by (simp_all add: hex_byte_def)
  then show ?case using Cons.IH hex_byte_inj bs by blast
qed

lemma length_EncodeToString: "length (EncodeToString bs) = 2 * length bs"
  by (induction bs) (simp_all add: EncodeToString_def hex_byte_def)

text \<open>A name that passes the validation does not contain the separator.\<close>

lemma set_butlast_last: "xs \<noteq> [] \<Longrightarrow> set xs = insert (last xs) (set (butlast xs))"
  by (induction xs) auto

lemma label_chars: "label_error l = None \<Longrightarrow> c \<in> set l \<Longrightarrow> is_alnum c \<or> c = CHR ''-''"
proof -
  assume l: "label_error l = None" and c: "c \<in> set l"
  have ne: "l \<noteq> []" "is_alnum (hd l)" "is_alnum (last l)" "\<forall>c \<in> set (butlast (tl l)). is_alnum c \<or> c = CHR ''-''"
    using l by (auto simp: label_error_def list_ex_iff split: if_splits)
  obtain h t where ht: "l = h # t" using ne(1) by (cases l) auto
  have "c = h \<or> c \<in> set (butlast t) \<or> c = last l"
    using c ht set_butlast_last [of t] by (cases "t = []") auto
  then show ?thesis using ne ht by auto
qed

lemma labels_chars: "labels_error ls = None \<Longrightarrow> l \<in> set ls \<Longrightarrow> label_error l = None"
  by (induction ls) (auto split: option.splits)

lemma domain_no_separator: "ValidateBCLDomainName d = Some None \<Longrightarrow> unit_separator \<notin> set d"
proof -
  assume "ValidateBCLDomainName d = Some None"
  then have ok: "labels_error (Split (drop_final_dot d) CHR ''.'') = None" by (simp add: ValidateBCLDomainName_def split: if_splits)
  have sep: "\<not> is_alnum unit_separator" "unit_separator \<noteq> CHR ''-''" "unit_separator \<noteq> CHR ''.''"
    by (simp_all add: unit_separator_def is_alnum_def is_alpha_def is_digit_def)
  have "unit_separator \<notin> set l" if "l \<in> set (Split (drop_final_dot d) CHR ''.'')" for l
    using label_chars [OF labels_chars [OF ok that]] sep by blast
  then have "unit_separator \<notin> set (Join (Split (drop_final_dot d) CHR ''.'') [CHR ''.''])"
    using set_Join sep(3) by fastforce
  then have "unit_separator \<notin> set (drop_final_dot d)" by (simp add: Join_Split)
  then show "unit_separator \<notin> set d" using sep(3) set_butlast_last [of d]
    by (cases "d \<noteq> [] \<and> last d = CHR ''.''") (auto simp: drop_final_dot_def)
qed

lemma domains_read:
  assumes "TLSCfg_ReadBCLElement suites b = Some tls" "d \<in> set (TlsDomains tls)"
  shows "unit_separator \<notin> set d"
proof -
  have "list_all (\<lambda>d. ValidateBCLDomainName d = Some None) (TlsDomains tls)"
    using assms(1) unfolding TLSCfg_ReadBCLElement_def Let_def by (auto split: if_splits)
  then show ?thesis using assms(2) domain_no_separator by (simp add: list_all_iff)
qed

lemma key_inj:
  assumes "TLSCfg_ReadBCLElement suites b1 = Some tls1" "TLSCfg_ReadBCLElement suites b2 = Some tls2"
    and "TlsDomains tls1 \<noteq> []" "TlsDomains tls2 \<noteq> []"
    and "Join (TlsDomains tls1) [unit_separator] = Join (TlsDomains tls2) [unit_separator]"
  shows "TlsDomains tls1 = TlsDomains tls2"
proof -
  have 1: "Split (Join (TlsDomains tls1) [unit_separator]) unit_separator = TlsDomains tls1"
    using Split_Join [OF assms(3)] domains_read [OF assms(1)] by blast
  have 2: "Split (Join (TlsDomains tls2) [unit_separator]) unit_separator = TlsDomains tls2"
    using Split_Join [OF assms(4)] domains_read [OF assms(2)] by blast
  show ?thesis using 1 2 assms(5) by metis
qed

section \<open>Properties\<close>

text \<open>C18: The certificates of listeners are kept apart: for TLS blocks that the file may have, two
  listeners ask the ACME client for the same certificate exactly when they belong to servers of
  the same name and have the same domains, as long as the hash function does not give the
  same sixteen bytes for the two lists.\<close>

theorem certificate_name_unique:
  assumes "TLSCfg_ReadBCLElement suites b1 = Some tls1" "TLSCfg_ReadBCLElement suites b2 = Some tls2"
    and "TlsDomains tls1 \<noteq> []" "TlsDomains tls2 \<noteq> []" "\<forall>k. length (shake k) = 16"
    and "inj_on shake {bytes_of (Join (TlsDomains tls1) [unit_separator]), bytes_of (Join (TlsDomains tls2) [unit_separator])}"
  shows "acmeCertificateName shake name1 (TlsDomains tls1) = acmeCertificateName shake name2 (TlsDomains tls2) \<longleftrightarrow>
    name1 = name2 \<and> TlsDomains tls1 = TlsDomains tls2"
proof
  let ?k1 = "bytes_of (Join (TlsDomains tls1) [unit_separator])" and ?k2 = "bytes_of (Join (TlsDomains tls2) [unit_separator])"
  assume "acmeCertificateName shake name1 (TlsDomains tls1) = acmeCertificateName shake name2 (TlsDomains tls2)"
  then have eq: "(name1 @ ''-'') @ EncodeToString (shake ?k1) = (name2 @ ''-'') @ EncodeToString (shake ?k2)"
    by (simp add: acmeCertificateName_def)
  have "length (EncodeToString (shake ?k1)) = length (EncodeToString (shake ?k2))"
    by (simp add: length_EncodeToString assms(5))
  then have "name1 @ ''-'' = name2 @ ''-''" "EncodeToString (shake ?k1) = EncodeToString (shake ?k2)"
    using eq append_eq_append_conv [of "name1 @ ''-''" "name2 @ ''-''" "EncodeToString (shake ?k1)" "EncodeToString (shake ?k2)"]
    by simp_all
  then have "name1 = name2" "shake ?k1 = shake ?k2" using EncodeToString_inj by auto
  moreover have "?k1 = ?k2" using inj_onD [OF assms(6) \<open>shake ?k1 = shake ?k2\<close>] by simp
  ultimately show "name1 = name2 \<and> TlsDomains tls1 = TlsDomains tls2" using key_inj [OF assms(1-4)] by simp
qed simp

text \<open>C17: A listener with a TLS block never listens without TLS: it fails when there is no certificate,
  and the TLS library gets the versions of the block, its cipher suites if it has some, and one
  source of certificates, the pair of files or the ACME client.\<close>

theorem tls_listener_fails_closed:
  assumes "Listener_listen tw name l = Inr tc" "tl_TLS l = Some cfg"
  shows "\<exists>c. tc = Some c \<and> tc_MinVersion c = MinVersion cfg \<and> tc_MaxVersion c = MaxVersion cfg \<and>
    (CipherSuites cfg \<noteq> [] \<longrightarrow> tc_CipherSuites c = CipherSuites cfg) \<and>
    (if TlsDomains cfg = [] then tc_GetCertificate c = None \<and>
       (\<exists>certData keyData cert. tw_file tw (tl_CertificateFile l) = Some certData \<and> tw_file tw (tl_PrivateKeyFile l) = Some keyData \<and>
          tw_key_pair tw certData keyData = Some cert \<and> tc_Certificates c = [cert])
     else tc_Certificates c = [] \<and> tc_GetCertificate c = Some (acmeCertificateName (tw_shake tw) name (TlsDomains cfg)))"
proof -
  let ?r = "if length (TlsDomains cfg) > 0 then fst (acmeTLSCfg tw name (TlsDomains cfg))
    else localTLSCfg tw (tl_CertificateFile l) (tl_PrivateKeyFile l)"
  obtain c0 where r: "?r = Inr c0" and tc: "tc = Some (with_block cfg c0)"
    using assms by (auto simp: Listener_listen_def Let_def split: sum.splits if_splits)
  have block: "tc_MinVersion (with_block cfg c0) = MinVersion cfg" "tc_MaxVersion (with_block cfg c0) = MaxVersion cfg"
    "CipherSuites cfg \<noteq> [] \<longrightarrow> tc_CipherSuites (with_block cfg c0) = CipherSuites cfg"
    "tc_Certificates (with_block cfg c0) = tc_Certificates c0" "tc_GetCertificate (with_block cfg c0) = tc_GetCertificate c0"
    by (simp_all add: with_block_def Let_def)
  show ?thesis
  proof (cases "TlsDomains cfg = []")
    case True
    then show ?thesis using r tc block by (auto simp: localTLSCfg_def empty_tls_def split: option.splits)
  next
    case False
    then have "tc_Certificates c0 = [] \<and> tc_GetCertificate c0 = Some (acmeCertificateName (tw_shake tw) name (TlsDomains cfg))"
      using r by (auto simp: acmeTLSCfg_def Let_def empty_tls_def split: if_splits)
    then show ?thesis using False tc block by simp
  qed
qed

text \<open>Two blocks with one domain each, and a hash that fits them.\<close>

definition demo_tls_block :: "string \<Rightarrow> bcl_block" where
  "demo_tls_block domain = demo_block [] [] [(''acme'', demo_block [] [(''domain'', domain)] [])]"

definition demo_shake :: "bytes \<Rightarrow> bytes" where
  "demo_shake k = take 16 (k @ replicate 16 0)"

theorem certificate_name_unique_witness:
  "acmeCertificateName demo_shake ''web'' [''a.org''] \<noteq> acmeCertificateName demo_shake ''web'' [''b.org'']"
proof -
  have dom: "ValidateBCLDomainName ''a.org'' = Some None" "ValidateBCLDomainName ''b.org'' = Some None" by code_simp+
  have read: "TLSCfg_ReadBCLElement [] (demo_tls_block d) =
      Some \<lparr>TlsDomains = [d], MinVersion = 0, MaxVersion = 0, CipherSuites = []\<rparr>" if "ValidateBCLDomainName d = Some None" for d
  proof -
    have "ParseTLSVersion [] = None" by code_simp
    then show ?thesis using that
      by (simp add: TLSCfg_ReadBCLElement_def demo_tls_block_def demo_block_def entry_text_def value_or_empty_def
          read_version_def value_or_def)
  qed
  have "bytes_of ''a.org'' \<noteq> bytes_of ''b.org''" by simp
  moreover have "demo_shake (bytes_of ''a.org'') \<noteq> demo_shake (bytes_of ''b.org'')" by code_simp
  ultimately have inj: "inj_on demo_shake {bytes_of (Join [''a.org''] [unit_separator]), bytes_of (Join [''b.org''] [unit_separator])}"
    by simp
  have len: "\<forall>k. length (demo_shake k) = 16" by (auto simp: demo_shake_def min_def)
  show ?thesis
    using certificate_name_unique [OF read [OF dom(1)] read [OF dom(2)], of demo_shake "''web''" "''web''"] inj len by simp
qed

definition demo_tls_world :: "nat tls_world" where
  "demo_tls_world = \<lparr>tw_file = \<lambda>p. Some [], tw_key_pair = \<lambda>_ _. Some 7, tw_shake = demo_shake, tw_request = \<lambda>_ _. True,
     tw_events = \<lambda>_. [], tw_wait = \<lambda>_ cancelled. \<not> cancelled, tw_listen = \<lambda>_. True\<rparr>"

theorem tls_listener_fails_closed_witness:
  "\<exists>c. Listener_listen demo_tls_world ''web'' \<lparr>tl_Address = '':443'', tl_TLS = Some \<lparr>TlsDomains = [], MinVersion = 771,
      MaxVersion = 0, CipherSuites = []\<rparr>, tl_CertificateFile = ''c'', tl_PrivateKeyFile = ''k''\<rparr> = Inr (Some c) \<and>
    tc_MinVersion c = 771 \<and> tc_Certificates c = [7]"
proof -
  let ?l = "\<lparr>tl_Address = '':443'', tl_TLS = Some \<lparr>TlsDomains = [], MinVersion = 771, MaxVersion = 0, CipherSuites = []\<rparr>,
    tl_CertificateFile = ''c'', tl_PrivateKeyFile = ''k''\<rparr>"
  have "\<exists>c. Listener_listen demo_tls_world ''web'' ?l = Inr (Some c)"
    by (simp add: Listener_listen_def localTLSCfg_def demo_tls_world_def)
  then obtain c where c: "Listener_listen demo_tls_world ''web'' ?l = Inr (Some c)" by blast
  show ?thesis using tls_listener_fails_closed [OF c, of "\<lparr>TlsDomains = [], MinVersion = 771, MaxVersion = 0, CipherSuites = []\<rparr>"] c
    by (auto simp: demo_tls_world_def)
qed

end
