(* ===== verification/Service_Setup.thy ===== *)
theory Service_Setup
  imports Action_Configuration Http_Status
begin

text \<open>
  What happens before the service starts and around its life: the sections of the file for the
  ACME client, the logger, the profiler and the control API, \<open>NewService\<close> with \<open>initACMEClient\<close>
  and \<open>initControlAPI\<close>, and the signals (\<open>acme.go\<close>, \<open>cfg.go\<close>, \<open>control_api.go\<close> and \<open>service.go\<close> in
  \<open>src/pkg/service\<close>); and the start and stop of the HTTP library's servers under the stop of a server
  (\<open>src/pkg/protocols/http/server.go\<close>, \<open>src/pkg/boulevard/server.go\<close>). The ACME client and the
  logger are libraries: \<open>setup_world\<close> says whether they can be created.
\<close>

section \<open>The sections of the file\<close>

record ACMECfg =
  ac_DatastorePath :: string
  ac_Contacts :: "string list"
  ac_HTTPListenerAddress :: string
  ac_HTTPUpstreamURI :: string
  ac_Pebble :: bool

text \<open>\<open>email\<close> is \<open>ValidateBCLEmailAddress\<close>, that is \<open>mail.ParseAddress\<close>.\<close>

definition read_solver :: "file_world \<Rightarrow> bcl_block \<Rightarrow> (string \<times> string) option" where
  "read_solver fw b = do {
     address \<leftarrow> maybe_entry [] read_address b ''address'';
     uri \<leftarrow> the_entry (entry_value (valid_value (ValidateBCLHTTPURI fw) text_value)) b ''upstream_uri'';
     Some (address, uri) }"

definition ACMECfg_ReadBCLElement :: "file_world \<Rightarrow> (string \<Rightarrow> bool) \<Rightarrow> bcl_block \<Rightarrow> ACMECfg option" where
  "ACMECfg_ReadBCLElement fw email b = do {
     path \<leftarrow> the_entry (entry_value text_value) b ''datastore_path'';
     contacts \<leftarrow> all_read (map (entry_value (valid_value email text_value)) (el_FindEntries (bl_Element b) ''contact''));
     pebble \<leftarrow> maybe_entry False (entry_value en_Bool) b ''pebble'';
     solver \<leftarrow> maybe_block (read_solver fw) b ''http_challenge_solver'';
     Some \<lparr>ac_DatastorePath = path, ac_Contacts = contacts,
       ac_HTTPListenerAddress = (case solver of None \<Rightarrow> [] | Some (address, _) \<Rightarrow> address),
       ac_HTTPUpstreamURI = (case solver of None \<Rightarrow> [] | Some (_, uri) \<Rightarrow> uri), ac_Pebble = pebble\<rparr> }"

text \<open>The backend of the logger; a terminal without colour setting unless the file says otherwise. The
  keys of the JSON backend are empty by default.\<close>

datatype LoggerBackend = TerminalBackend "bool option" | JSONBackend "string list"

record LoggerCfg =
  lo_Backend :: LoggerBackend
  lo_DebugLevel :: int

definition json_keys :: "string list" where
  "json_keys = [''timestamp_key'', ''timestamp_layout'', ''domain_key'', ''level_key'', ''message_key'', ''data_key'']"

definition read_terminal :: "bcl_block \<Rightarrow> LoggerBackend option" where
  "read_terminal b = map_option TerminalBackend (maybe_entry None (map_option Some \<circ> entry_value en_Bool) b ''color'')"

definition read_json :: "bcl_block \<Rightarrow> LoggerBackend option" where
  "read_json b = map_option JSONBackend (all_read (map (maybe_entry [] (entry_value text_value) b) json_keys))"

definition initLogger :: "bcl_block \<Rightarrow> LoggerCfg option" where
  "initLogger doc = (case bl_Find doc ''logs'' of
     None \<Rightarrow> Some \<lparr>lo_Backend = TerminalBackend None, lo_DebugLevel = 0\<rparr>
   | Some b \<Rightarrow>
       if bl_Find b ''terminal'' \<noteq> None \<and> bl_Find b ''json'' \<noteq> None then None
       else do {
         terminal \<leftarrow> maybe_block read_terminal b ''terminal'';
         json \<leftarrow> maybe_block read_json b ''json'';
         level \<leftarrow> maybe_entry 0 (entry_value en_Int) b ''debug_level'';
         Some \<lparr>lo_Backend = (case json of Some j \<Rightarrow> j | None \<Rightarrow> (case terminal of Some t \<Rightarrow> t | None \<Rightarrow> TerminalBackend None)),
           lo_DebugLevel = level\<rparr> })"

definition initPProf :: "bcl_block \<Rightarrow> string option" where
  "initPProf doc = (case bl_Find doc ''pprof'' of
     None \<Rightarrow> Some []
   | Some b \<Rightarrow> the_entry (entry_value text_value) b ''address'')"

record ControlCfg =
  ca_Path :: string
  ca_AccessLogger :: "AccessLoggerCfg option"
  ca_LogGoServerErrors :: bool

definition ControlCfg_ReadBCLElement :: "file_world \<Rightarrow> bcl_block \<Rightarrow> ControlCfg option" where
  "ControlCfg_ReadBCLElement fw b = do {
     path \<leftarrow> the_entry (entry_value text_value) b ''path'';
     logger \<leftarrow> maybe_block (AccessLoggerCfg_ReadBCLElement fw) b ''access_logs'';
     goErrors \<leftarrow> maybe_entry False (entry_value en_Bool) b ''log_go_server_errors'';
     Some \<lparr>ca_Path = path, ca_AccessLogger = logger, ca_LogGoServerErrors = goErrors\<rparr> }"

section \<open>Creating the service\<close>

text \<open>What is given to the ACME library: \<open>am_PebbleClient\<close> is whether the HTTP client trusts the
  certificates of Pebble.\<close>

record acme_client_cfg =
  am_UserAgent :: string
  am_ContactURIs :: "string list"
  am_Address :: string
  am_UpstreamURI :: string
  am_DirectoryURI :: string
  am_PebbleClient :: bool

record setup_world =
  nw_logger :: "LoggerCfg option \<Rightarrow> bool"
  nw_datastore :: "string \<Rightarrow> bool"
  nw_acme_client :: "acme_client_cfg \<Rightarrow> bool"
  nw_open :: "string \<Rightarrow> io_error + writer"
  nw_PebbleDirectoryURI :: string
  nw_PebbleAddress :: string
  nw_LetsEncryptDirectoryURI :: string

datatype setup_error = CannotCreateLogger | CannotCreateDatastore | CannotCreateACMEClient | CannotCreateAccessLogger

definition acme_config :: "setup_world \<Rightarrow> string \<Rightarrow> ACMECfg \<Rightarrow> acme_client_cfg" where
  "acme_config nw userAgent cfg =
     (let c = \<lparr>am_UserAgent = userAgent, am_ContactURIs = map (\<lambda>a. ''mailto:'' @ a) (ac_Contacts cfg),
           am_Address = ac_HTTPListenerAddress cfg, am_UpstreamURI = ac_HTTPUpstreamURI cfg, am_DirectoryURI = [],
           am_PebbleClient = False\<rparr>
      in if ac_Pebble cfg then
           let c = (if am_DirectoryURI c = [] then c\<lparr>am_DirectoryURI := nw_PebbleDirectoryURI nw\<rparr> else c);
               c = (if am_Address c = [] then c\<lparr>am_Address := nw_PebbleAddress nw\<rparr> else c)
           in c\<lparr>am_PebbleClient := True\<rparr>
         else
           let c = (if am_DirectoryURI c = [] then c\<lparr>am_DirectoryURI := nw_LetsEncryptDirectoryURI nw\<rparr> else c)
           in if am_Address c = [] then c\<lparr>am_Address := ''0.0.0.0:80''\<rparr> else c)"

definition initACMEClient :: "setup_world \<Rightarrow> string \<Rightarrow> ACMECfg option \<Rightarrow> setup_error + acme_client_cfg option" where
  "initACMEClient nw userAgent acme = (case acme of
     None \<Rightarrow> Inr None
   | Some cfg \<Rightarrow>
       if \<not> nw_datastore nw (ac_DatastorePath cfg) then Inl CannotCreateDatastore
       else if \<not> nw_acme_client nw (acme_config nw userAgent cfg) then Inl CannotCreateACMEClient
       else Inr (Some (acme_config nw userAgent cfg)))"

text \<open>The control API with its access log, whose path has no variables.\<close>

definition initControlAPI :: "setup_world \<Rightarrow> ControlCfg option \<Rightarrow> setup_error + (ControlCfg \<times> AccessLogger option) option" where
  "initControlAPI nw control = (case control of
     None \<Rightarrow> Inr None
   | Some cfg \<Rightarrow> (case ca_AccessLogger cfg of
       None \<Rightarrow> Inr (Some (cfg, None))
     | Some logCfg \<Rightarrow> (case NewAccessLogger (nw_open nw) logCfg Map.empty of
         Inl _ \<Rightarrow> Inl CannotCreateAccessLogger
       | Inr lg \<Rightarrow> Inr (Some (cfg, Some lg)))))"

record setup_cfg =
  su_BuildId :: string
  su_Logger :: "LoggerCfg option"
  su_ACME :: "ACMECfg option"
  su_ControlAPI :: "ControlCfg option"

record new_service =
  ns_userAgent :: string
  ns_acmeClient :: "acme_client_cfg option"
  ns_controlAPI :: "(ControlCfg \<times> AccessLogger option) option"

definition NewService :: "setup_world \<Rightarrow> setup_cfg \<Rightarrow> setup_error + new_service" where
  "NewService nw cfg =
     (if \<not> nw_logger nw (su_Logger cfg) then Inl CannotCreateLogger
      else
        let userAgent = ''boulevard/'' @ su_BuildId cfg in
        case initACMEClient nw userAgent (su_ACME cfg) of
          Inl e \<Rightarrow> Inl e
        | Inr acme \<Rightarrow> (case initControlAPI nw (su_ControlAPI cfg) of
            Inl e \<Rightarrow> Inl e
          | Inr control \<Rightarrow> Inr \<lparr>ns_userAgent = userAgent, ns_acmeClient = acme, ns_controlAPI = control\<rparr>))"

section \<open>Signals\<close>

datatype service_event = StopService | SIGUSR1 | OtherSignal int

fun handleSignals ::
  "(string \<Rightarrow> io_error + writer) \<Rightarrow> service_event list \<Rightarrow> (Protocol \<times> nat option \<times> server_state) list \<Rightarrow>
     (Protocol \<times> nat option \<times> server_state) list" where
  "handleSignals open_file [] servers = servers"
| "handleSignals open_file (StopService # _) servers = servers"
| "handleSignals open_file (SIGUSR1 # es) servers = handleSignals open_file es (rotateLogFiles open_file servers)"
| "handleSignals open_file (OtherSignal n # es) servers = handleSignals open_file es servers"

section \<open>The servers of the HTTP library\<close>

text \<open>\<open>StartServer\<close>: the protocols of \<open>http.Server\<close> and whether its errors are logged. \<open>serve\<close> reports
  every end of the server but the one that \<open>Shutdown\<close> asks for.\<close>

record http_server =
  hs_Addr :: string
  hs_Protocols :: "string list"
  hs_LogErrors :: bool

definition StartHttpServer :: "HttpProtocolCfg \<Rightarrow> string \<Rightarrow> http_server" where
  "StartHttpServer cfg address = \<lparr>hs_Addr = address,
     hs_Protocols = [''HTTP1'', ''HTTP2''] @ (if hp_UnencryptedHTTP2 cfg then [''UnencryptedHTTP2''] else []),
     hs_LogErrors = hp_LogGoServerErrors cfg\<rparr>"

datatype serve_error = ErrServerClosed | ServeError io_error

definition serve_is_fatal :: "serve_error \<Rightarrow> bool" where
  "serve_is_fatal err \<longleftrightarrow> err \<noteq> ErrServerClosed"

text \<open>The stop of a server that has running requests. \<open>Server.Stop\<close> stops the listeners, whose contexts it
  thereby cancels, and then the protocol, which first calls \<open>Shutdown\<close> with the context of the
  listener: \<open>Shutdown\<close> waits until no connection is active or its context is done. Connections that
  are open get new requests until then.\<close>

datatype stop_phase = Serving | ListenersStopped | ServersStopped | HandlersStopped

record stop_state =
  so_phase :: stop_phase
  so_ctxDone :: bool
  so_requests :: nat

inductive stop_step :: "stop_state \<Rightarrow> stop_state \<Rightarrow> bool" where
  request_arrives: "so_phase s \<in> {Serving, ListenersStopped} \<Longrightarrow> stop_step s (s\<lparr>so_requests := Suc (so_requests s)\<rparr>)"
| request_ends: "so_requests s = Suc n \<Longrightarrow> stop_step s (s\<lparr>so_requests := n\<rparr>)"
| stops_listeners: "so_phase s = Serving \<Longrightarrow> stop_step s (s\<lparr>so_phase := ListenersStopped, so_ctxDone := True\<rparr>)"
| shuts_down: "\<lbrakk>so_phase s = ListenersStopped; so_requests s = 0 \<or> so_ctxDone s\<rbrakk> \<Longrightarrow>
    stop_step s (s\<lparr>so_phase := ServersStopped\<rparr>)"
| stops_handlers: "so_phase s = ServersStopped \<Longrightarrow> stop_step s (s\<lparr>so_phase := HandlersStopped\<rparr>)"

definition serving :: stop_state where
  "serving = \<lparr>so_phase = Serving, so_ctxDone = False, so_requests = 0\<rparr>"

section \<open>Properties\<close>

text \<open>The client of the ACME library gets what the file says: each contact, which is a valid address, as a
  URI, the address of the solver of the file or the default one, and the directory of Pebble
  exactly when the file asks for it. The service has an ACME client exactly when the file has
  the block, and likewise for the control API.\<close>

theorem new_service_parts:
  assumes "NewService nw cfg = Inr s" "ACMECfg_ReadBCLElement fw email b = Some acme" "su_ACME cfg = Some acme"
  shows "\<exists>c. ns_acmeClient s = Some c \<and>
    (\<exists>contacts. list_all email contacts \<and> am_ContactURIs c = map (\<lambda>a. ''mailto:'' @ a) contacts) \<and>
    am_DirectoryURI c = (if ac_Pebble acme then nw_PebbleDirectoryURI nw else nw_LetsEncryptDirectoryURI nw) \<and>
    am_Address c = (if ac_HTTPListenerAddress acme \<noteq> [] then ac_HTTPListenerAddress acme
      else if ac_Pebble acme then nw_PebbleAddress nw else ''0.0.0.0:80'') \<and>
    am_PebbleClient c = ac_Pebble acme \<and> am_UserAgent c = ''boulevard/'' @ su_BuildId cfg \<and>
    (ns_controlAPI s = None \<longleftrightarrow> su_ControlAPI cfg = None)"
proof -
  let ?c = "acme_config nw (''boulevard/'' @ su_BuildId cfg) acme"
  have client: "ns_acmeClient s = Some ?c"
    using assms(1,3) by (auto simp: NewService_def initACMEClient_def Let_def split: if_splits sum.splits)
  have control: "ns_controlAPI s = None \<longleftrightarrow> su_ControlAPI cfg = None"
    using assms(1) by (auto simp: NewService_def initControlAPI_def Let_def split: if_splits sum.splits option.splits)
  have "all_read (map (entry_value (valid_value email text_value)) (el_FindEntries (bl_Element b) ''contact'')) = Some (ac_Contacts acme)"
    using assms(2) by (auto simp: ACMECfg_ReadBCLElement_def bind_eq_Some_conv)
  then have "email a" if "a \<in> set (ac_Contacts acme)" for a
    using all_read_map [OF _ that] by (fastforce simp: entry_value_def valid_value_def bind_eq_Some_conv split: if_splits)
  then have "list_all email (ac_Contacts acme)" by (simp add: list_all_iff)
  then show ?thesis using client control
    by (intro exI [of _ ?c]) (auto simp: acme_config_def Let_def)
qed

text \<open>Signals: the logs are rotated once for each \<open>SIGUSR1\<close> before the service stops, and no other signal
  does anything.\<close>

theorem signals_rotate:
  "handleSignals open_file es servers =
    (rotateLogFiles open_file ^^ length (filter ((=) SIGUSR1) (takeWhile ((\<noteq>) StopService) es))) servers"
  by (induction open_file es servers rule: handleSignals.induct) (simp_all add: funpow_swap1)

text \<open>A server never waits for its requests when it stops: once the listeners are stopped \<open>Shutdown\<close> returns
  at once, however many requests run, because the context it is given is already
  cancelled; and the handlers may be stopped under any number of running requests.\<close>

lemma stop_ctx: "stop_step\<^sup>*\<^sup>* serving s \<Longrightarrow> so_phase s \<noteq> Serving \<Longrightarrow> so_ctxDone s"
proof (induction rule: rtranclp_induct)
  case (step s s')
  then show ?case by (auto elim!: stop_step.cases)
qed (simp add: serving_def)

lemma running_requests: "stop_step\<^sup>*\<^sup>* serving (serving\<lparr>so_requests := n\<rparr>)"
proof (induction n)
  case (Suc n)
  have "stop_step (serving\<lparr>so_requests := n\<rparr>) (serving\<lparr>so_requests := Suc n\<rparr>)"
    using request_arrives [of "serving\<lparr>so_requests := n\<rparr>"] by (simp add: serving_def)
  then show ?case using Suc by simp
qed (simp add: serving_def)

theorem stop_ignores_requests:
  "(stop_step\<^sup>*\<^sup>* serving s \<and> so_phase s = ListenersStopped \<longrightarrow> stop_step s (s\<lparr>so_phase := ServersStopped\<rparr>)) \<and>
    stop_step\<^sup>*\<^sup>* serving \<lparr>so_phase = HandlersStopped, so_ctxDone = True, so_requests = n\<rparr>"
proof
  show "stop_step\<^sup>*\<^sup>* serving s \<and> so_phase s = ListenersStopped \<longrightarrow> stop_step s (s\<lparr>so_phase := ServersStopped\<rparr>)"
    using stop_ctx [of s] shuts_down [of s] by auto
  have "stop_step (serving\<lparr>so_requests := n\<rparr>) \<lparr>so_phase = ListenersStopped, so_ctxDone = True, so_requests = n\<rparr>"
    using stops_listeners [of "serving\<lparr>so_requests := n\<rparr>"] by (simp add: serving_def)
  moreover have "stop_step \<lparr>so_phase = ListenersStopped, so_ctxDone = True, so_requests = n\<rparr>
      \<lparr>so_phase = ServersStopped, so_ctxDone = True, so_requests = n\<rparr>"
    using shuts_down [of "\<lparr>so_phase = ListenersStopped, so_ctxDone = True, so_requests = n\<rparr>"] by simp
  moreover have "stop_step \<lparr>so_phase = ServersStopped, so_ctxDone = True, so_requests = n\<rparr>
      \<lparr>so_phase = HandlersStopped, so_ctxDone = True, so_requests = n\<rparr>"
    using stops_handlers [of "\<lparr>so_phase = ServersStopped, so_ctxDone = True, so_requests = n\<rparr>"] by simp
  ultimately show "stop_step\<^sup>*\<^sup>* serving \<lparr>so_phase = HandlersStopped, so_ctxDone = True, so_requests = n\<rparr>"
    using running_requests [of n] by (meson rtranclp.rtrancl_into_rtrancl)
qed

end
