(* ===== verification/Tcp_Server.thy ===== *)
theory Tcp_Server
  imports Tcp_Relay
begin

text \<open>
  A server of the TCP protocol: \<open>Start\<close>, \<open>listen\<close>, \<open>handleConnection\<close>, \<open>registerConnection\<close> and
  \<open>Stop\<close> of \<open>src/pkg/protocols/tcp/protocol.go\<close> with \<open>Stop\<close> and \<open>Fatal\<close> of
  \<open>src/pkg/boulevard/server.go\<close>, as a step relation that interleaves the goroutines of the
  listeners, the two goroutines of every connection (\<open>relay_step\<close>) and the goroutine that
  stops the server.
\<close>

section \<open>The state of a server\<close>

text \<open>A goroutine of \<open>listen\<close>: in \<open>Accept\<close>, in \<open>handleConnection\<close> with a connection of this remote
  address, in \<open>Fatal\<close>, or at its end.\<close>

datatype listen_thread = AtAccept | Connecting "string option" | AtFatal | Finished

text \<open>The goroutine of \<open>Stop\<close>: not called yet, about to stop the listener of this index, in \<open>Wait\<close>
  of the wait group, and returned.\<close>

datatype server_phase = Accepting | StoppingListeners nat | Waiting | Stopped

text \<open>
  \<open>srv_sockets\<close>: whether the socket of a listener is open; \<open>srv_relays\<close>: the connections, also
  those that have ended; those that are in the table of the protocol are \<open>registered\<close>;
  \<open>srv_wg\<close>: the counter of the wait group; \<open>srv_errors\<close>: errors reported to the service;
  \<open>srv_leaked\<close>: connections neither relayed nor closed.
\<close>

record tcp_server =
  srv_sockets :: "bool list"
  srv_threads :: "listen_thread list"
  srv_relays :: "relay list"
  srv_phase :: server_phase
  srv_wg :: nat
  srv_errors :: nat
  srv_leaked :: nat

definition TcpProtocol_Start :: "nat \<Rightarrow> tcp_server" where
  "TcpProtocol_Start n = \<lparr>srv_sockets = replicate n True, srv_threads = replicate n AtAccept, srv_relays = [],
     srv_phase = Accepting, srv_wg = n, srv_errors = 0, srv_leaked = 0\<rparr>"

definition listen_at :: "nat \<Rightarrow> listen_thread \<Rightarrow> tcp_server \<Rightarrow> tcp_server" where
  "listen_at i t s = s\<lparr>srv_threads := (srv_threads s)[i := t]\<rparr>"

text \<open>A new connection enters the table, and its two goroutines are started.\<close>

definition registerConnection :: "relay \<Rightarrow> tcp_server \<Rightarrow> tcp_server" where
  "registerConnection r s = s\<lparr>srv_relays := srv_relays s @ [r], srv_wg := srv_wg s + 2\<rparr>"

fun accepted_connection :: "accepted \<Rightarrow> tcp_server \<Rightarrow> tcp_server" where
  "accepted_connection NeitherClosedNorServed s = s\<lparr>srv_leaked := srv_leaked s + 1\<rparr>"
| "accepted_connection ClosedAtOnce s = s"
| "accepted_connection (Relayed r) s = registerConnection r s"

definition wg_Done :: "nat \<Rightarrow> tcp_server \<Rightarrow> tcp_server" where
  "wg_Done k s = s\<lparr>srv_wg := srv_wg s - k\<rparr>"

text \<open>The goroutines of a connection that have not returned.\<close>

definition running :: "relay \<Rightarrow> nat" where
  "running r = of_bool (thread_at r Client \<noteq> Returned) + of_bool (thread_at r Upstream \<noteq> Returned)"

definition moves :: "relay \<Rightarrow> relay \<Rightarrow> bool" where
  "moves r r' \<longleftrightarrow> thread_at r' \<noteq> thread_at r \<or> crashed r'"

definition Stop_listener :: "nat \<Rightarrow> tcp_server \<Rightarrow> tcp_server" where
  "Stop_listener k s = s\<lparr>srv_sockets := (srv_sockets s)[k := False], srv_phase := StoppingListeners (Suc k)\<rparr>"

definition Close_connections :: "tcp_server \<Rightarrow> tcp_server" where
  "Close_connections s = s\<lparr>srv_relays := TcpProtocol_Stop (srv_relays s), srv_phase := Waiting\<rparr>"

definition up :: "tcp_server \<Rightarrow> bool" where
  "up s \<longleftrightarrow> (\<forall>r \<in> set (srv_relays s). \<not> crashed r)"

section \<open>Steps\<close>

text \<open>
  A goroutine that calls a method of a \<open>nil\<close> connection ends the program: only a server that is
  \<open>up\<close> takes steps. \<open>Accept\<close> fails when the socket is closed, and may fail at any time. The
  remote address of a connection and the outcome of the dial come from outside. A step of a
  connection is one of its goroutines, not \<open>stop_closes\<close>, which is \<open>close_connections\<close> here.
\<close>

inductive tcp_step :: "(side \<Rightarrow> nat) \<Rightarrow> tcp_server \<Rightarrow> tcp_server \<Rightarrow> bool" for bufs :: "side \<Rightarrow> nat" where
  accept: "\<lbrakk>up s; i < length (srv_threads s); srv_threads s ! i = AtAccept; srv_sockets s ! i\<rbrakk> \<Longrightarrow>
    tcp_step bufs s (listen_at i (Connecting remote) s)"
| accept_error: "\<lbrakk>up s; i < length (srv_threads s); srv_threads s ! i = AtAccept\<rbrakk> \<Longrightarrow>
    tcp_step bufs s (listen_at i AtFatal s)"
| handle_connection: "\<lbrakk>up s; i < length (srv_threads s); srv_threads s ! i = Connecting remote\<rbrakk> \<Longrightarrow>
    tcp_step bufs s (listen_at i AtAccept (accepted_connection (handleConnection remote dialed) s))"
| fatal_reported: "\<lbrakk>up s; i < length (srv_threads s); srv_threads s ! i = AtFatal\<rbrakk> \<Longrightarrow>
    tcp_step bufs s (listen_at i Finished (wg_Done 1 s)\<lparr>srv_errors := srv_errors s + 1\<rparr>)"
| fatal_stopped: "\<lbrakk>up s; i < length (srv_threads s); srv_threads s ! i = AtFatal; srv_phase s \<noteq> Accepting\<rbrakk> \<Longrightarrow>
    tcp_step bufs s (listen_at i Finished (wg_Done 1 s))"
| connection: "\<lbrakk>up s; j < length (srv_relays s); relay_step bufs (srv_relays s ! j) r; moves (srv_relays s ! j) r\<rbrakk> \<Longrightarrow>
    tcp_step bufs s (wg_Done (running (srv_relays s ! j) - running r) s\<lparr>srv_relays := (srv_relays s)[j := r]\<rparr>)"
| stop: "\<lbrakk>up s; srv_phase s = Accepting\<rbrakk> \<Longrightarrow> tcp_step bufs s (s\<lparr>srv_phase := StoppingListeners 0\<rparr>)"
| stop_listener: "\<lbrakk>up s; srv_phase s = StoppingListeners k; k < length (srv_sockets s)\<rbrakk> \<Longrightarrow>
    tcp_step bufs s (Stop_listener k s)"
| close_connections: "\<lbrakk>up s; srv_phase s = StoppingListeners k; k = length (srv_sockets s)\<rbrakk> \<Longrightarrow>
    tcp_step bufs s (Close_connections s)"
| wait_returns: "\<lbrakk>up s; srv_phase s = Waiting; srv_wg s = 0\<rbrakk> \<Longrightarrow> tcp_step bufs s (s\<lparr>srv_phase := Stopped\<rparr>)"

abbreviation tcp_reaches :: "(side \<Rightarrow> nat) \<Rightarrow> nat \<Rightarrow> tcp_server \<Rightarrow> bool" where
  "tcp_reaches bufs n s \<equiv> (tcp_step bufs)\<^sup>*\<^sup>* (TcpProtocol_Start n) s"

lemma server_simps [simp]:
  "srv_sockets (listen_at i t s) = srv_sockets s" "srv_threads (listen_at i t s) = (srv_threads s)[i := t]"
  "srv_relays (listen_at i t s) = srv_relays s" "srv_phase (listen_at i t s) = srv_phase s"
  "srv_wg (listen_at i t s) = srv_wg s"
  "srv_sockets (wg_Done k s) = srv_sockets s" "srv_threads (wg_Done k s) = srv_threads s"
  "srv_relays (wg_Done k s) = srv_relays s" "srv_phase (wg_Done k s) = srv_phase s"
  "srv_wg (wg_Done k s) = srv_wg s - k"
  "srv_sockets (registerConnection r s) = srv_sockets s" "srv_threads (registerConnection r s) = srv_threads s"
  "srv_relays (registerConnection r s) = srv_relays s @ [r]" "srv_phase (registerConnection r s) = srv_phase s"
  "srv_wg (registerConnection r s) = srv_wg s + 2"
  "srv_sockets (Stop_listener k s) = (srv_sockets s)[k := False]" "srv_threads (Stop_listener k s) = srv_threads s"
  "srv_relays (Stop_listener k s) = srv_relays s" "srv_phase (Stop_listener k s) = StoppingListeners (Suc k)"
  "srv_wg (Stop_listener k s) = srv_wg s"
  "srv_sockets (Close_connections s) = srv_sockets s" "srv_threads (Close_connections s) = srv_threads s"
  "srv_relays (Close_connections s) = TcpProtocol_Stop (srv_relays s)" "srv_phase (Close_connections s) = Waiting"
  "srv_wg (Close_connections s) = srv_wg s"
  by (simp_all add: listen_at_def wg_Done_def registerConnection_def Stop_listener_def Close_connections_def)

lemma accepted_simps [simp]:
  "srv_sockets (accepted_connection a s) = srv_sockets s" "srv_threads (accepted_connection a s) = srv_threads s"
  "srv_phase (accepted_connection a s) = srv_phase s"
  by (cases a; simp)+

section \<open>Invariants\<close>

definition live_listeners :: "tcp_server \<Rightarrow> nat" where
  "live_listeners s = sum_list (map (\<lambda>t. of_bool (t \<noteq> Finished)) (srv_threads s))"

definition live_relays :: "tcp_server \<Rightarrow> nat" where
  "live_relays s = sum_list (map running (srv_relays s))"

fun stopped_below :: "server_phase \<Rightarrow> nat \<Rightarrow> nat" where
  "stopped_below Accepting n = 0"
| "stopped_below (StoppingListeners k) n = k"
| "stopped_below _ n = n"

definition relay_reachable :: "(side \<Rightarrow> nat) \<Rightarrow> relay \<Rightarrow> bool" where
  "relay_reachable bufs r \<longleftrightarrow> (\<exists>input. (relay_step bufs)\<^sup>*\<^sup>* (relay_start input) r)"

definition tcp_inv :: "(side \<Rightarrow> nat) \<Rightarrow> nat \<Rightarrow> tcp_server \<Rightarrow> bool" where
  "tcp_inv bufs n s \<longleftrightarrow> length (srv_sockets s) = n \<and> length (srv_threads s) = n \<and>
     srv_wg s = live_listeners s + live_relays s \<and>
     stopped_below (srv_phase s) n \<le> n \<and> (\<forall>i < stopped_below (srv_phase s) n. \<not> srv_sockets s ! i) \<and>
     (\<forall>r \<in> set (srv_relays s). relay_reachable bufs r)"

lemma sum_list_map_update:
  fixes f :: "'a \<Rightarrow> nat"
  assumes "i < length xs"
  shows "sum_list (map f (xs[i := x])) + f (xs ! i) = sum_list (map f xs) + f x"
  using assms by (induction xs arbitrary: i) (auto split: nat.splits)

lemma sum_list_map_ge: "i < length xs \<Longrightarrow> f (xs ! i) \<le> sum_list (map f xs)" for f :: "'a \<Rightarrow> nat"
  by (simp add: member_le_sum_list)

lemma live_listeners_at:
  assumes "i < length (srv_threads s)" "srv_threads s ! i \<noteq> Finished"
  shows "live_listeners (listen_at i t s) = (if t = Finished then live_listeners s - 1 else live_listeners s)"
    and "1 \<le> live_listeners s"
  using sum_list_map_update [of i "srv_threads s" "\<lambda>t. of_bool (t \<noteq> Finished)" t]
    sum_list_map_ge [of i "srv_threads s" "\<lambda>t. of_bool (t \<noteq> Finished)"] assms
  by (auto simp: live_listeners_def)

lemma running_start [simp]: "running (relay_start input) = 2"
  by (simp add: running_def relay_start_def)

lemma running_mono: "relay_step bufs r r' \<Longrightarrow> running r' \<le> running r"
  by (induction rule: relay_step.induct) (auto simp: running_def)

lemma relay_start_reachable: "relay_reachable bufs (relay_start input)"
  unfolding relay_reachable_def by blast

lemma relay_step_reachable: "relay_reachable bufs r \<Longrightarrow> relay_step bufs r r' \<Longrightarrow> relay_reachable bufs r'"
  unfolding relay_reachable_def by (meson rtranclp.rtrancl_into_rtrancl)

lemma Relay_Close_reachable:
  assumes "relay_reachable bufs r" "registered r" "\<not> crashed r"
  shows "relay_reachable bufs (Relay_Close r)"
proof (cases "\<exists>s. is_open r s")
  case True
  then show ?thesis using assms stop_closes [of r _ bufs] relay_step_reachable by blast
next
  case False
  then have "Relay_Close r = r" by (auto simp: Relay_Close_def fun_eq_iff intro!: relay.equality)
  then show ?thesis using assms by simp
qed

lemma TcpProtocol_Stop_reachable:
  "\<lbrakk>\<forall>r \<in> set rs. relay_reachable bufs r; \<forall>r \<in> set rs. \<not> crashed r; r' \<in> set (TcpProtocol_Stop rs)\<rbrakk> \<Longrightarrow>
    relay_reachable bufs r'"
  by (auto simp: TcpProtocol_Stop_def Relay_Close_reachable)

lemma running_Close [simp]: "running (Relay_Close r) = running r"
  by (simp add: running_def)

lemma live_relays_Stop [simp]: "map running (TcpProtocol_Stop rs) = map running rs"
  by (simp add: TcpProtocol_Stop_def)

lemma handleConnection_relayed: "handleConnection remote dialed = Relayed r \<Longrightarrow> \<exists>input. r = relay_start input"
  by (auto simp: handleConnection_def split: sum.splits option.splits)

lemma tcp_inv_start: "tcp_inv bufs n (TcpProtocol_Start n)"
  by (simp add: tcp_inv_def TcpProtocol_Start_def live_listeners_def live_relays_def sum_list_replicate)

lemma live_unchanged [simp]:
  "live_listeners (wg_Done k s) = live_listeners s" "live_relays (wg_Done k s) = live_relays s"
  "live_relays (listen_at i t s) = live_relays s" "live_listeners (Stop_listener k s) = live_listeners s"
  "live_relays (Stop_listener k s) = live_relays s" "live_listeners (Close_connections s) = live_listeners s"
  "live_relays (Close_connections s) = live_relays s"
  "live_listeners (s\<lparr>srv_errors := e\<rparr>) = live_listeners s" "live_relays (s\<lparr>srv_errors := e\<rparr>) = live_relays s"
  "live_listeners (s\<lparr>srv_phase := p\<rparr>) = live_listeners s" "live_relays (s\<lparr>srv_phase := p\<rparr>) = live_relays s"
  "live_listeners (s\<lparr>srv_relays := rs\<rparr>) = live_listeners s"
  "live_listeners (accepted_connection a s) = live_listeners s"
  "live_listeners (registerConnection r s) = live_listeners s"
  "live_relays (registerConnection r s) = live_relays s + running r"
  by (simp_all add: live_listeners_def live_relays_def)

lemma tcp_inv_handle:
  assumes "tcp_inv bufs n s"
  shows "tcp_inv bufs n (accepted_connection (handleConnection remote dialed) s)"
proof (cases "handleConnection remote dialed")
  case (Relayed r)
  then obtain input where "r = relay_start input" using handleConnection_relayed by blast
  then show ?thesis using assms Relayed
    by (auto simp: tcp_inv_def relay_start_reachable)
qed (use assms in \<open>auto simp: tcp_inv_def live_listeners_def live_relays_def\<close>)

lemma tcp_inv_listen:
  assumes "tcp_inv bufs n s" "i < length (srv_threads s)" "srv_threads s ! i \<noteq> Finished" "t \<noteq> Finished"
  shows "tcp_inv bufs n (listen_at i t s)"
  using assms live_listeners_at(1) [of i s t] by (simp add: tcp_inv_def)

lemma tcp_inv_listen_done:
  assumes "tcp_inv bufs n s" "i < length (srv_threads s)" "srv_threads s ! i \<noteq> Finished"
  shows "tcp_inv bufs n (listen_at i Finished (wg_Done 1 s))"
  using assms live_listeners_at(1) [of i "wg_Done 1 s" Finished] live_listeners_at(2) [of i s] by (simp add: tcp_inv_def)

lemma tcp_inv_connection:
  assumes "tcp_inv bufs n s" "j < length (srv_relays s)" "relay_step bufs (srv_relays s ! j) r"
  shows "tcp_inv bufs n (wg_Done (running (srv_relays s ! j) - running r) s\<lparr>srv_relays := (srv_relays s)[j := r]\<rparr>)"
proof -
  let ?r = "srv_relays s ! j"
  let ?s = "wg_Done (running ?r - running r) s\<lparr>srv_relays := (srv_relays s)[j := r]\<rparr>"
  have "relay_reachable bufs r"
    using assms relay_step_reachable [of bufs ?r r] by (simp add: tcp_inv_def)
  moreover have "live_relays ?s + running ?r = live_relays s + running r"
    using sum_list_map_update [OF assms(2), of running r] by (simp add: live_relays_def)
  moreover have "running ?r \<le> live_relays s"
    using sum_list_map_ge [OF assms(2), of running] by (simp add: live_relays_def)
  moreover note running_mono [OF assms(3)]
  ultimately show ?thesis using assms(1)
    by (auto simp: tcp_inv_def dest!: subsetD [OF set_update_subset_insert])
qed

lemma tcp_inv_step: "tcp_step bufs s s' \<Longrightarrow> tcp_inv bufs n s \<Longrightarrow> tcp_inv bufs n s'"
proof (induction rule: tcp_step.induct)
  case (handle_connection s i remote dialed)
  then show ?case using tcp_inv_listen tcp_inv_handle by simp
next
  case (fatal_reported s i)
  then have "tcp_inv bufs n (listen_at i Finished (wg_Done 1 s))" using tcp_inv_listen_done by simp
  then show ?case by (simp add: tcp_inv_def)
next
  case (fatal_stopped s i)
  then show ?case using tcp_inv_listen_done by simp
next
  case (stop_listener s k)
  then show ?case by (auto simp: tcp_inv_def nth_list_update)
next
  case (close_connections s k)
  then show ?case using TcpProtocol_Stop_reachable [of "srv_relays s" bufs] by (auto simp: tcp_inv_def up_def)
qed (auto simp: tcp_inv_listen tcp_inv_connection, auto simp: tcp_inv_def)

lemma tcp_inv_reachable: "tcp_reaches bufs n s \<Longrightarrow> tcp_inv bufs n s"
  by (induction rule: rtranclp_induct) (simp_all add: tcp_inv_start tcp_inv_step)

section \<open>After the stop\<close>

text \<open>Once \<open>Wait\<close> has returned, no goroutine is left that could take a step.\<close>

lemma not_running: "running r = 0 \<Longrightarrow> thread_at r s = Returned"
  by (cases s) (auto simp: running_def)

lemma moves_running: "relay_step bufs r r' \<Longrightarrow> moves r r' \<Longrightarrow> 1 \<le> running r"
proof (induction rule: relay_step.induct)
  case (stop_closes r s)
  then show ?case by (simp add: moves_def)
qed (rule ccontr, simp add: not_running)+

lemma no_live_listener: "live_listeners s = 0 \<longleftrightarrow> (\<forall>t \<in> set (srv_threads s). t = Finished)"
  by (auto simp: live_listeners_def sum_list_eq_0_iff)

lemma no_live_relay: "live_relays s = 0 \<longleftrightarrow> (\<forall>r \<in> set (srv_relays s). \<forall>sd. thread_at r sd = Returned)"
proof -
  have "running r = 0 \<longleftrightarrow> (\<forall>sd. thread_at r sd = Returned)" for r
    by (auto simp: not_running) (simp add: running_def)
  then show ?thesis by (auto simp: live_relays_def sum_list_eq_0_iff)
qed

definition stop_inv :: "(side \<Rightarrow> nat) \<Rightarrow> nat \<Rightarrow> tcp_server \<Rightarrow> bool" where
  "stop_inv bufs n s \<longleftrightarrow> tcp_inv bufs n s \<and> (srv_phase s = Stopped \<longrightarrow> srv_wg s = 0)"

lemma stopped_listener:
  "\<lbrakk>stop_inv bufs n s; i < length (srv_threads s); srv_threads s ! i \<noteq> Finished\<rbrakk> \<Longrightarrow> srv_phase s \<noteq> Stopped"
  using live_listeners_at(2) [of i s] by (auto simp: stop_inv_def tcp_inv_def)

lemma stopped_connection:
  assumes "stop_inv bufs n s" "j < length (srv_relays s)" "relay_step bufs (srv_relays s ! j) r" "moves (srv_relays s ! j) r"
  shows "srv_phase s \<noteq> Stopped"
  using moves_running [OF assms(3,4)] sum_list_map_ge [OF assms(2), of running] assms(1)
  by (auto simp: stop_inv_def tcp_inv_def live_relays_def)

lemma stop_inv_step:
  assumes "tcp_step bufs s s'" "stop_inv bufs n s"
  shows "stop_inv bufs n s'"
proof -
  have "tcp_inv bufs n s'" using assms tcp_inv_step by (simp add: stop_inv_def)
  moreover have "srv_phase s' = Stopped \<longrightarrow> srv_wg s' = 0"
    using assms
    by (cases rule: tcp_step.cases) (simp_all add: stopped_listener stopped_connection)
  ultimately show ?thesis by (simp add: stop_inv_def)
qed

lemma stop_inv_reachable: "tcp_reaches bufs n s \<Longrightarrow> stop_inv bufs n s"
proof (induction rule: rtranclp_induct)
  case base
  then show ?case by (simp add: stop_inv_def tcp_inv_start) (simp add: TcpProtocol_Start_def)
qed (simp add: stop_inv_step)

section \<open>The stop ends\<close>

fun is_connecting :: "listen_thread \<Rightarrow> bool" where
  "is_connecting (Connecting _) = True"
| "is_connecting _ = False"

definition settling :: "(side \<Rightarrow> nat) \<Rightarrow> nat \<Rightarrow> tcp_server \<Rightarrow> bool" where
  "settling bufs n s \<longleftrightarrow> stop_inv bufs n s \<and> srv_phase s \<in> {Waiting, Stopped} \<and>
     list_all (\<lambda>t. \<not> is_connecting t) (srv_threads s) \<and> list_all (\<lambda>r. \<forall>sd. \<not> is_open r sd) (srv_relays s)"

fun listen_left :: "listen_thread \<Rightarrow> nat" where
  "listen_left AtAccept = 2"
| "listen_left (Connecting _) = 3"
| "listen_left AtFatal = 1"
| "listen_left Finished = 0"

definition server_left :: "tcp_server \<Rightarrow> nat" where
  "server_left s = of_bool (srv_phase s \<noteq> Stopped) + sum_list (map listen_left (srv_threads s)) +
     sum_list (map steps_left (srv_relays s))"

lemma closed_step_moves: "relay_step bufs r r' \<Longrightarrow> \<forall>sd. \<not> is_open r sd \<Longrightarrow> moves r r'"
  by (cases rule: relay_step.cases, assumption) (auto simp: moves_def fun_upd_idem_iff)

lemma list_all_update: "list_all P xs \<Longrightarrow> P x \<Longrightarrow> list_all P (xs[i := x])"
  by (auto simp: list_all_iff dest!: subsetD [OF set_update_subset_insert])

lemma server_left_listen:
  assumes "i < length (srv_threads s)" "listen_left t < listen_left (srv_threads s ! i)"
    "srv_threads s' = (srv_threads s)[i := t]" "srv_relays s' = srv_relays s" "srv_phase s' = srv_phase s"
  shows "server_left s' < server_left s"
  using sum_list_map_update [OF assms(1), of listen_left t] assms by (simp add: server_left_def)

lemma settling_step:
  assumes "tcp_step bufs s s'" "settling bufs n s"
  shows "settling bufs n s' \<and> server_left s' < server_left s"
proof -
  have inv: "stop_inv bufs n s'" using assms stop_inv_step by (simp add: settling_def)
  show ?thesis using assms(1)
  proof (cases rule: tcp_step.cases)
    case (accept i remote)
    then show ?thesis using assms(2) by (auto simp: settling_def stop_inv_def tcp_inv_def)
  next
    case (accept_error i)
    then show ?thesis using assms(2) inv server_left_listen [of i s AtFatal s']
      by (auto simp: settling_def list_all_update)
  next
    case (handle_connection i remote dialed)
    then show ?thesis using assms(2) by (auto simp: settling_def list_all_length)
  next
    case (fatal_reported i)
    then show ?thesis using assms(2) inv server_left_listen [of i s Finished s']
      by (auto simp: settling_def list_all_update)
  next
    case (fatal_stopped i)
    then show ?thesis using assms(2) inv server_left_listen [of i s Finished s']
      by (auto simp: settling_def list_all_update)
  next
    case (connection j r)
    then have "\<forall>sd. \<not> is_open (srv_relays s ! j) sd" using assms(2) by (simp add: settling_def list_all_length)
    then have "\<forall>sd. \<not> is_open r sd" "steps_left r < steps_left (srv_relays s ! j)"
      using closed_step connection by blast+
    moreover note sum_list_map_update [OF connection(3), of steps_left r]
    ultimately show ?thesis using assms(2) inv connection
      by (auto simp: settling_def list_all_update server_left_def)
  next
    case wait_returns
    then show ?thesis using assms(2) inv by (auto simp: settling_def server_left_def)
  qed (use assms(2) in \<open>auto simp: settling_def\<close>)
qed

interpretation stopping_server: draining "tcp_step bufs" "settling bufs n" server_left for bufs n
  by unfold_locales (use settling_step in blast)+

lemma settling_progress:
  assumes "settling bufs n s" "up s" "\<nexists>s'. tcp_step bufs s s'"
  shows "srv_phase s = Stopped"
proof (rule ccontr)
  assume "srv_phase s \<noteq> Stopped"
  then have phase: "srv_phase s = Waiting" using assms(1) by (auto simp: settling_def)
  have "srv_threads s ! i = Finished" if "i < length (srv_threads s)" for i
  proof (cases "srv_threads s ! i")
    case (Connecting remote)
    then show ?thesis using that assms(1) by (auto simp: settling_def list_all_length)
  next
    case AtAccept
    then show ?thesis using that assms accept_error by blast
  next
    case AtFatal
    then show ?thesis using that assms phase fatal_reported by blast
  qed
  then have "live_listeners s = 0" by (auto simp: no_live_listener in_set_conv_nth)
  moreover have "thread_at r sd = Returned" if r: "r \<in> set (srv_relays s)" for r sd
  proof (rule ccontr)
    assume "thread_at r sd \<noteq> Returned"
    moreover have "\<forall>sd. \<not> is_open r sd" "\<not> crashed r"
      using r assms by (auto simp: settling_def list_all_iff up_def)
    ultimately obtain r' where "relay_step bufs r r'" "moves r r'"
      using closed_progress closed_step_moves by blast
    moreover obtain j where "j < length (srv_relays s)" "srv_relays s ! j = r" using r by (auto simp: in_set_conv_nth)
    ultimately show False using assms connection by blast
  qed
  then have "live_relays s = 0" by (simp add: no_live_relay)
  ultimately have "srv_wg s = 0" using assms(1) by (simp add: settling_def stop_inv_def tcp_inv_def)
  then show False using assms phase wait_returns by blast
qed

section \<open>Properties\<close>

lemma steps_left_sum: "sum_list (map steps_left rs) \<le> 7 * length rs"
proof (induction rs)
  case (Cons r rs)
  then show ?case using steps_left_le [of r] by simp
qed simp

lemma listen_left_sum: "list_all (\<lambda>t. \<not> is_connecting t) ts \<Longrightarrow> sum_list (map listen_left ts) \<le> 2 * length ts"
proof (induction ts)
  case (Cons t ts)
  then show ?case by (cases t) auto
qed simp

lemma server_left_le:
  assumes "settling bufs n s"
  shows "server_left s \<le> 1 + 2 * n + 7 * length (srv_relays s)"
  using assms listen_left_sum [of "srv_threads s"] steps_left_sum [of "srv_relays s"]
  by (auto simp: server_left_def settling_def stop_inv_def tcp_inv_def)

lemma unregistered_closed_step:
  "relay_step bufs r r' \<Longrightarrow> registered r \<or> (\<forall>sd. \<not> is_open r sd) \<Longrightarrow> registered r' \<or> (\<forall>sd. \<not> is_open r' sd)"
  by (induction rule: relay_step.induct) simp_all

lemma unregistered_closed:
  assumes "relay_reachable bufs r" "\<not> registered r"
  shows "\<not> is_open r sd"
proof -
  obtain input where "(relay_step bufs)\<^sup>*\<^sup>* (relay_start input) r" using assms(1) by (auto simp: relay_reachable_def)
  then have "registered r \<or> (\<forall>sd. \<not> is_open r sd)"
  proof (induction rule: rtranclp_induct)
    case base
    then show ?case by (simp add: relay_start_def)
  next
    case (step r r')
    then show ?case using unregistered_closed_step by blast
  qed
  then show ?thesis using assms(2) by blast
qed

text \<open>A server of one listener and no connection, once its socket is closed.\<close>

definition idle_stopping :: tcp_server where
  "idle_stopping = Stop_listener 0 (TcpProtocol_Start 1\<lparr>srv_phase := StoppingListeners 0\<rparr>)"

lemma idle_stopping_simps [simp]:
  "srv_sockets idle_stopping = [False]" "srv_threads idle_stopping = [AtAccept]" "srv_relays idle_stopping = []"
  "srv_phase idle_stopping = StoppingListeners 1" "srv_wg idle_stopping = 1" "up idle_stopping"
  by (simp_all add: idle_stopping_def TcpProtocol_Start_def Stop_listener_def up_def)

lemma idle_stopping_reached: "tcp_reaches bufs 1 idle_stopping"
proof -
  let ?s = "TcpProtocol_Start 1\<lparr>srv_phase := StoppingListeners 0\<rparr>"
  have "tcp_step bufs (TcpProtocol_Start 1) ?s" by (rule stop) (simp_all add: TcpProtocol_Start_def up_def)
  moreover have "tcp_step bufs ?s idle_stopping"
    unfolding idle_stopping_def by (rule stop_listener) (simp_all add: TcpProtocol_Start_def up_def)
  ultimately show ?thesis by (meson rtranclp.rtrancl_into_rtrancl rtranclp.rtrancl_refl)
qed

lemma idle_stopping_closes: "tcp_step bufs idle_stopping (Close_connections idle_stopping)"
  by (rule close_connections [where k = 1]) simp_all

lemma idle_stop_steps: "\<exists>s. (tcp_step bufs ^^ 3) (Close_connections idle_stopping) s \<and> srv_phase s = Stopped"
proof -
  let ?s0 = "Close_connections idle_stopping"
  let ?s1 = "listen_at 0 AtFatal ?s0"
  let ?s2 = "listen_at 0 Finished (wg_Done 1 ?s1)"
  let ?s3 = "?s2\<lparr>srv_phase := Stopped\<rparr>"
  have up: "up ?s0" "up ?s1" "up ?s2" by (simp_all add: up_def TcpProtocol_Stop_def)
  have "tcp_step bufs ?s0 ?s1" using up by (intro accept_error) simp_all
  moreover have "tcp_step bufs ?s1 ?s2" using up by (intro fatal_stopped) simp_all
  moreover have "tcp_step bufs ?s2 ?s3" using up by (intro wait_returns) simp_all
  ultimately have "(tcp_step bufs ^^ 3) ?s0 ?s3" by (auto simp: numeral_3_eq_3)
  then show ?thesis by (intro exI [of _ ?s3]) simp
qed



text \<open>C37: \<open>Stop\<close> returns: when no connection is being set up while the connections of the table are closed, the
  server takes at most one step, two for every listener and seven for every connection, and
  where it has none left \<open>Stop\<close> has returned, or a goroutine has called a method of a connection
  that is \<open>nil\<close>, which ends the program.\<close>

theorem tcp_stop_returns:
  assumes "tcp_reaches bufs n s" "up s" "srv_phase s = StoppingListeners n"
    and "list_all (\<lambda>t. \<not> is_connecting t) (srv_threads s)"
  shows "\<forall>k s'. (tcp_step bufs ^^ k) (Close_connections s) s' \<longrightarrow>
      k \<le> 1 + 2 * n + 7 * length (srv_relays s) \<and>
      ((\<nexists>s''. tcp_step bufs s' s'') \<longrightarrow> srv_phase s' = Stopped \<or> \<not> up s')"
proof (intro allI impI)
  fix k s' assume steps: "(tcp_step bufs ^^ k) (Close_connections s) s'"
  have inv: "stop_inv bufs n s" using assms(1) by (rule stop_inv_reachable)
  then have "tcp_step bufs s (Close_connections s)"
    using assms by (intro close_connections) (auto simp: stop_inv_def tcp_inv_def)
  then have "stop_inv bufs n (Close_connections s)" using stop_inv_step inv by blast
  moreover have "\<not> is_open r sd" if "r \<in> set (TcpProtocol_Stop (srv_relays s))" for r sd
    using that inv unregistered_closed by (auto simp: TcpProtocol_Stop_def stop_inv_def tcp_inv_def)
  ultimately have set: "settling bufs n (Close_connections s)"
    using assms(4) by (auto simp: settling_def list_all_iff)
  note d = stopping_server.drained [OF steps set]
  have "length (TcpProtocol_Stop (srv_relays s)) = length (srv_relays s)" by (simp add: TcpProtocol_Stop_def)
  then have "k \<le> 1 + 2 * n + 7 * length (srv_relays s)" using d server_left_le [OF set] by simp
  moreover have "srv_phase s' = Stopped \<or> \<not> up s'" if "\<nexists>s''. tcp_step bufs s' s''"
    using settling_progress [of bufs n s'] that d by blast
  ultimately show "k \<le> 1 + 2 * n + 7 * length (srv_relays s) \<and>
      ((\<nexists>s''. tcp_step bufs s' s'') \<longrightarrow> srv_phase s' = Stopped \<or> \<not> up s')" by blast
qed

lemma tcp_stop_returns_witness:
  "\<exists>s. (tcp_step (\<lambda>_. 1) ^^ 3) (Close_connections idle_stopping) s \<and> srv_phase s = Stopped \<and>
    (3 :: nat) \<le> 1 + 2 * 1 + 7 * length (srv_relays idle_stopping)"
proof -
  obtain s where s: "(tcp_step (\<lambda>_. 1) ^^ 3) (Close_connections idle_stopping) s" "srv_phase s = Stopped"
    using idle_stop_steps by blast
  then have "(3 :: nat) \<le> 1 + 2 * 1 + 7 * length (srv_relays idle_stopping)"
    using tcp_stop_returns [OF idle_stopping_reached, of "\<lambda>_. 1", simplified] by simp
  then show ?thesis using s by blast
qed

lemma only_connection_step:
  assumes "up s" "srv_relays s = [r]" "relay_step bufs r r'" "moves r r'" "running r' = running r"
  shows "tcp_step bufs s (s\<lparr>srv_relays := [r']\<rparr>)"
  using connection [of s 0 bufs r'] assms by (simp add: wg_Done_def)

lemma idle_relay_step:
  assumes "relay_step bufs r r'" "moves r r'" "\<forall>sd. thread_at r sd = InRead \<and> incoming r sd = []"
  shows "\<exists>sd. thread_at r' sd = Aborting"
  using assms
proof (cases rule: relay_step.cases)
  case (read_error sd)
  then show ?thesis by (intro exI [of _ sd]) simp
qed (use assms in \<open>auto simp: moves_def\<close>)

definition late_relay :: relay where
  "late_relay = move Upstream InRead (move Client InRead (relay_start (\<lambda>_. [])))"

definition late_server :: tcp_server where
  "late_server = \<lparr>srv_sockets = [False], srv_threads = [Finished], srv_relays = [late_relay], srv_phase = Waiting,
     srv_wg = 2, srv_errors = 0, srv_leaked = 0\<rparr>"

lemma late_server_reached: "tcp_reaches bufs 1 late_server"
proof -
  let ?remote = "Some ''10.0.0.1:99''" and ?r0 = "relay_start (\<lambda>_. [])"
  let ?r1 = "move Client InRead ?r0"
  let ?s = "\<lambda>open t rs p w. \<lparr>srv_sockets = [open], srv_threads = [t], srv_relays = rs, srv_phase = p,
     srv_wg = w, srv_errors = 0, srv_leaked = 0\<rparr>"
  note defs = TcpProtocol_Start_def up_def listen_at_def Stop_listener_def Close_connections_def
    TcpProtocol_Stop_def registerConnection_def wg_Done_def relay_start_def
  have "\<not> isl (ConnectionRemoteAddress ?remote)" by code_simp
  then have handled: "handleConnection ?remote (Some (\<lambda>_. [])) = Relayed ?r0"
    by (auto simp: handleConnection_def split: sum.splits)
  have "tcp_step bufs (TcpProtocol_Start 1) (?s True (Connecting ?remote) [] Accepting 1)"
    using accept [of "TcpProtocol_Start 1" 0 bufs ?remote] by (simp add: defs)
  moreover have "tcp_step bufs (?s True (Connecting ?remote) [] Accepting 1) (?s True (Connecting ?remote) [] (StoppingListeners 0) 1)"
    using stop [of "?s True (Connecting ?remote) [] Accepting 1" bufs] by (simp add: defs)
  moreover have "tcp_step bufs (?s True (Connecting ?remote) [] (StoppingListeners 0) 1) (?s False (Connecting ?remote) [] (StoppingListeners 1) 1)"
    using stop_listener [of "?s True (Connecting ?remote) [] (StoppingListeners 0) 1" 0 bufs] by (simp add: defs)
  moreover have "tcp_step bufs (?s False (Connecting ?remote) [] (StoppingListeners 1) 1) (?s False (Connecting ?remote) [] Waiting 1)"
    using close_connections [of "?s False (Connecting ?remote) [] (StoppingListeners 1) 1" 1 bufs] by (simp add: defs)
  moreover have "tcp_step bufs (?s False (Connecting ?remote) [] Waiting 1) (?s False AtAccept [?r0] Waiting 3)"
    using handle_connection [of "?s False (Connecting ?remote) [] Waiting 1" 0 ?remote bufs "Some (\<lambda>_. [])"]
    unfolding handled by (simp add: defs numeral_3_eq_3)
  moreover have "tcp_step bufs (?s False AtAccept [?r0] Waiting 3) (?s False AtFatal [?r0] Waiting 3)"
    using accept_error [of "?s False AtAccept [?r0] Waiting 3" 0 bufs] by (simp add: defs)
  moreover have "tcp_step bufs (?s False AtFatal [?r0] Waiting 3) (?s False Finished [?r0] Waiting 2)"
    using fatal_stopped [of "?s False AtFatal [?r0] Waiting 3" 0 bufs] by (simp add: defs)
  moreover have "tcp_step bufs (?s False Finished [?r0] Waiting 2) (?s False Finished [?r1] Waiting 2)"
    using only_connection_step [of "?s False Finished [?r0] Waiting 2" ?r0 bufs ?r1] call_read [of ?r0 Client bufs]
    by (simp add: up_def moves_def running_def relay_start_def fun_eq_iff split: if_splits)
  moreover have "tcp_step bufs (?s False Finished [?r1] Waiting 2) late_server"
    using only_connection_step [of "?s False Finished [?r1] Waiting 2" ?r1 bufs late_relay] call_read [of ?r1 Upstream bufs]
    by (simp add: up_def moves_def running_def relay_start_def fun_eq_iff late_relay_def late_server_def)
  ultimately show ?thesis by (meson rtranclp.rtrancl_into_rtrancl rtranclp.rtrancl_refl)
qed

text \<open>That \<open>Stop\<close> returns needs the condition: a connection accepted before the listener is stopped
  and registered after the table has been closed is never closed by \<open>Stop\<close>. Here all that the
  server can do is that a read of this connection fails; as long as its two peers keep it
  open, \<open>Stop\<close> waits.\<close>

theorem tcp_stop_can_wait:
  "\<exists>s r. tcp_reaches bufs 1 s \<and> up s \<and> srv_phase s = Waiting \<and> srv_wg s = 2 \<and>
    srv_relays s = [r] \<and> registered r \<and> (\<forall>sd. is_open r sd) \<and>
    (\<forall>s'. tcp_step bufs s s' \<longrightarrow> (\<exists>r' sd. srv_relays s' = [r'] \<and> thread_at r' sd = Aborting))"
proof (rule exI [of _ late_server], rule exI [of _ late_relay], intro conjI allI impI)
  show "tcp_reaches bufs 1 late_server" by (rule late_server_reached)
  have idle: "thread_at late_relay sd = InRead \<and> incoming late_relay sd = []" for sd
    by (cases sd) (simp_all add: late_relay_def relay_start_def)
  fix s' assume "tcp_step bufs late_server s'"
  then show "\<exists>r' sd. srv_relays s' = [r'] \<and> thread_at r' sd = Aborting"
  proof (cases rule: tcp_step.cases)
    case (connection j r)
    then have "j = 0" "relay_step bufs late_relay r" "moves late_relay r" by (simp_all add: late_server_def)
    then show ?thesis using idle_relay_step [of bufs late_relay r] idle connection by (simp add: late_server_def)
  qed (simp_all add: late_server_def)
qed (simp_all add: late_server_def late_relay_def relay_start_def up_def)

end
