(* ===== verification/Network_Errors.thy ===== *)
theory Network_Errors
  imports Tcp_Relay
begin

text \<open>
  What becomes of the errors of network operations: \<open>src/pkg/netutils/errors.go\<close> and \<open>misc.go\<close>,
  \<open>src/pkg/httputils/misc.go\<close>, and \<open>abort\<close> of the two kinds of relayed connections
  (\<open>src/pkg/protocols/tcp/connection.go\<close>, \<open>src/pkg/protocols/http/tcp_connection.go\<close>). An error
  is a chain of wrappers around an error of the operating system or of the TLS library;
  \<open>errors.Is\<close> and \<open>errors.As\<close> look along the chain.
\<close>

section \<open>Errors\<close>

datatype go_error =
    IOError io_error
  | RecordHeaderError
  | OpError string go_error
  | UrlError string go_error
  | WrapError string go_error

fun chain :: "go_error \<Rightarrow> go_error list" where
  "chain (OpError op e) = OpError op e # chain e"
| "chain (UrlError op e) = UrlError op e # chain e"
| "chain (WrapError msg e) = WrapError msg e # chain e"
| "chain e = [e]"

definition errors_Is :: "go_error \<Rightarrow> go_error \<Rightarrow> bool" where
  "errors_Is e target \<longleftrightarrow> target \<in> set (chain e)"

fun as_syscall :: "go_error \<Rightarrow> errno option" where
  "as_syscall (IOError (SyscallError n)) = Some n"
| "as_syscall _ = None"

fun as_op :: "go_error \<Rightarrow> (string \<times> go_error) option" where
  "as_op (OpError op e) = Some (op, e)"
| "as_op _ = None"

fun as_url :: "go_error \<Rightarrow> go_error option" where
  "as_url (UrlError _ e) = Some e"
| "as_url _ = None"

text \<open>\<open>errors.As\<close>: the first error of the chain of this type.\<close>

definition errors_As :: "(go_error \<Rightarrow> 'a option) \<Rightarrow> go_error \<Rightarrow> 'a option" where
  "errors_As get e = (case List.map_filter get (chain e) of [] \<Rightarrow> None | x # _ \<Rightarrow> Some x)"

section \<open>Classification\<close>

definition IsSilentIOError :: "go_error \<Rightarrow> bool" where
  "IsSilentIOError e =
     (if errors_Is e (IOError EOF) \<or> errors_Is e (IOError ErrUnexpectedEOF) then True
      else if errors_Is e (IOError ErrClosed) then True
      else case errors_As as_syscall e of
        None \<Rightarrow> False
      | Some n \<Rightarrow> n = ECONNRESET \<or> n = EPIPE)"

definition IsTLSError :: "go_error \<Rightarrow> bool" where
  "IsTLSError e \<longleftrightarrow> errors_Is e RecordHeaderError"

definition IsConnectionClosedError :: "go_error \<Rightarrow> bool" where
  "IsConnectionClosedError e \<longleftrightarrow> errors_Is e (IOError EOF) \<or> errors_Is e (IOError ErrClosed)"

definition UnwrapOpError :: "go_error \<Rightarrow> string \<Rightarrow> go_error" where
  "UnwrapOpError e name = (case errors_As as_op e of
     Some (op, inner) \<Rightarrow> if op = name then inner else e
   | None \<Rightarrow> e)"

definition UnwrapUrlError :: "go_error \<Rightarrow> go_error" where
  "UnwrapUrlError e = (case errors_As as_url e of Some inner \<Rightarrow> inner | None \<Rightarrow> e)"

text \<open>The function of the same name in the HTTP package.\<close>

definition isSilentIOError :: "go_error \<Rightarrow> bool" where
  "isSilentIOError e =
     (if errors_Is e (IOError EOF) \<or> errors_Is e (IOError ErrClosed) then True
      else case errors_As as_syscall e of
        None \<Rightarrow> False
      | Some n \<Rightarrow> n = EPIPE)"

section \<open>Aborting a connection\<close>

datatype log_level = DebugLevel | ErrorLevel

definition Connection_abort :: "bool \<Rightarrow> go_error \<Rightarrow> relay \<Rightarrow> log_level \<times> relay" where
  "Connection_abort LogTLSErrors e r =
     (let silent = IsSilentIOError e;
          silent = (silent \<or> \<not> (LogTLSErrors \<and> IsTLSError e))
      in (if silent then DebugLevel else ErrorLevel, abort r))"

definition TCPConnection_abort :: "go_error \<Rightarrow> relay \<Rightarrow> log_level \<times> relay" where
  "TCPConnection_abort e r = (if isSilentIOError e then DebugLevel else ErrorLevel, abort r)"

text \<open>What the goroutines hand to \<open>abort\<close> when an operation (\<open>read\<close> or \<open>write\<close>) fails.\<close>

definition failed_operation :: "string \<Rightarrow> string \<Rightarrow> go_error \<Rightarrow> go_error" where
  "failed_operation msg name e = WrapError msg (UnwrapOpError e name)"

section \<open>Wrappers do not matter\<close>

text \<open>A classification of errors that looks through wrappers.\<close>

locale transparent =
  fixes P :: "go_error \<Rightarrow> bool"
  assumes op: "P (OpError name e) = P e"
    and url: "P (UrlError name e) = P e"
    and wrap: "P (WrapError msg e) = P e"
begin

lemma as_op_inner: "errors_As as_op e = Some (name, inner) \<Longrightarrow> P inner = P e"
  by (induction e) (auto simp: errors_As_def map_filter_simps op url wrap)

lemma as_url_inner: "errors_As as_url e = Some inner \<Longrightarrow> P inner = P e"
  by (induction e) (auto simp: errors_As_def map_filter_simps op url wrap)

lemma unwrap_op: "P (UnwrapOpError e name) = P e"
  by (auto simp: UnwrapOpError_def as_op_inner split: option.splits)

lemma unwrap_url: "P (UnwrapUrlError e) = P e"
  by (auto simp: UnwrapUrlError_def as_url_inner split: option.splits)

lemma failed: "P (failed_operation msg name e) = P e"
  by (simp add: failed_operation_def wrap unwrap_op)

end

lemmas error_defs = errors_Is_def errors_As_def map_filter_simps

interpretation silent: transparent IsSilentIOError
  by unfold_locales (simp_all add: IsSilentIOError_def error_defs)

interpretation tls: transparent IsTLSError
  by unfold_locales (simp_all add: IsTLSError_def error_defs)

interpretation closed: transparent IsConnectionClosedError
  by unfold_locales (simp_all add: IsConnectionClosedError_def error_defs)

interpretation http_silent: transparent isSilentIOError
  by unfold_locales (simp_all add: isSilentIOError_def error_defs)

section \<open>Properties\<close>

text \<open>C40: When an operation of a TCP connection fails, the connection is closed and forgotten whatever
  the error and its wrappers, and the error is reported only when it is an error of TLS and
  the reporting of those is enabled: no other failure, not even one that is not silent, is
  ever seen at the default level.\<close>

theorem connection_abort:
  assumes "Connection_abort LogTLSErrors (failed_operation msg name e) r = (level, r')"
  shows "\<not> registered r' \<and> (\<forall>sd. \<not> is_open r' sd) \<and> outgoing r' = outgoing r \<and>
    (level = ErrorLevel \<longleftrightarrow> LogTLSErrors \<and> IsTLSError e \<and> \<not> IsSilentIOError e)"
  using assms by (auto simp: Connection_abort_def Let_def silent.failed tls.failed split: if_splits)

lemma connection_abort_witness:
  "let r = Relay_Close (relay_start (\<lambda>_. []));
       e = OpError ''read'' (IOError (OtherIOError ''i/o timeout''))
   in fst (Connection_abort True (failed_operation ''cannot read connection'' ''read'' e) r) = DebugLevel \<and>
      \<not> IsSilentIOError e"
proof -
  let ?r = "Relay_Close (relay_start (\<lambda>_. []))"
  let ?e = "OpError ''read'' (IOError (OtherIOError ''i/o timeout''))"
  let ?c = "Connection_abort True (failed_operation ''cannot read connection'' ''read'' ?e) ?r"
  have "\<not> IsTLSError ?e" by (simp add: IsTLSError_def error_defs)
  then have "fst ?c \<noteq> ErrorLevel" using connection_abort [of True _ _ ?e ?r "fst ?c" "snd ?c"] by simp
  then show ?thesis by (cases "fst ?c") (simp_all add: IsSilentIOError_def error_defs)
qed

text \<open>The HTTP package has its own notion of a silent error. It is the one of \<open>netutils\<close> less a
  connection that is reset and an unexpected end of the input, which are reported as errors
  when a connection upgraded over HTTP fails and not when a TCP connection does.\<close>

theorem http_silent_errors:
  "IsSilentIOError e \<longleftrightarrow>
    isSilentIOError e \<or> errors_Is e (IOError ErrUnexpectedEOF) \<or> errors_As as_syscall e = Some ECONNRESET"
  by (auto simp: IsSilentIOError_def isSilentIOError_def split: option.splits)

end
