(* ===== verification/Templates.thy ===== *)
theory Templates
  imports Http_Status Http_Actions Clean_Path
begin

text \<open>
  The templates and the views: \<open>src/pkg/boulevard/templates.go\<close>, \<open>NewView\<close>, \<open>Load\<close>, \<open>renderText\<close>
  and \<open>renderHTML\<close> of \<open>src/pkg/protocols/http/view.go\<close>, the embedded files of
  \<open>src/pkg/protocols/http/templates.go\<close> and the creation of the actions that have views
  (\<open>action_serve.go\<close>, \<open>action_redirect.go\<close>, \<open>action_status.go\<close>). Parsing and executing a template
  are arguments (\<open>parse\<close>, \<open>exec\<close>).
\<close>

section \<open>Loading templates\<close>

text \<open>What \<open>fs.WalkDir\<close> visits, in its order: the path of an entry and what is found there.\<close>

datatype 'c fs_entry = WalkError io_error | Directory | CannotOpen io_error | CannotRead io_error | Content 'c

type_synonym 'c file_tree = "(string \<times> 'c fs_entry) list"

datatype template_error =
    WalkFailed io_error
  | OpenFailed string io_error
  | ReadFailed string io_error
  | ParseFailed string

definition HasSuffix :: "string \<Rightarrow> string \<Rightarrow> bool" where
  "HasSuffix s suffix \<longleftrightarrow> length suffix \<le> length s \<and> drop (length s - length suffix) s = suffix"

definition strip_suffix :: "string \<Rightarrow> string \<Rightarrow> string" where
  "strip_suffix suffix filePath = take (length filePath - length suffix) filePath"

fun walkFS ::
  "'c file_tree \<Rightarrow> string \<Rightarrow> (string \<Rightarrow> 'c \<Rightarrow> 's \<Rightarrow> template_error + 's) \<Rightarrow> 's \<Rightarrow> template_error + 's" where
  "walkFS [] suffix fn s = Inr s"
| "walkFS ((filePath, entry) # es) suffix fn s =
     (case entry of
        WalkError e \<Rightarrow> Inl (WalkFailed e)
      | Directory \<Rightarrow> walkFS es suffix fn s
      | CannotOpen e \<Rightarrow> if \<not> HasSuffix filePath suffix then walkFS es suffix fn s else Inl (OpenFailed filePath e)
      | CannotRead e \<Rightarrow> if \<not> HasSuffix filePath suffix then walkFS es suffix fn s else Inl (ReadFailed filePath e)
      | Content data \<Rightarrow>
          if \<not> HasSuffix filePath suffix then walkFS es suffix fn s
          else (case fn (strip_suffix suffix filePath) data s of
                  Inl e \<Rightarrow> Inl e
                | Inr s \<Rightarrow> walkFS es suffix fn s))"

text \<open>The templates by name, and the function given to the walk.\<close>

type_synonym 't template_set = "(string \<times> 't) list"

definition add_template :: "('c \<Rightarrow> 't option) \<Rightarrow> string \<Rightarrow> 'c \<Rightarrow> 't template_set \<Rightarrow> template_error + 't template_set" where
  "add_template parse filename data tpls = (case parse data of
     None \<Rightarrow> Inl (ParseFailed filename)
   | Some t \<Rightarrow> Inr (tpls @ [(filename, t)]))"

definition LoadTextTemplates :: "('c \<Rightarrow> 't option) \<Rightarrow> 'c file_tree \<Rightarrow> string list \<Rightarrow> template_error + 't template_set" where
  "LoadTextTemplates parse fs patterns = walkFS fs ''.txt.gotpl'' (add_template parse) []"

definition LoadHTMLTemplates :: "('c \<Rightarrow> 't option) \<Rightarrow> 'c file_tree \<Rightarrow> string list \<Rightarrow> template_error + 't template_set" where
  "LoadHTMLTemplates parse fs patterns = walkFS fs ''.html.gotpl'' (add_template parse) []"

text \<open>The functions of the templates; \<open>make\<close> panics on a negative length (\<open>None\<close>).\<close>

definition charString :: "char \<Rightarrow> int \<Rightarrow> string option" where
  "charString c n = (if n < 0 then None else Some (replicate (nat n) c))"

definition sum_ints :: "int list \<Rightarrow> int" where
  "sum_ints is = foldl (\<lambda>s i. wrap64 (s + i)) 0 is"

section \<open>Views\<close>

record 't View =
  TemplateDirectory :: string
  textTemplates :: "'t template_set"
  htmlTemplates :: "'t template_set"

definition View_Load :: "('c \<Rightarrow> 't option) \<Rightarrow> 'c file_tree \<Rightarrow> 't View \<Rightarrow> template_error + 't View" where
  "View_Load parse fs v =
     (case LoadTextTemplates parse fs [path_Join [TemplateDirectory v, ''text'', ''*.gotpl'']] of
        Inl e \<Rightarrow> Inl e
      | Inr txt \<Rightarrow>
          (case LoadHTMLTemplates parse fs [path_Join [TemplateDirectory v, ''html'', ''*.gotpl'']] of
             Inl e \<Rightarrow> Inl e
           | Inr html \<Rightarrow> Inr (v\<lparr>textTemplates := txt, htmlTemplates := html\<rparr>)))"

definition NewView :: "('c \<Rightarrow> 't option) \<Rightarrow> 'c file_tree \<Rightarrow> string \<Rightarrow> template_error + 't View" where
  "NewView parse fs tplDir = View_Load parse fs \<lparr>TemplateDirectory = tplDir, textTemplates = [], htmlTemplates = []\<rparr>"

text \<open>Executing a template sees the others, which it may invoke; there is no template of a name that
  is not loaded.\<close>

definition ExecuteTemplate ::
  "('t template_set \<Rightarrow> 't \<Rightarrow> 'd \<Rightarrow> string option) \<Rightarrow> 't template_set \<Rightarrow> string \<Rightarrow> 'd \<Rightarrow> string option" where
  "ExecuteTemplate exec tpls name data = (case map_of tpls name of None \<Rightarrow> None | Some t \<Rightarrow> exec tpls t data)"

definition renderText ::
  "('t template_set \<Rightarrow> 't \<Rightarrow> 'd \<Rightarrow> string option) \<Rightarrow> 't View \<Rightarrow> string \<Rightarrow> 'd \<Rightarrow> string option" where
  "renderText exec v tplName data =
     ExecuteTemplate exec (textTemplates v) (path_Join [TemplateDirectory v, ''text'', tplName]) data"

definition renderHTML ::
  "('t template_set \<Rightarrow> 't \<Rightarrow> 'd \<Rightarrow> string option) \<Rightarrow> 't View \<Rightarrow> string \<Rightarrow> 'd \<Rightarrow> string option" where
  "renderHTML exec v tplName data =
     ExecuteTemplate exec (htmlTemplates v) (path_Join [TemplateDirectory v, ''html'', tplName]) data"

section \<open>The embedded files\<close>

text \<open>A template is represented by the names of the templates it invokes.\<close>

definition templateFS :: "string list file_tree" where
  "templateFS =
    [(''.'', Directory),
     (''templates'', Directory),
     (''templates/html'', Directory),
     (''templates/html/footer.html.gotpl'', Content []),
     (''templates/html/header.html.gotpl'', Content []),
     (''templates/redirect'', Directory),
     (''templates/redirect/html'', Directory),
     (''templates/redirect/html/redirect.html.gotpl'', Content [''templates/html/header'', ''templates/html/footer'']),
     (''templates/redirect/text'', Directory),
     (''templates/redirect/text/redirect.txt.gotpl'', Content []),
     (''templates/serve'', Directory),
     (''templates/serve/html'', Directory),
     (''templates/serve/html/index.html.gotpl'', Content [''templates/html/header'', ''templates/html/footer'']),
     (''templates/serve/text'', Directory),
     (''templates/serve/text/index.txt.gotpl'', Content []),
     (''templates/status'', Directory),
     (''templates/status/html'', Directory),
     (''templates/status/html/http.html.gotpl'', Content []),
     (''templates/status/html/status.html.gotpl'',
        Content [''templates/html/header'', ''templates/status/html/http'', ''templates/status/html/tcp'',
          ''templates/html/footer'']),
     (''templates/status/html/tcp.html.gotpl'', Content []),
     (''templates/status/text'', Directory),
     (''templates/status/text/http.txt.gotpl'', Content []),
     (''templates/status/text/status.txt.gotpl'', Content [''templates/status/text/http'', ''templates/status/text/tcp'']),
     (''templates/status/text/tcp.txt.gotpl'', Content [])]"

section \<open>The actions that have views\<close>

definition NewRedirectAction ::
  "('c \<Rightarrow> 't option) \<Rightarrow> 'c file_tree \<Rightarrow> RedirectActionCfg \<Rightarrow> template_error + (RedirectActionCfg \<times> 't View)" where
  "NewRedirectAction parse fs cfg = map_sum id (Pair cfg) (NewView parse fs ''templates/redirect'')"

definition NewStatusAction :: "('c \<Rightarrow> 't option) \<Rightarrow> 'c file_tree \<Rightarrow> template_error + 't View" where
  "NewStatusAction parse fs = NewView parse fs ''templates/status''"

record 't ServeAction =
  sv_Cfg :: ServeActionCfg
  sv_FileNotFoundReply :: "ReplyActionCfg option"
  sv_serveView :: "'t View"
  sv_redirectView :: "'t View"

definition NewServeAction ::
  "('c \<Rightarrow> 't option) \<Rightarrow> 'c file_tree \<Rightarrow> ServeActionCfg \<Rightarrow> template_error + 't ServeAction" where
  "NewServeAction parse fs cfg =
     (case NewView parse fs ''templates/serve'' of
        Inl e \<Rightarrow> Inl e
      | Inr serveView \<Rightarrow>
          (case NewView parse fs ''templates/redirect'' of
             Inl e \<Rightarrow> Inl e
           | Inr redirectView \<Rightarrow>
               Inr \<lparr>sv_Cfg = cfg, sv_FileNotFoundReply = sa_FileNotFound cfg, sv_serveView = serveView,
                 sv_redirectView = redirectView\<rparr>))"

text \<open>Starting and stopping the serve action reaches the reply of a missing file only; those of a reply
  do nothing.\<close>

definition ServeAction_Start :: "(ReplyActionCfg \<Rightarrow> 'e option) \<Rightarrow> 't ServeAction \<Rightarrow> 'e option" where
  "ServeAction_Start reply_start a = (case sv_FileNotFoundReply a of None \<Rightarrow> None | Some r \<Rightarrow> reply_start r)"

section \<open>What is loaded\<close>

text \<open>The templates of a tree: the files of the suffix, under their paths without it.\<close>

definition template_files :: "string \<Rightarrow> 'c file_tree \<Rightarrow> (string \<times> 'c) list" where
  "template_files suffix fs =
     List.map_filter (\<lambda>(p, e). case e of
        Content c \<Rightarrow> if HasSuffix p suffix then Some (strip_suffix suffix p, c) else None
      | _ \<Rightarrow> None) fs"

definition loadable :: "('c \<Rightarrow> 't option) \<Rightarrow> string \<Rightarrow> string \<times> 'c fs_entry \<Rightarrow> bool" where
  "loadable parse suffix = (\<lambda>(p, e). case e of
      WalkError _ \<Rightarrow> False
    | Directory \<Rightarrow> True
    | CannotOpen _ \<Rightarrow> \<not> HasSuffix p suffix
    | CannotRead _ \<Rightarrow> \<not> HasSuffix p suffix
    | Content c \<Rightarrow> \<not> HasSuffix p suffix \<or> parse c \<noteq> None)"

lemma template_files_simps [simp]:
  "template_files suffix [] = []"
  "template_files suffix ((p, e) # fs) = (case e of
     Content c \<Rightarrow> (if HasSuffix p suffix then [(strip_suffix suffix p, c)] else []) @ template_files suffix fs
   | _ \<Rightarrow> template_files suffix fs)"
  by (simp_all add: template_files_def map_filter_simps split: fs_entry.splits)

lemma add_template_simps:
  "parse c = None \<Longrightarrow> add_template parse n c tpls = Inl (ParseFailed n)"
  "parse c = Some t \<Longrightarrow> add_template parse n c tpls = Inr (tpls @ [(n, t)])"
  by (simp_all add: add_template_def)

lemma loadable_simps:
  "\<not> loadable parse suffix (p, WalkError e)" "loadable parse suffix (p, Directory)"
  "loadable parse suffix (p, CannotOpen e) \<longleftrightarrow> \<not> HasSuffix p suffix"
  "loadable parse suffix (p, CannotRead e) \<longleftrightarrow> \<not> HasSuffix p suffix"
  "loadable parse suffix (p, Content c) \<longleftrightarrow> \<not> HasSuffix p suffix \<or> parse c \<noteq> None"
  by (simp_all add: loadable_def)

lemma walk_templates:
  "walkFS fs suffix (add_template parse) acc = Inr tpls \<longleftrightarrow>
    list_all (loadable parse suffix) fs \<and>
    tpls = acc @ map (\<lambda>(n, c). (n, the (parse c))) (template_files suffix fs)"
proof (induction fs arbitrary: acc)
  case (Cons x fs)
  obtain p e where x: "x = (p, e)" by (cases x)
  show ?case
  proof (cases e)
    case (Content c)
    then show ?thesis
      by (cases "parse c") (auto simp: x Cons.IH loadable_simps add_template_simps)
  qed (auto simp: x Cons.IH loadable_simps)
qed auto

text \<open>A template never invokes one that is not loaded.\<close>

definition closed_templates :: "string list template_set \<Rightarrow> bool" where
  "closed_templates tpls \<longleftrightarrow> list_all (\<lambda>(_, invoked). list_all (\<lambda>name. map_of tpls name \<noteq> None) invoked) tpls"

definition view_complete :: "string list View \<Rightarrow> string \<Rightarrow> bool" where
  "view_complete v name \<longleftrightarrow> closed_templates (textTemplates v) \<and> closed_templates (htmlTemplates v) \<and>
     map_of (textTemplates v) (path_Join [TemplateDirectory v, ''text'', name]) \<noteq> None \<and>
     map_of (htmlTemplates v) (path_Join [TemplateDirectory v, ''html'', name]) \<noteq> None"

fun complete_result :: "template_error + string list View \<Rightarrow> string \<Rightarrow> bool" where
  "complete_result (Inl _) name = False"
| "complete_result (Inr v) name = view_complete v name"

lemma complete_resultE: "complete_result r name \<Longrightarrow> \<exists>v. r = Inr v \<and> view_complete v name"
  by (cases r) auto

lemma serve_view_complete: "complete_result (NewView Some templateFS ''templates/serve'') ''index''"
  by code_simp

lemma redirect_view_complete: "complete_result (NewView Some templateFS ''templates/redirect'') ''redirect''"
  by code_simp

lemma status_view_complete: "complete_result (NewView Some templateFS ''templates/status'') ''status''"
  by code_simp

section \<open>Properties\<close>

text \<open>Loading templates finds every file of the suffix under its path without the suffix, and no
  other; it fails exactly when the tree cannot be walked, or a file of the suffix cannot be
  opened, read or parsed. The patterns of the caller do not matter.\<close>

theorem load_templates:
  "LoadTextTemplates parse fs patterns = Inr tpls \<longleftrightarrow>
    list_all (loadable parse ''.txt.gotpl'') fs \<and>
    tpls = map (\<lambda>(n, c). (n, the (parse c))) (template_files ''.txt.gotpl'' fs)"
  by (simp add: LoadTextTemplates_def walk_templates)



text \<open>The status action with its own view: whenever a format can be negotiated, it answers 200 with
  what has been rendered.\<close>

theorem status_action_renders:
  assumes "NewStatusAction Some templateFS = Inr v"
    and "vw_text w = renderText exec v" "vw_html w = renderHTML exec v"
    and "\<And>tpls name t x. \<lbrakk>closed_templates tpls; map_of tpls name = Some t\<rbrakk> \<Longrightarrow> exec tpls t x \<noteq> None"
    and "\<And>x. vw_marshal w x \<noteq> None" "view_format w ctx \<noteq> None"
  shows "\<exists>content. StatusAction_HandleRequest w servers ctx = Reply 200 (Some content) ctx"
proof -
  have "view_complete v ''status''"
    using assms(1) status_view_complete by (simp add: NewStatusAction_def)
  then have "vw_text w ''status'' x \<noteq> None" "vw_html w ''status'' x \<noteq> None" for x
    using assms(2-4) by (auto simp: view_complete_def renderText_def renderHTML_def ExecuteTemplate_def)
  then have "render_as w f ''status'' x \<noteq> None" for f x
    using assms(5) by (cases f) (simp_all add: render_as_def)
  then obtain f content where "view_format w ctx = Some f"
      "render_as w f ''status'' (sorted_statuses (serverStatuses servers)) = Some content"
    using assms(6) by (metis not_None_eq)
  then show ?thesis by (intro exI [of _ content]) (simp add: StatusAction_HandleRequest_def View_Render_def)
qed

end
