(* ===== verification/Watchers.thy ===== *)
theory Watchers
  imports Load_Balancer Http_Client Http_Status
begin

text \<open>
  The goroutines that work at intervals until they are stopped: \<open>rateLimiterGC\<close> of
  \<open>src/pkg/protocols/http/protocol.go\<close>, \<open>watchServerHealth\<close> of \<open>src/pkg/boulevard/load_balancer.go\<close>
  and \<open>watchConnections\<close> of \<open>src/pkg/httputils/client.go\<close>. Each waits for its timer or for the
  channel that \<open>Stop\<close> closes; what it receives is the list of events.
\<close>

section \<open>The loop\<close>

datatype 'x watch_event = Tick 'x | StopSignal

text \<open>Whether the goroutine has returned, and the state.\<close>

fun watch_loop :: "('x \<Rightarrow> 's \<Rightarrow> 's) \<Rightarrow> 'x watch_event list \<Rightarrow> 's \<Rightarrow> bool \<times> 's" where
  "watch_loop work [] s = (False, s)"
| "watch_loop work (Tick x # es) s = watch_loop work es (work x s)"
| "watch_loop work (StopSignal # es) s = (True, s)"

text \<open>What is received before the goroutine is stopped.\<close>

fun ticks :: "'x watch_event list \<Rightarrow> 'x list" where
  "ticks [] = []"
| "ticks (Tick x # es) = x # ticks es"
| "ticks (StopSignal # es) = []"

lemma watch_loop_eq: "watch_loop work es s = (StopSignal \<in> set es, fold work (ticks es) s)"
  by (induction work es s rule: watch_loop.induct) simp_all

text \<open>A watcher whose work keeps a contract keeps it for as long as it runs.\<close>

locale watcher =
  fixes work :: "'x \<Rightarrow> 's \<Rightarrow> 's" and kept :: "'s \<Rightarrow> bool"
  assumes keeps: "kept s \<Longrightarrow> kept (work x s)"
begin

lemma loop_keeps: "kept s \<Longrightarrow> kept (snd (watch_loop work es s))"
proof (induction es arbitrary: s)
  case (Cons e es)
  then show ?case by (cases e) (simp_all add: keeps)
qed simp

lemma loop_ends: "fst (watch_loop work es s) \<longleftrightarrow> StopSignal \<in> set es"
  by (simp add: watch_loop_eq)

lemma loop_last: "\<lbrakk>kept s; ticks es = xs @ [x]\<rbrakk> \<Longrightarrow> \<exists>s'. kept s' \<and> snd (watch_loop work es s) = work x s'"
proof -
  assume "kept s" "ticks es = xs @ [x]"
  moreover have "kept s \<Longrightarrow> kept (fold work xs s)" for s by (induction xs arbitrary: s) (simp_all add: keeps)
  ultimately show ?thesis by (auto simp: watch_loop_eq)
qed

end

section \<open>The collection of the rate limiters\<close>

definition rateLimiterGC :: "Protocol \<Rightarrow> unit watch_event list \<Rightarrow> server_state \<Rightarrow> bool \<times> server_state" where
  "rateLimiterGC p es sv = watch_loop (\<lambda>_. gcRateLimiters p) es sv"

text \<open>The limiters are the ones of the start or have been collected once: collecting again changes nothing.\<close>

definition collected :: "server_state \<Rightarrow> server_state \<Rightarrow> bool" where
  "collected sv sv' \<longleftrightarrow>
     (\<forall>i. sv_limiters sv' i \<in> {sv_limiters sv i, RateLimiter_GC (sv_limiters sv i)})"

interpretation collector: watcher "\<lambda>_ :: unit. gcRateLimiters p" "collected sv" for p sv
proof unfold_locales
  fix sv' assume "collected sv sv'"
  then have "RateLimiter_GC (sv_limiters sv' i) = RateLimiter_GC (sv_limiters sv i)" for i
    by (auto simp: collected_def RateLimiter_GC_idem dest!: spec [of _ i])
  then show "collected sv (gcRateLimiters p sv')"
    using \<open>collected sv sv'\<close> by (auto simp: collected_def gcRateLimiters_def gc_handlers_limiters)
qed

section \<open>The health of a server\<close>

text \<open>A ticker needs a positive interval: \<open>None\<close> is the panic of \<open>time.NewTicker\<close>. The period is in
  seconds, and the product is a signed integer of 64 bits.\<close>

definition watchServerHealth ::
  "int \<Rightarrow> (HealthTest \<Rightarrow> test_outcome) watch_event list \<Rightarrow> LoadBalancerServer \<Rightarrow> (bool \<times> LoadBalancerServer) option" where
  "watchServerHealth period es server =
     (if wrap64 (period * 10 ^ 9) \<le> 0 then None else Some (watch_loop watch_tick es server))"

text \<open>The server is in rotation when its probe is satisfied.\<close>

definition health_known :: "HealthProbeCfg \<Rightarrow> LoadBalancerServer \<Rightarrow> bool" where
  "health_known cfg s \<longleftrightarrow> (\<exists>p. lbs_probe s = Some p \<and> hp_tests p = hp_tests (NewHealthProbe cfg) \<and>
     hp_cfg p = cfg \<and> lbs_healthy s = probe_ok p)"

lemma probe_tests [simp]: "hp_tests (probe_step b p) = hp_tests p"
  by (auto simp: probe_step_def Let_def split: HealthProbeState.splits)

lemma watch_tick_probe:
  assumes "lbs_probe s = Some p" "lbs_healthy s = probe_ok p"
  shows "watch_tick outcome s =
    s\<lparr>lbs_probe := Some (probe_step (run_tests outcome (hp_tests p) = None) p),
      lbs_healthy := probe_ok (probe_step (run_tests outcome (hp_tests p) = None) p)\<rparr>"
  using assms by (auto simp: watch_tick_def HealthProbe_Execute_def Let_def)

interpretation prober: watcher watch_tick "health_known cfg" for cfg
  by unfold_locales (auto simp: health_known_def watch_tick_probe)

definition new_server :: "HostAddress \<Rightarrow> HealthProbeCfg \<Rightarrow> LoadBalancerServer" where
  "new_server address cfg = \<lparr>lbs_Address = address, lbs_healthy = True, lbs_probe = Some (NewHealthProbe cfg)\<rparr>"

lemma new_server_known: "health_known cfg (new_server address cfg)"
  by (simp add: health_known_def new_server_def NewHealthProbe_def probe_ok_def)

definition passed :: "HealthProbeCfg \<Rightarrow> (HealthTest \<Rightarrow> test_outcome) \<Rightarrow> bool" where
  "passed cfg outcome \<longleftrightarrow> run_tests outcome (hp_tests (NewHealthProbe cfg)) = None"

lemma watched_probe:
  assumes "lbs_probe s = Some p" "hp_tests p = hp_tests (NewHealthProbe cfg)" "lbs_healthy s = probe_ok p"
  shows "fold watch_tick os s =
    s\<lparr>lbs_probe := Some (run_probe (map (passed cfg) os) p), lbs_healthy := probe_ok (run_probe (map (passed cfg) os) p)\<rparr>"
  using assms
proof (induction os arbitrary: s p)
  case (Cons x os)
  let ?p = "probe_step (passed cfg x) p"
  have "watch_tick x s = s\<lparr>lbs_probe := Some ?p, lbs_healthy := probe_ok ?p\<rparr>"
    using watch_tick_probe [of s p x] Cons.prems by (simp add: passed_def)
  then show ?case using Cons.IH [of "watch_tick x s" ?p] Cons.prems by simp
qed simp

lemma watched_new_server:
  "snd (watch_loop watch_tick es (new_server address cfg)) =
    (let p = run_probe (map (passed cfg) (ticks es)) (NewHealthProbe cfg)
     in \<lparr>lbs_Address = address, lbs_healthy = probe_ok p, lbs_probe = Some p\<rparr>)"
proof -
  have "probe_ok (NewHealthProbe cfg)" by (simp add: NewHealthProbe_def probe_ok_def)
  then show ?thesis
    using watched_probe [of "new_server address cfg" "NewHealthProbe cfg" cfg "ticks es"]
    by (simp add: new_server_def watch_loop_eq Let_def)
qed

section \<open>The idle connections of a client\<close>

text \<open>The state is the client with the delay until the timer fires next; a tick carries the time.\<close>

definition watchConnections :: "int watch_event list \<Rightarrow> HttpClient \<Rightarrow> bool \<times> HttpClient \<times> int" where
  "watchConnections es c =
     watch_loop (\<lambda>now (c, _). closeIdleConnections now c) es (c, hcfg_IdleConnectionTimeout (hc_Cfg c))"

definition same_settings :: "HttpClient \<Rightarrow> HttpClient \<times> int \<Rightarrow> bool" where
  "same_settings c x \<longleftrightarrow> hc_Cfg (fst x) = hc_Cfg c \<and> hc_stopped (fst x) = hc_stopped c \<and>
     set (hc_idle (fst x)) \<subseteq> set (hc_idle c)"

interpretation idle_watch: watcher "\<lambda>now (c, _). closeIdleConnections now c" "same_settings c" for c
proof unfold_locales
  fix x :: "HttpClient \<times> int" and now
  assume x: "same_settings c x"
  obtain c1 d1 where r: "closeIdleConnections now (fst x) = (c1, d1)" by (metis prod.exhaust)
  show "same_settings c (case x of (c, _) \<Rightarrow> closeIdleConnections now c)"
    using x r closeIdleConnections_result [OF r] by (auto simp: same_settings_def split_beta)
qed

section \<open>Properties\<close>

text \<open>The collection of the rate limiters, however often it has run, does not show: the goroutine ends
  when the protocol is stopped, and a request gets the same answer as if it had never run.\<close>

theorem collection_invisible:
  assumes "\<And>i. tables_ok (w_start w) (rl_perIPv4 (sv_limiters sv i))" "\<And>i. tables_ok (w_start w) (rl_perIPv6 (sv_limiters sv i))"
    and "event_ok (1, w_start w)" "w_clock w = w_start w"
  shows "(fst (rateLimiterGC p es sv) \<longleftrightarrow> StopSignal \<in> set es) \<and>
    fst (ServeHTTP w act p al req out (snd (rateLimiterGC p es sv))) = fst (ServeHTTP w act p al req out sv)"
proof
  show "fst (rateLimiterGC p es sv) \<longleftrightarrow> StopSignal \<in> set es"
    unfolding rateLimiterGC_def by (rule collector.loop_ends)
  have "collected sv sv" by (simp add: collected_def)
  then have "collected sv (snd (rateLimiterGC p es sv))"
    unfolding rateLimiterGC_def by (rule collector.loop_keeps)
  then have "same_decisions w (snd (rateLimiterGC p es sv)) sv"
    using gc_transparent [OF assms(1-3)] by (auto simp: same_decisions_def collected_def assms(4)) metis+
  then show "fst (ServeHTTP w act p al req out (snd (rateLimiterGC p es sv))) = fst (ServeHTTP w act p al req out sv)"
    by (rule ServeHTTP_cong)
qed

text \<open>A server is in rotation exactly when its probe is satisfied with the results of all tests so far:
  the goroutine that watches it keeps the two in step, ends when the load balancer stops, and
  is there at all only when the period of the probe is positive.\<close>

theorem watched_server_health:
  assumes "watchServerHealth period es (new_server address cfg) = Some (ended, s)"
  shows "(ended \<longleftrightarrow> StopSignal \<in> set es) \<and> lbs_Address s = address \<and>
    lbs_healthy s = probe_ok (run_probe (map (passed cfg) (ticks es)) (NewHealthProbe cfg))"
proof -
  have "watch_loop watch_tick es (new_server address cfg) = (ended, s)"
    using assms by (simp add: watchServerHealth_def split: if_splits)
  then have "snd (watch_loop watch_tick es (new_server address cfg)) = s" "ended \<longleftrightarrow> StopSignal \<in> set es"
    using prober.loop_ends [of es "new_server address cfg"] by simp_all
  then show ?thesis unfolding watched_new_server Let_def by auto
qed

lemma address_loop_healthy:
  "address_loop k servers first nxt = Some (a, n) \<Longrightarrow>
    a = [] \<or> (\<exists>s \<in> set servers. lbs_healthy s \<and> a = HostAddress_String (lbs_Address s))"
  by (induction k servers first nxt rule: address_loop.induct) (auto simp: Let_def split: if_splits)

text \<open>A load balancer each of whose servers is watched by a goroutine of its own.\<close>

definition watched_balancer ::
  "int \<Rightarrow> HealthProbeCfg \<Rightarrow> (HostAddress \<times> (HealthTest \<Rightarrow> test_outcome) watch_event list) list \<Rightarrow> nat \<Rightarrow>
     LoadBalancer option" where
  "watched_balancer period cfg watches next =
     map_option (\<lambda>watched. \<lparr>lb_Servers = map snd watched, lb_next = next\<rparr>)
       (those (map (\<lambda>(address, es). watchServerHealth period es (new_server address cfg)) watches))"

lemma those_map: "those (map f xs) = Some ys \<Longrightarrow> y \<in> set ys \<Longrightarrow> \<exists>x \<in> set xs. f x = Some y"
  by (induction xs arbitrary: ys) (auto split: option.splits)

text \<open>C39: Only healthy servers are used: with every server watched, an address that the load balancer hands
  out is the one of a server whose probe is satisfied with the results of all its tests.\<close>

theorem watched_balancer_healthy:
  assumes "watched_balancer period cfg watches next = Some lb" "LoadBalancer_Address lb = Some (a, lb')" "a \<noteq> []"
  shows "\<exists>(address, es) \<in> set watches. a = HostAddress_String address \<and>
    probe_ok (run_probe (map (passed cfg) (ticks es)) (NewHealthProbe cfg))"
proof -
  obtain watched where w: "those (map (\<lambda>(address, es). watchServerHealth period es (new_server address cfg)) watches) =
      Some watched" "lb = \<lparr>lb_Servers = map snd watched, lb_next = next\<rparr>"
    using assms(1) by (auto simp: watched_balancer_def)
  then obtain s where s: "s \<in> snd ` set watched" "lbs_healthy s" "a = HostAddress_String (lbs_Address s)"
    using assms(2,3) address_loop_healthy by (fastforce simp: LoadBalancer_Address_def)
  then obtain ended where "(ended, s) \<in> set watched" by auto
  then obtain address es where "(address, es) \<in> set watches"
      "watchServerHealth period es (new_server address cfg) = Some (ended, s)"
    using those_map [OF w(1), of "(ended, s)"] by auto
  then show ?thesis using watched_server_health s(2,3) by blast
qed

lemma watched_balancer_healthy_witness:
  "\<exists>lb lb'. watched_balancer 5 \<lparr>SuccessThreshold = 1, FailureThreshold = 1, ProbeTCP = True, ProbeHTTP = None\<rparr>
      [(\<lparr>Hostname = ''a'', HostIP = [], HostPort = 1\<rparr>, [Tick (\<lambda>_. Dialed (Some EOF)), Tick (\<lambda>_. Dialed (Some EOF))]),
       (\<lparr>Hostname = ''b'', HostIP = [], HostPort = 1\<rparr>, [Tick (\<lambda>_. Dialed None)])] 0 = Some lb \<and>
    LoadBalancer_Address lb = Some (''b:1'', lb')"
  (is "\<exists>lb lb'. watched_balancer 5 ?cfg ?w 0 = _ \<and> _")
proof -
  have "Option.bind (watched_balancer 5 ?cfg ?w 0) (\<lambda>lb. map_option fst (LoadBalancer_Address lb)) = Some ''b:1''"
    by code_simp
  then obtain lb lb' where lb: "watched_balancer 5 ?cfg ?w 0 = Some lb" "LoadBalancer_Address lb = Some (''b:1'', lb')"
    by (auto simp: bind_eq_Some_conv)
  have "\<exists>(address, es) \<in> set ?w. ''b:1'' = HostAddress_String address \<and>
    probe_ok (run_probe (map (passed ?cfg) (ticks es)) (NewHealthProbe ?cfg))"
    by (rule watched_balancer_healthy [OF lb]) simp
  then show ?thesis using lb by blast
qed

text \<open>The goroutine of a client of the reverse proxy: after a tick no connection is idle that has been so
  for longer than its time, and the timer fires again no later than that time.\<close>

theorem idle_connections_watched:
  assumes "watchConnections es c = (ended, c', delay)" "ticks es = xs @ [now]"
  shows "(ended \<longleftrightarrow> StopSignal \<in> set es) \<and> set (hc_idle c') \<subseteq> set (hc_idle c) \<and>
    (\<forall>i \<in> set (hc_idle c'). \<not> conn_expired now c' i) \<and> delay \<le> hcfg_IdleConnectionTimeout (hc_Cfg c)"
proof -
  let ?work = "\<lambda>now (c, _ :: int). closeIdleConnections now c"
  let ?x = "(c, hcfg_IdleConnectionTimeout (hc_Cfg c))"
  have start: "same_settings c ?x" by (simp add: same_settings_def)
  have x: "snd (watch_loop ?work es ?x) = (c', delay)" "fst (watch_loop ?work es ?x) = ended"
    using assms(1) by (simp_all add: watchConnections_def)
  obtain y where y: "same_settings c y" "(c', delay) = ?work now y"
    using idle_watch.loop_last [OF start assms(2)] x(1) by auto
  then have r: "closeIdleConnections now (fst y) = (c', delay)" by (simp add: split_beta)
  have "fold min zs b \<le> b" for zs :: "int list" and b
    by (induction zs arbitrary: b) (simp_all, meson min.cobounded2 order_trans)
  then have "delay \<le> hcfg_IdleConnectionTimeout (hc_Cfg (fst y))"
    using closeIdleConnections_delay [OF r] by (metis add_le_cancel_left)
  moreover have "\<not> conn_expired now c' i" if "i \<in> set (hc_idle c')" for i
    using that closeIdleConnections_result [OF r] by (auto simp: conn_expired_def)
  moreover have "ended \<longleftrightarrow> StopSignal \<in> set es" using x(2) idle_watch.loop_ends by metis
  ultimately show ?thesis using y(1) closeIdleConnections_result(1) [OF r] by (auto simp: same_settings_def)
qed

end
