(* ===== verification/Programs.thy ===== *)
theory Programs
  imports Service_Setup Service_Configuration Service FastCGI_Client Control_API
begin

text \<open>
  The programs: \<open>src/cmd/boulevard/main.go\<close>, the commands of \<open>src/cmd/boulevard-cli\<close> and of
  \<open>src/cmd/fastcgi\<close>, and \<open>src/pkg/boulevard/version.go\<close>. The parsing of a command line and the
  end of a program by \<open>Fatal\<close> belong to the library \<open>program\<close>: the options are arguments, and an
  end by \<open>Fatal\<close> is a value.
\<close>

section \<open>Versions\<close>

text \<open>
  The expression of a build identifier is \<open>v\<close>, then as few characters as possible, then either the
  end or a dash, digits, a dash and the rest. \<open>tail_match\<close> gives the digits, the empty string when
  the group does not take part.
\<close>

definition newline :: char where
  "newline = CHR 0x0A"

definition tail_match :: "string \<Rightarrow> string option" where
  "tail_match s = (case s of
     [] \<Rightarrow> Some []
   | c # cs \<Rightarrow>
       let digits = takeWhile is_digit cs; rest = dropWhile is_digit cs in
       if c = CHR ''-'' \<and> digits \<noteq> [] \<and> rest \<noteq> [] \<and> hd rest = CHR ''-'' \<and> newline \<notin> set rest
       then Some digits else None)"

fun lazy_match :: "string \<Rightarrow> string \<Rightarrow> (string \<times> string) option" where
  "lazy_match acc s = (case tail_match s of
     Some digits \<Rightarrow> Some (acc, digits)
   | None \<Rightarrow> (case s of
       [] \<Rightarrow> None
     | c # cs \<Rightarrow> if c = newline then None else lazy_match (acc @ [c]) cs))"

definition buildIdRE_match :: "string \<Rightarrow> (string \<times> string) option" where
  "buildIdRE_match s = (case s of
     v # c # cs \<Rightarrow> if v = CHR ''v'' \<and> c \<noteq> newline then lazy_match [c] cs else None
   | _ \<Rightarrow> None)"

text \<open>There are always five submatches, the text of a group that does not take part is empty: the
  case of two submatches does not happen.\<close>

definition submatches :: "string \<Rightarrow> string list option" where
  "submatches s = map_option (\<lambda>(name, digits).
     [s, name, drop (1 + length name) s, digits, drop (3 + length name + length digits) s]) (buildIdRE_match s)"

definition Version :: "string \<Rightarrow> string option" where
  "Version buildId = (case submatches buildId of
     None \<Rightarrow> None
   | Some matches \<Rightarrow>
       if length matches = 2 then Some (matches ! 1) else Some (matches ! 1 @ ''-'' @ matches ! 3))"

text \<open>The main function of the command line tool looks at the first character of the identifier
  (\<open>None\<close>: a panic).\<close>

definition cli_version :: "string \<Rightarrow> string option" where
  "cli_version buildId = (case buildId of
     [] \<Rightarrow> None
   | c # cs \<Rightarrow> Some (if c = CHR ''v'' then cs else buildId))"

section \<open>The server\<close>

record program_world =
  pw_file :: "string \<Rightarrow> bcl_block option"
  pw_infos :: protocol_infos
  pw_suites :: "(string \<times> u16) list"
  pw_files :: file_world
  pw_email :: "string \<Rightarrow> bool"
  pw_setup :: setup_world
  pw_service :: service_world

definition load_setup :: "program_world \<Rightarrow> string \<Rightarrow> bcl_block \<Rightarrow> setup_cfg option" where
  "load_setup pw buildId doc = do {
     acme \<leftarrow> maybe_block (ACMECfg_ReadBCLElement (pw_files pw) (pw_email pw)) doc ''acme'';
     control \<leftarrow> maybe_block (ControlCfg_ReadBCLElement (pw_files pw)) doc ''control_api'';
     lg \<leftarrow> initLogger doc;
     _ \<leftarrow> initPProf doc;
     Some \<lparr>su_BuildId = buildId, su_Logger = Some lg, su_ACME = acme, su_ControlAPI = control\<rparr> }"

definition load_file :: "program_world \<Rightarrow> string \<Rightarrow> string \<Rightarrow> (setup_cfg \<times> ServiceCfg) option" where
  "load_file pw buildId cfgPath = do {
     doc \<leftarrow> pw_file pw cfgPath;
     su \<leftarrow> load_setup pw buildId doc;
     cfg \<leftarrow> ServiceCfg_Load (pw_infos pw) (pw_suites pw) doc;
     Some (su, cfg) }"

definition no_file :: "string \<Rightarrow> setup_cfg \<times> ServiceCfg" where
  "no_file buildId = (\<lparr>su_BuildId = buildId, su_Logger = None, su_ACME = None, su_ControlAPI = None\<rparr>,
     \<lparr>sc_ACME = False, sc_LoadBalancers = [], sc_Servers = [], sc_ControlAPI = None\<rparr>)"

record run_options =
  ro_version :: bool
  ro_cfgFile :: string
  ro_validateCfg :: bool

datatype fatal_error = InvalidBuildId | CannotLoadCfg string | CannotCreateService setup_error | CannotStartService service_error

text \<open>How a run ends, with what the service holds then: what runs at the end by \<open>Fatal\<close> dies with the
  process. A run that serves ends with a signal.\<close>

datatype run_end =
    PrintedVersion string
  | FatalError fatal_error
  | FatalStart service_error service_parts
  | ValidatedCfg
  | Interrupted service_parts service_parts

definition run_program :: "program_world \<Rightarrow> string \<Rightarrow> run_options \<Rightarrow> held \<Rightarrow> run_end" where
  "run_program pw buildId opts w =
     (if ro_version opts then
        (case Version buildId of None \<Rightarrow> FatalError InvalidBuildId | Some v \<Rightarrow> PrintedVersion v)
      else
        let loaded = (if ro_cfgFile opts = [] then Some (no_file buildId) else load_file pw buildId (ro_cfgFile opts)) in
        case loaded of
          None \<Rightarrow> FatalError (CannotLoadCfg (ro_cfgFile opts))
        | Some (su, cfg) \<Rightarrow>
            if ro_validateCfg opts then ValidatedCfg
            else (case NewService (pw_setup pw) su of
                Inl e \<Rightarrow> FatalError (CannotCreateService e)
              | Inr _ \<Rightarrow>
                  (case Service_Start (pw_service pw) cfg (no_parts w) of
                     (Some e, p) \<Rightarrow> FatalStart e p
                   | (None, p) \<Rightarrow> Interrupted p (Service_Stop cfg p))))"

section \<open>The FastCGI tool\<close>

definition role_name :: "Role \<Rightarrow> string" where
  "role_name r = (case r of RoleResponder \<Rightarrow> ''responder'' | RoleAuthorizer \<Rightarrow> ''authorizer'' | RoleFilter \<Rightarrow> ''filter'')"

definition parseRole :: "string \<Rightarrow> Role option" where
  "parseRole s =
     (if s = role_name RoleAuthorizer then Some RoleAuthorizer
      else if s = role_name RoleFilter then Some RoleFilter
      else if s = role_name RoleResponder then Some RoleResponder
      else None)"

definition parseNameValuePairs :: "string list \<Rightarrow> NameValuePair list" where
  "parseNameValuePairs ss = map (\<lambda>s. case Cut s CHR ''='' of (n, v, _) \<Rightarrow> \<lparr>Name = n, Value = v\<rparr>) ss"

record send_options =
  so_parameters :: "string list"
  so_role :: string
  so_stdin :: "stream option"
  so_header :: bool

datatype 'e command_end =
    UnknownRole string
  | CannotSend "'e client_error"
  | Printed "string option" string

definition print_header :: "Header \<Rightarrow> string" where
  "print_header h = concat (map (\<lambda>f. FieldName f @ '': '' @ FieldValue f @ [newline]) (Fields h)) @ [newline]"

text \<open>The command prints what the server has written to its error output and to its output; \<open>None\<close>
  is a panic of the client.\<close>

definition cmdSendRequest ::
  "(io_error \<Rightarrow> io_error option) \<Rightarrow> attempt \<Rightarrow> attempt \<Rightarrow> send_options \<Rightarrow> io_error command_end option" where
  "cmdSendRequest sub a1 a2 opts =
     (case parseRole (so_role opts) of
        None \<Rightarrow> Some (UnknownRole (so_role opts))
      | Some role \<Rightarrow>
          (case Client_SendRequest sub Buffer_Write role (parseNameValuePairs (so_parameters opts)) a1 a2
                  \<lparr>rq_stdin = so_stdin opts, rq_data = None, rq_stdout = [], rq_stderr = []\<rparr> (NewClient None) of
             None \<Rightarrow> None
           | Some (Inl e, _, _) \<Rightarrow> Some (CannotSend e)
           | Some (Inr h, rq, _) \<Rightarrow>
               Some (Printed (if rq_stderr rq \<noteq> [] then Some (string_of (rq_stderr rq)) else None)
                 ((if so_header opts then print_header h else []) @ string_of (rq_stdout rq)))))"

definition cmdValues :: "attempt \<Rightarrow> ('e client_error + (string \<times> string) list) option" where
  "cmdValues a = map_option (\<lambda>(r, _). map_sum id (map (\<lambda>p. (Name p, Value p))) r)
     (FetchValues a (NewClient None))"

section \<open>The command line tool of the service\<close>

definition cmdStatus ::
  "(string \<Rightarrow> (string \<times> string) option) \<Rightarrow> (string \<Rightarrow> api_value option) \<Rightarrow>
     (Request \<Rightarrow> string option \<Rightarrow> (int \<times> string option) option) \<Rightarrow> call_error + string" where
  "cmdStatus unmarshal_error decode send =
     (case Client_Call (\<lambda>_. None) unmarshal_error send ''status'' (None :: unit option) (Some decode) of
        Inl e \<Rightarrow> Inl e
      | Inr (Some (ServiceStatus buildId)) \<Rightarrow> Inr (buildId @ [newline])
      | Inr _ \<Rightarrow> Inr [newline])"

section \<open>Properties\<close>

lemma lazy_match_plain:
  "\<lbrakk>CHR ''-'' \<notin> set s; newline \<notin> set s\<rbrakk> \<Longrightarrow> lazy_match acc s = Some (acc @ s, [])"
  by (induction s arbitrary: acc) (auto simp: tail_match_def)

lemma tail_match_commit:
  assumes "n \<noteq> []" "list_all is_digit n" "newline \<notin> set hash"
  shows "tail_match (CHR ''-'' # n @ CHR ''-'' # hash) = Some n"
proof -
  have "\<not> is_digit CHR ''-''" "newline \<noteq> CHR ''-''" by (simp_all add: is_digit_def newline_def)
  then show ?thesis using assms
    by (auto simp: tail_match_def list_all_iff takeWhile_append2 dropWhile_append2)
qed

lemma lazy_match_commit:
  assumes "n \<noteq> []" "list_all is_digit n" "newline \<notin> set hash"
  shows "\<lbrakk>CHR ''-'' \<notin> set s; newline \<notin> set s\<rbrakk> \<Longrightarrow>
    lazy_match acc (s @ CHR ''-'' # n @ CHR ''-'' # hash) = Some (acc @ s, n)"
proof (induction s arbitrary: acc)
  case Nil
  then show ?case using tail_match_commit [OF assms] by simp
next
  case (Cons c s)
  then show ?case by (auto simp: tail_match_def)
qed

text \<open>The version of a build: the identifier of a build that comes after a tag, \<open>v1.2-7-g1a2b3c\<close>, gives the
  name of the tag and the number of commits since, and the one of the tag itself, \<open>v1.2\<close>, the
  name of the tag with a dash at its end.\<close>

theorem version_strings:
  assumes "name \<noteq> []" "CHR ''-'' \<notin> set name" "newline \<notin> set name"
    and "n \<noteq> []" "list_all is_digit n" "newline \<notin> set hash"
  shows "Version (''v'' @ name @ ''-'' @ n @ ''-'' @ hash) = Some (name @ ''-'' @ n) \<and>
    Version (''v'' @ name) = Some (name @ ''-'')"
proof -
  obtain c cs where c: "name = c # cs" using assms(1) by (cases name) simp_all
  then show ?thesis
    using lazy_match_commit [OF assms(4-6), of cs "[c]"] lazy_match_plain [of cs "[c]"] assms(2,3)
    by (simp add: Version_def submatches_def buildIdRE_match_def del: lazy_match.simps) auto
qed

lemma version_strings_witness:
  "Version ''v1.2-7-g1a2b3c'' = Some ''1.2-7'' \<and> Version ''v1.2'' = Some ''1.2-''"
  using version_strings [of "''1.2''" "''7''" "''g1a2b3c''"] by (simp add: newline_def is_digit_def)

text \<open>A run of the server that a signal ends has run every configured server and load balancer and
  leaves nothing behind. Neither the version nor the validation of a configuration starts
  anything.\<close>

theorem run_ends_clean:
  assumes "run_program pw buildId opts w = Interrupted p p'"
  shows "p' = no_parts w \<and> \<not> ro_version opts \<and> \<not> ro_validateCfg opts \<and>
    (\<exists>su cfg. (if ro_cfgFile opts = [] then Some (no_file buildId) else load_file pw buildId (ro_cfgFile opts)) =
        Some (su, cfg) \<and> map fst (sp_servers p) = map ss_Name (sc_Servers cfg) \<and>
      map fst (sp_balancers p) = map lbc_Name (sc_LoadBalancers cfg))"
proof -
  obtain su cfg where loaded:
      "(if ro_cfgFile opts = [] then Some (no_file buildId) else load_file pw buildId (ro_cfgFile opts)) = Some (su, cfg)"
      "Service_Start (pw_service pw) cfg (no_parts w) = (None, p)" "p' = Service_Stop cfg p"
      "\<not> ro_version opts" "\<not> ro_validateCfg opts"
    using assms by (auto simp: run_program_def Let_def split: if_splits option.splits sum.splits prod.splits)
  then show ?thesis using started_service_stops [OF loaded(2)] by blast
qed

lemma run_ends_clean_witness:
  "\<exists>p p'. run_program
      \<lparr>pw_file = \<lambda>_. None, pw_infos = [], pw_suites = [], pw_files = undefined, pw_email = \<lambda>_. False,
       pw_setup = \<lparr>nw_logger = \<lambda>_. True, nw_datastore = \<lambda>_. True, nw_acme_client = \<lambda>_. True, nw_open = \<lambda>_. Inl EOF,
         nw_PebbleDirectoryURI = [], nw_PebbleAddress = [], nw_LetsEncryptDirectoryURI = []\<rparr>,
       pw_service = \<lparr>sw_os = demo_os, sw_acme = True, sw_remove = True\<rparr>\<rparr> ''v1''
      \<lparr>ro_version = False, ro_cfgFile = [], ro_validateCfg = False\<rparr> {#} = Interrupted p p' \<and> p' = no_parts {#}"
  (is "\<exists>p p'. run_program ?pw ?b ?o {#} = _ \<and> _")
proof -
  obtain p p' where r: "run_program ?pw ?b ?o {#} = Interrupted p p'"
    by (auto simp: run_program_def no_file_def NewService_def initACMEClient_def initControlAPI_def Service_Start_def
        startACMEClient_def start_next_def service_balancers_def service_servers_def startControlAPI_def Let_def
        split: prod.splits)
  then show ?thesis using run_ends_clean [OF r] by blast
qed

text \<open>The parameters of the FastCGI tool arrive as they are written: pairs printed as name, equals sign
  and value are read back, and so are the names of the roles.\<close>

theorem parse_arguments:
  assumes "\<forall>p \<in> set ps. CHR ''='' \<notin> set (Name p)"
  shows "parseNameValuePairs (map (\<lambda>p. Name p @ ''='' @ Value p) ps) = ps \<and>
    (parseRole s = Some r \<longleftrightarrow> s = role_name r)"
proof -
  have "parseNameValuePairs (map (\<lambda>p. Name p @ ''='' @ Value p) ps) = ps"
    using assms by (induction ps) (simp_all add: parseNameValuePairs_def)
  then show ?thesis by (cases r) (auto simp: parseRole_def role_name_def)
qed

lemma parse_arguments_witness:
  "parseNameValuePairs [''A=b=c''] = [\<lparr>Name = ''A'', Value = ''b=c''\<rparr>] \<and> parseRole ''filter'' = Some RoleFilter"
  using parse_arguments [of "[\<lparr>Name = ''A'', Value = ''b=c''\<rparr>]" "''filter''" RoleFilter] by (simp add: role_name_def)

text \<open>The request of the tool always comes to an end, whatever the server does: an unknown role, an
  error of the client, or an output.\<close>

theorem send_request_ends: "\<exists>r. cmdSendRequest sub a1 a2 opts = Some r"
proof (cases "parseRole (so_role opts)")
  case (Some role)
  obtain res rq c where "Client_SendRequest sub Buffer_Write role (parseNameValuePairs (so_parameters opts)) a1 a2
      \<lparr>rq_stdin = so_stdin opts, rq_data = None, rq_stdout = [], rq_stderr = []\<rparr> (NewClient None) = Some (res, rq, c)"
    using Client_SendRequest_quiet [OF NewClient_quiet] by blast
  then show ?thesis using Some by (cases res) (simp_all add: cmdSendRequest_def)
qed (simp add: cmdSendRequest_def)

text \<open>The tool of the service prints the build identifier of the service that answers.\<close>

theorem status_prints_build_id:
  assumes "\<And>v. encode v \<noteq> None" "decode (the (encode (ServiceStatus buildId)) @ [CHR 0x0A]) = Some (ServiceStatus buildId)"
    and "unmarshal_error (the (encode (ControlAPIError ''unknown_operation'' ''unknown operation'')) @ [CHR 0x0A]) =
      Some (''unknown_operation'', ''unknown operation'')"
  shows "cmdStatus unmarshal_error decode (loopback w encode buildId al sv) = Inr (buildId @ [newline])"
proof -
  have "Trim ''status'' ''/'' = ''status''" by code_simp
  then show ?thesis
    using client_call_answer [of encode decode buildId unmarshal_error, OF assms, where op = "''status''" and marshal = "\<lambda>_ :: unit. None"]
    by (simp add: cmdStatus_def)
qed

end
