(* ===== verification/Spec2Isabelle.thy ===== *)
theory Spec2Isabelle
  imports Http_Server Http_Actions Fastcgi_Action Load_Balancer Tcp_Relay Reverse_Proxy Service_Restart
    Service_Configuration Http_Status Control_API Action_Configuration Certificates Service_Setup
    Tcp_Server Network_Errors Templates Watchers Programs
begin

text \<open>
  A model of Boulevard (\<open>src/\<close>), a server for HTTP and TCP with a FastCGI client and load
  balancers, written in Go.

  \<^bold>\<open>The program.\<close> A service (\<open>src/pkg/service\<close>) starts servers (\<open>src/pkg/boulevard/server.go\<close>), each with
  listeners and a protocol, HTTP (\<open>src/pkg/protocols/http\<close>) or TCP (\<open>src/pkg/protocols/tcp\<close>). The
  HTTP protocol gives a request its context, identifies the client and the host, searches
  the tree of handlers, lets the TLS policy, the rate limiter and the authentication of the
  handler decide, and runs the action of the handler; an access log gets a line at the end.
  An action replies, redirects, serves files, passes the request to a FastCGI application
  through the client of \<open>src/pkg/fastcgi\<close> or to an HTTP server through the client of
  \<open>src/pkg/httputils/client.go\<close>, with a load balancer in front if there is one. The TCP protocol relays bytes to another server.

  \<^bold>\<open>The theories\<close>, in the order of their dependencies.

  \<^item> \<open>Prelude\<close>: Go's integers, byte slices and strings, the functions of the packages \<open>strings\<close>,
    \<open>strconv\<close>, \<open>bytes\<close> and \<open>io\<close> that the program calls, and connections as byte streams that may
    fail (\<open>reader\<close>, \<open>writer\<close>). \<open>Codecs\<close>: the contracts of an encoder with its decoder and of
    lists of items, as locales. \<open>Segments\<close>: the matching of lists of names with wildcards.
    \<open>Ownership\<close>: what a pool of connections promises, as an abstract state machine of idle and
    owned connections; the locale \<open>owning_pool\<close> is interpreted on the two pools of the program.
  \<^item> \<open>FastCGI_Protocol\<close>, \<open>FastCGI_Header\<close>, \<open>FastCGI_Connection\<close>, \<open>FastCGI_Client\<close>: the files
    \<open>protocol.go\<close>, \<open>header.go\<close>, \<open>connection.go\<close> and \<open>client.go\<close> of \<open>src/pkg/fastcgi\<close>. Records with
    their encoding, the incremental header parser, the writing of a request and the reading of
    its response into any destination (locale \<open>byte_sink\<close>), and the pool of connections, both as
    the sequence of one request and as a step relation of threads that interleave.
  \<^item> \<open>Spill_Buffer\<close>, \<open>Load_Balancer\<close>, \<open>Format_String\<close>: \<open>spill_buffer.go\<close>, \<open>load_balancer.go\<close> with
    \<open>health_probe.go\<close>, \<open>format_string.go\<close> of \<open>src/pkg/boulevard\<close>.
  \<^item> \<open>Go_Net\<close>, \<open>Addresses\<close>, \<open>Domain_Names\<close>, \<open>Rate_Limiter\<close>: \<open>src/pkg/netutils\<close> on a model of the
    functions of Go's package \<open>net\<close>.
  \<^item> \<open>Http_Header\<close>, \<open>Http_Syntax\<close>, \<open>Path_Pattern\<close>, \<open>Media_Types\<close>: header fields, token lists, the
    host of a request, HTTP and TLS versions, path patterns, and the negotiation of media types.
  \<^item> \<open>Http_Context\<close>, \<open>Http_Handler\<close>, \<open>Http_Auth\<close>, \<open>Access_Logger\<close>, \<open>Http_Server\<close>: the context of a
    request, the tree of handlers and its search, authentication, access logs, and \<open>ServeHTTP\<close>
    with the whole way of a request. \<open>Responses\<close>: what the server needs from an action so that every
    request is answered (locale \<open>responding\<close>, interpreted on the actions of a configured site).
  \<^item> \<open>Http_Status\<close>, \<open>Control_API\<close>: the maintenance of a running HTTP server (rotation of the logs,
    collection of the rate limiters, count of the connections), the status of the servers with
    its views, and the control API of the service with its client.
  \<^item> \<open>Clean_Path\<close>, \<open>Http_Actions\<close>, \<open>Fastcgi_Action\<close>: \<open>path.Join\<close>, and the actions.
  \<^item> \<open>Http_Client\<close>, \<open>Reverse_Proxy\<close>: the pool of connections to an upstream HTTP server, as
    operations and as a step relation of goroutines, and the reverse proxy action with the
    header it sends, the upgrade of connections and the hijacked connection as a step relation.
  \<^item> \<open>Tcp_Relay\<close>, \<open>Tcp_Server\<close>: the TCP protocol, a connection as a step relation of its two goroutines,
    and a server as a step relation of the goroutines of its listeners, of its connections and
    of the one that stops it, with the wait group (locale \<open>draining\<close>: runs that end).
    \<open>Network_Errors\<close>: the classification of errors through their wrappers (locale \<open>transparent\<close>)
    and what is logged at the end of a connection.
  \<^item> \<open>Templates\<close>: \<open>templates.go\<close> and \<open>view.go\<close> with the embedded files. \<open>Watchers\<close>: the goroutines that
    work at intervals, on the rate limiters, the servers of a load balancer and the idle
    connections (locale \<open>watcher\<close>).
  \<^item> \<open>Lifecycle\<close>: what listeners, handlers, protocols, servers and the service hold, as a multiset of
    resources of the operating system, when they start, fail to start and stop (locales
    \<open>startable\<close> and \<open>clean_startable\<close>). \<open>Service_Restart\<close>: the restart of a server that has failed.
    \<open>Service\<close>: the load balancers, the ACME client and the control API with the servers, in the
    order in which the service starts and stops them.
  \<^item> \<open>Configuration\<close>, \<open>Service_Configuration\<close>: what the blocks of the configuration file mean, for the
    constraints of handlers, rate limits, authentication, TLS, health probes, load balancers,
    listeners and servers. \<open>Action_Configuration\<close>: the blocks of the actions, of handlers and of the two
    protocols, and the tree of handlers they give. \<open>Service_Setup\<close>: the other sections of the file, the
    creation of the service, its signals, and the stop of an HTTP server with running requests.
    \<open>Certificates\<close>: the TLS configuration of a listener. The BCL library, which parses the file, is represented by the
    answers of its methods (\<open>bcl_entry\<close>, \<open>bcl_element\<close>, \<open>bcl_block\<close>).
  \<^item> \<open>Programs\<close>: the programs of \<open>src/cmd\<close>, from their options to their end, and \<open>version.go\<close>.

  \<^bold>\<open>Correspondence.\<close> A Go struct is a record, an enumeration a datatype, a map a function or a
  list of pairs where the order of its iteration matters, an error a value of a sum type; the
  text of error messages is left out. A panic is \<open>None\<close> or \<open>Panicked\<close> with the state it
  happens in, where the program can panic. Integers of a fixed width are words, or integers
  with \<open>wrap64\<close> written out at every operation. A method with a pointer receiver returns the
  new state of its receiver. Critical sections of mutexes are single functions, and the step
  relations interleave them. What the operating system, the network, the clock, a random
  generator or a hash function does is an argument (a record \<open>attempt\<close>, \<open>fcgi_world\<close>,
  \<open>action_world\<close>, \<open>os\<close>), so each theorem holds for everything they may do. Loops are structural
  recursions over what they read or functions with a termination proof; no fuel is used.

  \<^bold>\<open>What is shown.\<close> Round trips of the wire protocol, of headers, media types, addresses,
  patterns and format strings; that the records on the wire are those of the request and that
  a response is relayed whole or not at all, from the FastCGI connection through the spill
  buffer to the HTTP client; exclusive use of connections in every interleaving and no leak
  of one; that only requests that pass the policies reach an action, that routing is the
  innermost matching handler, that every request to a configured site is answered, that a
  listener with TLS never listens without it, that the limiter keeps its limit, also from the configuration
  file on, and stays well-formed, and that maintenance is invisible to clients; fairness of the load balancer;
  faithful and terminating relays; that a stopped TCP server leaves nothing behind and that its
  stop returns; that the load balancer uses only servers whose probe is satisfied; that the
  views have their templates; the header a proxied server gets, its own response for each
  request, and the consistency of the pool of connections in every interleaving; starting and
  stopping as all or nothing. Where the code
  does not do what it means to, the theorem says what it does: a header in two records, one
  connection too many, a retry with a body that is already consumed, the two dots of a path,
  the path information of a script, an informational response taken for the answer, bytes
  lost by an upgrade, requests under which a server stops, a constraint on the presence of a header field, a health probe that no
  response satisfies, hijacked connections counted forever, resources and parts kept by a start that fails, the crash of a relay and
  of a restarted server, a connection that a stop overlooks, errors that are never logged, the
  version of a tag.

  \<^bold>\<open>Not modelled.\<close> The parsing of the configuration file (a library, BCL, does it) and of command
  lines; JSON and the language of the templates (arguments of \<open>Http_Status\<close>, \<open>Templates\<close> and
  \<open>Control_API\<close>); the ACME protocol and X.509 (arguments of \<open>Certificates\<close> and \<open>Service_Setup\<close>);
  building clients of the standard library; the clients and servers of the tests. Logging is
  left out, except access logs and the level at which the end of a connection is logged.
\<close>

section \<open>Properties across components\<close>



end
